(* ===== verification/Prelude.thy ===== *)
theory Prelude
  imports "HOL-Library.Word"
begin

text \<open>
  What the components share: the names of the C integer types, the outcomes of C code
  (a returned value, a run-time fault where the C standard leaves the behaviour
  undefined, or no return at all), the sequencing of such outcomes, and the generic
  lemmas on lists and sums that several components use.
\<close>

section \<open>C integer types\<close>

type_synonym u8 = "8 word"
type_synonym u16 = "16 word"
type_synonym u32 = "32 word"
type_synonym u64 = "64 word"

section \<open>Outcomes\<close>

text \<open>
  A fault is a step whose behaviour C leaves undefined. The models compute it as a
  value, so that its absence is a theorem and its presence a finding.
\<close>

datatype fault =
    NullDeref            \<comment> \<open>a read or write through a null pointer\<close>
  | DanglingPointer      \<comment> \<open>an access to memory that is not, or no longer, allocated\<close>
  | BufferOverflow       \<comment> \<open>an access beyond the end of an array\<close>
  | BadConversion        \<comment> \<open>a floating value outside the range of the integer type\<close>
  | TypeConfusion        \<comment> \<open>memory used as a structure it does not hold\<close>
  | NoReturn             \<comment> \<open>a loop without an end\<close>

text \<open>
  \<open>None\<close>: the code does not return. \<open>Some (Inl f)\<close>: it runs into fault \<open>f\<close>.
  \<open>Some (Inr x)\<close>: it returns \<open>x\<close>.
\<close>

type_synonym 'a exec = "(fault + 'a) option"

definition ok :: "'a \<Rightarrow> 'a exec" where
  "ok x = Some (Inr x)"

definition abort :: "fault \<Rightarrow> 'a exec" where
  "abort f = Some (Inl f)"

definition and_then :: "'a exec \<Rightarrow> ('a \<Rightarrow> 'b exec) \<Rightarrow> 'b exec" where
  "and_then x f =
     (case x of None \<Rightarrow> None | Some r \<Rightarrow> (case r of Inl e \<Rightarrow> abort e | Inr a \<Rightarrow> f a))"

lemma and_then_simps [simp]:
  "and_then None f = None"
  "and_then (ok a) f = f a"
  "and_then (abort e) f = abort e"
  "and_then (Some (Inr a)) f = f a"
  "and_then (Some (Inl e)) f = abort e"
  by (simp_all add: and_then_def ok_def abort_def)

lemma ok_inject [simp]: "ok x = ok y \<longleftrightarrow> x = y"
  by (simp add: ok_def)

lemma outcome_distinct [simp]:
  "ok x \<noteq> abort e" "abort e \<noteq> ok x" "ok x \<noteq> None" "None \<noteq> ok x"
  "abort e \<noteq> None" "None \<noteq> abort e"
  by (simp_all add: ok_def abort_def)

lemma abort_inject [simp]: "abort e = (abort e' :: 'a exec) \<longleftrightarrow> e = e'"
  by (simp add: abort_def)

lemma and_then_ok_iff: "and_then x f = ok b \<longleftrightarrow> (\<exists>a. x = ok a \<and> f a = ok b)"
  by (cases x) (auto simp: and_then_def ok_def abort_def split: sum.splits)

lemma exec_cases [case_names diverges faults returns]:
  fixes x :: "'a exec"
  obtains "x = None" | e where "x = abort e" | a where "x = ok a"
proof (cases x)
  case None
  then show thesis by (rule that)
next
  case (Some r)
  then show thesis
    using that by (cases r) (auto simp: ok_def abort_def)
qed

text \<open>A null check: the value of a pointer that must not be null.\<close>

definition non_null :: "'a option \<Rightarrow> 'a exec" where
  "non_null p = (case p of None \<Rightarrow> abort NullDeref | Some a \<Rightarrow> ok a)"

lemma non_null_simps [simp]:
  "non_null None = abort NullDeref"
  "non_null (Some a) = ok a"
  by (simp_all add: non_null_def)

section \<open>Printing\<close>

text \<open>\<open>sprintf\<close> of \<open>"%d"\<close>, for a number that is not negative.\<close>

fun decimal :: "nat \<Rightarrow> string" where
  "decimal n = (if n < 10 then [char_of (48 + n)] else decimal (n div 10) @ [char_of (48 + n mod 10)])"

declare decimal.simps [simp del]

lemma length_decimal: "n < 10 ^ Suc k \<Longrightarrow> length (decimal n) \<le> Suc k"
proof (induction k arbitrary: n)
  case 0
  then show ?case by (simp add: decimal.simps [of n])
next
  case (Suc k)
  then have "n div 10 < 10 ^ Suc k" by (simp add: less_mult_imp_div_less mult.commute)
  with Suc.IH [of "n div 10"] show ?case by (simp add: decimal.simps [of n])
qed

lemma decimal_digits: "c \<in> set (decimal n) \<Longrightarrow> \<exists>d < 10. c = char_of (48 + d :: nat)"
proof (induction n rule: decimal.induct)
  case (1 n)
  then show ?case
    by (cases "n < 10") (auto simp: decimal.simps [of n] intro: exI [of _ "n mod 10"])
qed

section \<open>Lists and sums\<close>

text \<open>Splitting two lists of the same length at the same place.\<close>

lemma split_same_length:
  assumes "length xs = length (ys1 @ y # ys2)"
  obtains xs1 x xs2 where "xs = xs1 @ x # xs2"
    "length xs1 = length ys1" "length xs2 = length ys2"
proof -
  have n: "length ys1 < length xs" using assms by simp
  from id_take_nth_drop [OF n] show ?thesis
    by (rule that) (use assms in auto)
qed

lemma sum_fun_upd:
  fixes g :: "'a \<Rightarrow> nat"
  assumes "finite A" "h \<in> A"
  shows "(\<Sum>i\<in>A. g ((B(h := b)) i)) + g (B h) = (\<Sum>i\<in>A. g (B i)) + g b"
proof -
  have "(\<Sum>i\<in>A. g ((B(h := b)) i)) = g b + (\<Sum>i\<in>A - {h}. g (B i))"
    by (simp add: sum.remove [OF assms])
  moreover have "(\<Sum>i\<in>A. g (B i)) = g (B h) + (\<Sum>i\<in>A - {h}. g (B i))"
    by (rule sum.remove [OF assms])
  ultimately show ?thesis by simp
qed

end
