(* ===== verification/Storage.thy ===== *)
theory Storage
  imports Prelude
begin

text \<open>
  The key-value store of \<open>pair_server/storage.c\<close>: a static table of 4096 cells, each the
  head of a doubly linked overflow chain of heap cells, addressed by a SHA-256 hash.

  The table and the heap are one map from cell addresses to cells, so that a pointer is
  dereferenced the same way wherever it points, and a freed cell is an address outside
  the map. A C string is the list of its characters without the terminating zero. The
  string behind a cell's \<open>value\<close> pointer is owned by that cell alone (it is allocated in
  \<open>insert_item\<close> and freed through the same field), so the model keeps it in the cell:
  \<open>None\<close> is the null pointer.

  The mbedtls calls and the allocator are parameters, collected in the record \<open>env\<close>.
  The \<open>printf\<close> calls under \<open>DEBUG\<close> and \<open>INFO_STORAGE\<close> are left out.
\<close>

section \<open>Data\<close>

datatype cell_ptr = Slot nat | Heap nat

record cell =
  init_cell :: u8
  user_id :: u32
  next_cell :: "cell_ptr option"
  prev_cell :: "cell_ptr option"
  cell_key :: string
  cell_value :: "string option"

record store =
  cells :: "cell_ptr \<rightharpoonup> cell"
  table_size :: u64

datatype errno = EINVAL | ENOMEM

record env =
  sha256_starts :: int
  sha256_update :: "string \<Rightarrow> int"
  sha256_finish :: "string \<Rightarrow> int \<times> u64"  \<comment> \<open>status, and the digest's first eight bytes\<close>
  stack_bytes :: u64                          \<comment> \<open>the digest buffer before it is written\<close>
  calloc_cell :: "store \<Rightarrow> nat option"        \<comment> \<open>a fresh heap cell, or null\<close>
  malloc_value :: "store \<Rightarrow> nat \<Rightarrow> bool"      \<comment> \<open>whether that many bytes are granted\<close>

definition TABLE_SIZE :: nat where
  "TABLE_SIZE = 4096"

definition KEY_BYTES :: nat where
  "KEY_BYTES = 64"

definition empty_cell :: cell where
  "empty_cell = \<lparr>init_cell = 0, user_id = 0, next_cell = None, prev_cell = None,
     cell_key = [], cell_value = None\<rparr>"

definition initial_store :: store where
  "initial_store =
     \<lparr>cells = (\<lambda>p. case p of Slot i \<Rightarrow> if i < TABLE_SIZE then Some empty_cell else None
                           | Heap a \<Rightarrow> None),
      table_size = 0\<rparr>"

section \<open>Operations\<close>

definition calculate_sha256 :: "env \<Rightarrow> string \<Rightarrow> int \<times> u64" where
  "calculate_sha256 e k =
     (let (err, digest) =
        (if sha256_starts e \<noteq> 0 then (sha256_starts e, stack_bytes e)
         else if sha256_update e k \<noteq> 0 then (sha256_update e k, stack_bytes e)
         else sha256_finish e k)
      in (err, digest mod of_nat TABLE_SIZE))"

definition load :: "store \<Rightarrow> cell_ptr \<Rightarrow> cell exec" where
  "load s p = (case cells s p of None \<Rightarrow> abort DanglingPointer | Some c \<Rightarrow> ok c)"

type_synonym ident = "string \<times> u32"  \<comment> \<open>a key and its user\<close>

definition matches :: "ident \<Rightarrow> cell \<Rightarrow> bool" where
  "matches i c \<longleftrightarrow> user_id c = snd i \<and> fst i = cell_key c"

text \<open>The \<open>for\<close> loop that \<open>get_item\<close> and \<open>delete_item\<close> share: the first matching cell.\<close>

partial_function (option) find_chain ::
  "store \<Rightarrow> ident \<Rightarrow> cell_ptr option \<Rightarrow> (fault + cell_ptr option) option" where
  "find_chain s i current =
     (case current of
        None \<Rightarrow> ok None
      | Some p \<Rightarrow>
          (case cells s p of
             None \<Rightarrow> abort DanglingPointer
           | Some c \<Rightarrow> if matches i c then ok (Some p)
                       else find_chain s i (next_cell c)))"

record get_result =
  get_ret :: int
  out_value :: "string option"     \<comment> \<open>what was copied to the caller's buffer\<close>
  write_bytes :: "nat option"      \<comment> \<open>what was stored through \<open>write_bytes\<close>\<close>
  get_errno :: "errno option"

definition get_item :: "env \<Rightarrow> store \<Rightarrow> string \<Rightarrow> u32 \<Rightarrow> nat \<Rightarrow> get_result exec" where
  "get_item e s k u out_len =
     (let (err, hash) = calculate_sha256 e k in
      if err \<noteq> 0
      then ok \<lparr>get_ret = err, out_value = None, write_bytes = None, get_errno = Some EINVAL\<rparr>
      else and_then (load s (Slot (unat hash))) (\<lambda>head.
        if init_cell head \<noteq> 0 \<and> matches (k, u) head
        then and_then (non_null (cell_value head)) (\<lambda>v.
          if length v < out_len
          then ok \<lparr>get_ret = 0, out_value = Some v, write_bytes = Some (length v + 1),
                   get_errno = None\<rparr>
          else ok \<lparr>get_ret = -1, out_value = None, write_bytes = Some (length v + 1),
                   get_errno = Some ENOMEM\<rparr>)
        else and_then (find_chain s (k, u) (next_cell head)) (\<lambda>found.
          case found of
            None \<Rightarrow> ok \<lparr>get_ret = -1, out_value = None, write_bytes = None,
                        get_errno = None\<rparr>
          | Some p \<Rightarrow>
              and_then (load s p) (\<lambda>current.
              and_then (non_null (cell_value current)) (\<lambda>v.
                if length v < out_len
                then and_then (non_null (cell_value head)) (\<lambda>hv.
                  ok \<lparr>get_ret = 0, out_value = Some v, write_bytes = Some (length hv + 1),
                      get_errno = None\<rparr>)
                else ok \<lparr>get_ret = -1, out_value = None, write_bytes = None,
                         get_errno = Some ENOMEM\<rparr>)))))"

text \<open>
  The \<open>while\<close> loop of \<open>insert_item\<close>: it stops at a match or at the last cell, whichever
  comes first.
\<close>

partial_function (option) insert_walk ::
  "store \<Rightarrow> ident \<Rightarrow> cell_ptr \<Rightarrow> (fault + cell_ptr) option" where
  "insert_walk s i current =
     (case cells s current of
        None \<Rightarrow> abort DanglingPointer
      | Some c \<Rightarrow>
          (case next_cell c of
             None \<Rightarrow> ok current
           | Some n \<Rightarrow> if matches i c then ok current else insert_walk s i n))"

text \<open>Overwriting a cell: the key is copied into 64 bytes, the new value is not checked.\<close>

definition write_cell ::
  "env \<Rightarrow> store \<Rightarrow> cell_ptr \<Rightarrow> string \<Rightarrow> string \<Rightarrow> u32 \<Rightarrow> store exec" where
  "write_cell e s p k v u =
     and_then (load s p) (\<lambda>c.
       if KEY_BYTES \<le> length k then abort BufferOverflow
       else if \<not> malloc_value e s (length v + 1) then abort NullDeref
       else ok (s\<lparr>cells := (cells s)(p \<mapsto>
              c\<lparr>init_cell := 1, user_id := u, cell_key := k, cell_value := Some v\<rparr>)\<rparr>))"

definition insert_item ::
  "env \<Rightarrow> store \<Rightarrow> string \<Rightarrow> string \<Rightarrow> u32 \<Rightarrow> (int \<times> errno option \<times> store) exec" where
  "insert_item e s k v u =
     (let (err, hash) = calculate_sha256 e k; slot = Slot (unat hash) in
      if err \<noteq> 0 then ok (err, Some EINVAL, s)
      else and_then (load s slot) (\<lambda>c.
        if init_cell c = 0
        then
          (if KEY_BYTES \<le> length k then abort BufferOverflow
           else
             let granted = malloc_value e s (length v + 1);
                 c' = c\<lparr>init_cell := 1, user_id := u, cell_key := k,
                        cell_value := (if granted then Some v else None)\<rparr>;
                 s' = s\<lparr>cells := (cells s)(slot \<mapsto> c'), table_size := table_size s + 1\<rparr>
             in if granted then ok (0, None, s') else ok (-1, Some ENOMEM, s'))
        else and_then (insert_walk s (k, u) slot) (\<lambda>p.
          and_then (load s p) (\<lambda>current.
            if next_cell current = None \<and> (user_id current \<noteq> u \<or> k \<noteq> cell_key current)
            then
              (case calloc_cell e s of
                 None \<Rightarrow> ok (-1, Some ENOMEM, s)
               | Some a \<Rightarrow>
                   let s' = s\<lparr>cells := (cells s)(p \<mapsto> current\<lparr>next_cell := Some (Heap a)\<rparr>,
                                Heap a \<mapsto> empty_cell\<lparr>prev_cell := Some p\<rparr>),
                              table_size := table_size s + 1\<rparr>
                   in and_then (write_cell e s' (Heap a) k v u) (\<lambda>s''. ok (0, None, s'')))
            else and_then (write_cell e s p k v u) (\<lambda>s'. ok (0, None, s'))))))"

definition delete_item ::
  "env \<Rightarrow> store \<Rightarrow> string \<Rightarrow> u32 \<Rightarrow> (int \<times> errno option \<times> store) exec" where
  "delete_item e s k u =
     (let (err, hash) = calculate_sha256 e k; slot = Slot (unat hash) in
      if err \<noteq> 0 then ok (err, Some EINVAL, s)
      else and_then (load s slot) (\<lambda>head.
        if init_cell head \<noteq> 0 \<and> matches (k, u) head
        then ok (0, None, s\<lparr>cells := (cells s)(slot \<mapsto> head\<lparr>init_cell := 0\<rparr>),
                            table_size := table_size s - 1\<rparr>)
        else and_then (find_chain s (k, u) (next_cell head)) (\<lambda>found.
          case found of
            None \<Rightarrow> ok (-1, None, s)
          | Some p \<Rightarrow>
              and_then (load s p) (\<lambda>current.
              let s1 = s\<lparr>cells := (cells s)(p := None)\<rparr> in
              and_then (non_null (prev_cell current)) (\<lambda>prev.
              and_then (load s1 prev) (\<lambda>pc.
              let s2 = s1\<lparr>cells := (cells s1)(prev \<mapsto> pc\<lparr>next_cell := next_cell current\<rparr>)\<rparr> in
              and_then
                (case next_cell current of
                   None \<Rightarrow> ok s2
                 | Some next \<Rightarrow>
                     and_then (load s2 next) (\<lambda>nc.
                       ok (s2\<lparr>cells := (cells s2)(next \<mapsto> nc\<lparr>prev_cell := Some prev\<rparr>)\<rparr>)))
                (\<lambda>s3. ok (0, None, s3\<lparr>table_size := table_size s3 - 1\<rparr>))))))))"

definition pop_item ::
  "env \<Rightarrow> store \<Rightarrow> string \<Rightarrow> u32 \<Rightarrow> nat \<Rightarrow> (int \<times> get_result \<times> store) exec" where
  "pop_item e s k u out_len =
     and_then (get_item e s k u out_len) (\<lambda>g.
       if get_ret g \<noteq> 0 then ok (-1, g, s)
       else and_then (delete_item e s k u) (\<lambda>(err, _, s'). ok (err, g, s')))"

definition get_size :: "store \<Rightarrow> u64" where
  "get_size s = table_size s"

end
