(* ===== verification/StorageChain.thy ===== *)
theory StorageChain
  imports Storage
begin

text \<open>
  The shape of the store of \<open>pair_server/storage.c\<close> in memory. A list segment \<open>seg\<close>
  relates a run of heap cells, linked forwards and backwards, to the entries it holds;
  a bucket is a table cell followed by such a segment; a store represents a table of
  buckets when every bucket is in place and no two share a heap cell. The section on
  the loops shows where \<open>find_chain\<close> and \<open>insert_walk\<close> stop on such a segment.
\<close>

section \<open>Chains of cells\<close>

type_synonym heap = "cell_ptr \<rightharpoonup> cell"
type_synonym entry = "ident \<times> string"

primrec seg ::
  "heap \<Rightarrow> cell_ptr option \<Rightarrow> cell_ptr \<Rightarrow> nat list \<Rightarrow> entry list \<Rightarrow> cell_ptr option \<Rightarrow> bool"
where
  "seg m n pr [] es n' \<longleftrightarrow> n = n' \<and> es = []"
| "seg m n pr (a # as) es n' \<longleftrightarrow> n = Some (Heap a) \<and>
     (\<exists>c v es'. m (Heap a) = Some c \<and> prev_cell c = Some pr \<and> cell_value c = Some v \<and>
        es = ((cell_key c, user_id c), v) # es' \<and> seg m (next_cell c) (Heap a) as es' n')"

text \<open>The cell that ends a segment which starts behind \<open>pr\<close>.\<close>

definition last_ptr :: "cell_ptr \<Rightarrow> nat list \<Rightarrow> cell_ptr" where
  "last_ptr pr as = (if as = [] then pr else Heap (last as))"

lemma last_ptr_simps [simp]:
  "last_ptr pr [] = pr"
  "last_ptr pr (a # as) = last_ptr (Heap a) as"
  by (simp_all add: last_ptr_def)

lemma last_ptr_in: "last_ptr pr as = pr \<or> last_ptr pr as \<in> Heap ` set as"
  by (simp add: last_ptr_def)

lemma seg_length: "seg m n pr as es n' \<Longrightarrow> length es = length as"
  by (induction as arbitrary: n pr es) auto

lemma seg_allocated: "seg m n pr as es n' \<Longrightarrow> a \<in> set as \<Longrightarrow> m (Heap a) \<noteq> None"
  by (induction as arbitrary: n pr es) auto

lemma seg_append:
  "seg m n pr (as @ bs) es n' \<longleftrightarrow>
     (\<exists>es1 es2 n1. es = es1 @ es2 \<and> seg m n pr as es1 n1 \<and>
        seg m n1 (last_ptr pr as) bs es2 n')"
proof (induction as arbitrary: n pr es)
  case Nil
  then show ?case by simp
next
  case (Cons a as)
  show ?case (is "?whole = ?parts")
  proof
    assume ?whole
    then obtain c v es' where c: "n = Some (Heap a)" "m (Heap a) = Some c"
      "prev_cell c = Some pr" "cell_value c = Some v"
      and es: "es = ((cell_key c, user_id c), v) # es'"
      and rest: "seg m (next_cell c) (Heap a) (as @ bs) es' n'"
      by auto
    from rest obtain es1 es2 n1 where "es' = es1 @ es2"
      "seg m (next_cell c) (Heap a) as es1 n1" "seg m n1 (last_ptr (Heap a) as) bs es2 n'"
      by (auto simp: Cons.IH)
    with c es have "es = (((cell_key c, user_id c), v) # es1) @ es2 \<and>
        seg m n pr (a # as) (((cell_key c, user_id c), v) # es1) n1 \<and>
        seg m n1 (last_ptr pr (a # as)) bs es2 n'"
      by simp
    then show ?parts by blast
  next
    assume ?parts
    then obtain c v es0 es2 n1 where c: "n = Some (Heap a)" "m (Heap a) = Some c"
      "prev_cell c = Some pr" "cell_value c = Some v"
      and es: "es = ((cell_key c, user_id c), v) # es0 @ es2"
      and rest: "seg m (next_cell c) (Heap a) as es0 n1" "seg m n1 (last_ptr (Heap a) as) bs es2 n'"
      by auto
    from rest have "seg m (next_cell c) (Heap a) (as @ bs) (es0 @ es2) n'"
      by (subst Cons.IH) blast
    with c es show ?whole by simp
  qed
qed

lemma seg_appendI:
  "seg m n pr as es1 n1 \<Longrightarrow> seg m n1 (last_ptr pr as) bs es2 n' \<Longrightarrow>
   seg m n pr (as @ bs) (es1 @ es2) n'"
  by (subst seg_append) blast

lemma seg_frame:
  "(\<And>a. a \<in> set as \<Longrightarrow> m' (Heap a) = m (Heap a)) \<Longrightarrow>
   seg m' n pr as es n' \<longleftrightarrow> seg m n pr as es n'"
  by (induction as arbitrary: n pr es) auto

text \<open>Redirecting the last forward link, and the first backward link.\<close>

lemma seg_set_next:
  assumes "seg m n pr as es n'" "distinct as" "as \<noteq> []" "m (Heap (last as)) = Some c"
  shows "seg (m(Heap (last as) \<mapsto> c\<lparr>next_cell := q\<rparr>)) n pr as es q"
  using assms
proof (induction as arbitrary: n pr es)
  case Nil
  then show ?case by simp
next
  case (Cons a as)
  then show ?case by (cases "as = []") auto
qed

lemma seg_set_prev:
  assumes "seg m n pr (a # as) es n'" "a \<notin> set as" "m (Heap a) = Some c"
  shows "seg (m(Heap a \<mapsto> c\<lparr>prev_cell := Some pr'\<rparr>)) n pr' (a # as) es n'"
proof -
  have "seg (m(Heap a \<mapsto> c\<lparr>prev_cell := Some pr'\<rparr>)) n0 pr0 as es0 n' =
        seg m n0 pr0 as es0 n'" for n0 pr0 es0
    by (rule seg_frame) (use assms(2) in auto)
  with assms show ?thesis by auto
qed

section \<open>The loops\<close>

lemma find_chain_none [simp]: "find_chain s i None = ok None"
  by (simp add: find_chain.simps)

lemma matches_entry:
  "matches i c \<longleftrightarrow> i = (cell_key c, user_id c)"
  by (cases i) (auto simp: matches_def)

lemma find_chain_absent:
  assumes "seg (cells s) n pr as es None" "i \<notin> fst ` set es"
  shows "find_chain s i n = ok None"
  using assms
proof (induction as arbitrary: n pr es)
  case Nil
  then show ?case by simp
next
  case (Cons a as)
  then show ?case by (subst find_chain.simps) (auto simp: matches_entry)
qed

lemma find_chain_skip:
  assumes "seg (cells s) n pr as es n'" "i \<notin> fst ` set es"
  shows "find_chain s i n = find_chain s i n'"
  using assms
proof (induction as arbitrary: n pr es)
  case Nil
  then show ?case by simp
next
  case (Cons a as)
  then show ?case by (subst find_chain.simps) (auto simp: matches_entry)
qed

lemma find_chain_hit:
  "cells s p = Some c \<Longrightarrow> matches i c \<Longrightarrow> find_chain s i (Some p) = ok (Some p)"
  by (simp add: find_chain.simps)

lemma insert_walk_hit:
  "cells s p = Some c \<Longrightarrow> matches i c \<Longrightarrow> insert_walk s i p = ok p"
  by (subst insert_walk.simps) (auto split: option.splits)

lemma insert_walk_skip:
  assumes "cells s p = Some c" "\<not> matches i c" "seg (cells s) (next_cell c) p as es (Some q)"
    "i \<notin> fst ` set es"
  shows "insert_walk s i p = insert_walk s i q"
  using assms
proof (induction as arbitrary: p c es)
  case Nil
  then show ?case by (subst insert_walk.simps) simp
next
  case (Cons a as)
  then obtain c' v es' where "cells s (Heap a) = Some c'" "next_cell c = Some (Heap a)"
    "es = ((cell_key c', user_id c'), v) # es'"
    "seg (cells s) (next_cell c') (Heap a) as es' (Some q)"
    by auto
  with Cons show ?case by (subst insert_walk.simps) (auto simp: matches_entry)
qed

lemma insert_walk_absent:
  assumes "cells s p = Some c" "\<not> matches i c" "seg (cells s) (next_cell c) p as es None"
    "i \<notin> fst ` set es"
  shows "insert_walk s i p = ok (last_ptr p as)"
  using assms
proof (induction as arbitrary: p c es)
  case Nil
  then show ?case by (subst insert_walk.simps) simp
next
  case (Cons a as)
  then obtain c' v es' where "cells s (Heap a) = Some c'" "next_cell c = Some (Heap a)"
    "es = ((cell_key c', user_id c'), v) # es'"
    "seg (cells s) (next_cell c') (Heap a) as es' None"
    by auto
  with Cons show ?case by (subst insert_walk.simps) (auto simp: matches_entry)
qed

section \<open>Buckets\<close>

text \<open>
  What a table cell and its chain hold. The head's identity is \<open>None\<close> while its
  \<open>init_cell\<close> is zero; its value string stays in memory after a deletion.
\<close>

record bucket =
  b_head :: "ident option"
  b_value :: "string option"
  b_chain :: "entry list"

definition empty_bucket :: bucket where
  "empty_bucket = \<lparr>b_head = None, b_value = None, b_chain = []\<rparr>"

definition head_ident :: "cell \<Rightarrow> ident option" where
  "head_ident c = (if init_cell c \<noteq> 0 then Some (cell_key c, user_id c) else None)"

definition bucket_at :: "heap \<Rightarrow> nat \<Rightarrow> nat list \<Rightarrow> bucket \<Rightarrow> bool" where
  "bucket_at m i as b \<longleftrightarrow> distinct as \<and>
     (\<exists>c. m (Slot i) = Some c \<and> b_head b = head_ident c \<and> b_value b = cell_value c \<and>
        seg m (next_cell c) (Slot i) as (b_chain b) None)"

definition represents :: "store \<Rightarrow> (nat \<Rightarrow> nat list) \<Rightarrow> (nat \<Rightarrow> bucket) \<Rightarrow> bool" where
  "represents s f B \<longleftrightarrow>
     (\<forall>i < TABLE_SIZE. bucket_at (cells s) i (f i) (B i)) \<and>
     (\<forall>i < TABLE_SIZE. \<forall>j < TABLE_SIZE. i \<noteq> j \<longrightarrow> set (f i) \<inter> set (f j) = {})"

lemma representsD:
  "represents s f B \<Longrightarrow> i < TABLE_SIZE \<Longrightarrow> bucket_at (cells s) i (f i) (B i)"
  by (simp add: represents_def)

lemma bucket_atE:
  assumes "bucket_at m i as b"
  obtains c where "distinct as" "m (Slot i) = Some c" "b_head b = head_ident c"
    "b_value b = cell_value c" "seg m (next_cell c) (Slot i) as (b_chain b) None"
  using assms by (auto simp: bucket_at_def)

lemma bucket_at_frame:
  assumes "bucket_at m i as b" "m' (Slot i) = m (Slot i)"
    "\<And>a. a \<in> set as \<Longrightarrow> m' (Heap a) = m (Heap a)"
  shows "bucket_at m' i as b"
  using assms by (auto simp: bucket_at_def seg_frame [where m' = m' and m = m])

text \<open>
  One bucket changed, within its own cells and cells that were free: the others are
  untouched.
\<close>

lemma represents_update:
  assumes rep: "represents s f B" and h: "h < TABLE_SIZE"
    and new: "bucket_at (cells s') h as' b'"
    and slots: "\<And>i. i \<noteq> h \<Longrightarrow> cells s' (Slot i) = cells s (Slot i)"
    and heap: "\<And>a. a \<notin> set (f h) \<Longrightarrow> cells s (Heap a) \<noteq> None \<Longrightarrow>
                    cells s' (Heap a) = cells s (Heap a)"
    and grow: "\<And>a. a \<in> set as' \<Longrightarrow> a \<in> set (f h) \<or> cells s (Heap a) = None"
  shows "represents s' (f(h := as')) (B(h := b'))"
proof -
  have alloc: "cells s (Heap a) \<noteq> None" if "i < TABLE_SIZE" "a \<in> set (f i)" for i a
    using representsD [OF rep that(1)] that(2) by (auto elim!: bucket_atE dest: seg_allocated)
  have disj: "set (f i) \<inter> set (f h) = {}" if "i < TABLE_SIZE" "i \<noteq> h" for i
    using rep that h by (auto simp: represents_def)
  have other: "bucket_at (cells s') i (f i) (B i)" if "i < TABLE_SIZE" "i \<noteq> h" for i
    using representsD [OF rep that(1)]
  proof (rule bucket_at_frame)
    show "cells s' (Slot i) = cells s (Slot i)" by (rule slots) fact
    show "cells s' (Heap a) = cells s (Heap a)" if "a \<in> set (f i)" for a
      using heap [of a] alloc disj that \<open>i < TABLE_SIZE\<close> \<open>i \<noteq> h\<close> by auto
  qed
  have sep: "set (f i) \<inter> set as' = {}" if "i < TABLE_SIZE" "i \<noteq> h" for i
    using grow alloc [OF that(1)] disj [OF that] by fastforce
  show ?thesis
    using rep h new other sep by (auto simp: represents_def)
qed

lemma represents_initial: "represents initial_store (\<lambda>_. []) (\<lambda>_. empty_bucket)"
  by (simp add: represents_def bucket_at_def initial_store_def head_ident_def
      empty_cell_def empty_bucket_def)

end
