(* ===== verification/StorageSpec.thy ===== *)
theory StorageSpec
  imports StorageChain "HOL-Library.AList"
begin

text \<open>
  The abstract specification of \<open>pair_server/storage.c\<close>: what each operation does to a
  bucket, seen as a head entry and a list of entries, and the lemmas that the pointer
  code does exactly that.
\<close>

section \<open>Abstract operations on a bucket\<close>

definition find_b :: "ident \<Rightarrow> bucket \<Rightarrow> string option" where
  "find_b i b = (if b_head b = Some i then b_value b else map_of (b_chain b) i)"

definition get_b :: "ident \<Rightarrow> nat \<Rightarrow> bucket \<Rightarrow> get_result exec" where
  "get_b i n b =
     (if b_head b = Some i
      then and_then (non_null (b_value b)) (\<lambda>v.
        ok (if length v < n then \<lparr>get_ret = 0, out_value = Some v,
              write_bytes = Some (length v + 1), get_errno = None\<rparr>
            else \<lparr>get_ret = -1, out_value = None,
              write_bytes = Some (length v + 1), get_errno = Some ENOMEM\<rparr>))
      else (case map_of (b_chain b) i of
          None \<Rightarrow> ok \<lparr>get_ret = -1, out_value = None, write_bytes = None, get_errno = None\<rparr>
        | Some v \<Rightarrow>
            if length v < n
            then and_then (non_null (b_value b)) (\<lambda>hv.
              ok \<lparr>get_ret = 0, out_value = Some v, write_bytes = Some (length hv + 1),
                  get_errno = None\<rparr>)
            else ok \<lparr>get_ret = -1, out_value = None, write_bytes = None,
                     get_errno = Some ENOMEM\<rparr>))"

definition insert_b :: "ident \<Rightarrow> string \<Rightarrow> bucket \<Rightarrow> bucket" where
  "insert_b i v b =
     (if b_head b = None \<or> b_head b = Some i
      then b\<lparr>b_head := Some i, b_value := Some v\<rparr>
      else b\<lparr>b_chain := AList.update i v (b_chain b)\<rparr>)"

fun remove_first :: "ident \<Rightarrow> entry list \<Rightarrow> entry list" where
  "remove_first i [] = []"
| "remove_first i (e # es) = (if fst e = i then es else e # remove_first i es)"

definition delete_b :: "ident \<Rightarrow> bucket \<Rightarrow> bucket" where
  "delete_b i b =
     (if b_head b = Some i then b\<lparr>b_head := None\<rparr>
      else b\<lparr>b_chain := remove_first i (b_chain b)\<rparr>)"

definition bucket_size :: "bucket \<Rightarrow> nat" where
  "bucket_size b = (if b_head b = None then 0 else 1) + length (b_chain b)"

definition live_cells :: "(nat \<Rightarrow> bucket) \<Rightarrow> nat" where
  "live_cells B = (\<Sum>i < TABLE_SIZE. bucket_size (B i))"

definition counted :: "store \<Rightarrow> (nat \<Rightarrow> bucket) \<Rightarrow> bool" where
  "counted s B \<longleftrightarrow> table_size s = of_nat (live_cells B)"

lemma live_cells_upd:
  "h < TABLE_SIZE \<Longrightarrow>
   live_cells (B(h := b)) + bucket_size (B h) = live_cells B + bucket_size b"
  unfolding live_cells_def by (rule sum_fun_upd) auto

lemma update_append:
  "i \<notin> fst ` set es1 \<Longrightarrow>
   AList.update i v (es1 @ (i, w) # es2) = es1 @ (i, v) # es2"
  by (induction es1) auto

lemma update_absent: "i \<notin> fst ` set es \<Longrightarrow> AList.update i v es = es @ [(i, v)]"
  by (induction es) auto

lemma length_update_present:
  "i \<in> fst ` set es \<Longrightarrow> length (AList.update i v es) = length es"
  by (induction es) auto

lemma remove_first_append:
  "i \<notin> fst ` set es1 \<Longrightarrow> remove_first i (es1 @ (i, w) # es2) = es1 @ es2"
  by (induction es1) auto

lemma remove_first_absent: "i \<notin> fst ` set es \<Longrightarrow> remove_first i es = es"
  by (induction es) auto

lemma map_of_remove_first_other: "j \<noteq> i \<Longrightarrow> map_of (remove_first i es) j = map_of es j"
  by (induction es) auto

lemma map_of_skip: "i \<notin> fst ` set es1 \<Longrightarrow> map_of (es1 @ (i, w) # es2) i = Some w"
  by (induction es1) auto

section \<open>The hash\<close>

definition hash_ok :: "env \<Rightarrow> string \<Rightarrow> bool" where
  "hash_ok e k \<longleftrightarrow> fst (calculate_sha256 e k) = 0"

definition slot_of :: "env \<Rightarrow> string \<Rightarrow> nat" where
  "slot_of e k = unat (snd (calculate_sha256 e k))"

lemma slot_of_bound [simp]: "slot_of e k < TABLE_SIZE"
proof -
  have "unat (x mod 4096 :: u64) < 4096" for x
    by (simp add: unat_mod)
  then show ?thesis
    by (auto simp: slot_of_def calculate_sha256_def TABLE_SIZE_def split: prod.splits)
qed

lemma sha_cases:
  "hash_ok e k \<Longrightarrow> \<exists>h. calculate_sha256 e k = (0, h) \<and> slot_of e k = unat h"
  by (cases "calculate_sha256 e k") (simp add: hash_ok_def slot_of_def)

text \<open>
  The allocator never hands out a cell that is in use; requests for value strings may
  always be granted. A null result of \<open>calloc\<close> needs no hypothesis: the code handles it.
\<close>

definition fresh_alloc :: "env \<Rightarrow> bool" where
  "fresh_alloc e \<longleftrightarrow> (\<forall>s a. calloc_cell e s = Some a \<longrightarrow> cells s (Heap a) = None)"

definition values_granted :: "env \<Rightarrow> bool" where
  "values_granted e \<longleftrightarrow> (\<forall>s n. malloc_value e s n)"

section \<open>Segments under the updates the code makes\<close>

lemma seg_slot_upd [simp]: "seg (m(Slot h := x)) n pr as es n' = seg m n pr as es n'"
  by (rule seg_frame) simp

lemma seg_heap_upd [simp]:
  "a \<notin> set as \<Longrightarrow> seg (m(Heap a := x)) n pr as es n' = seg m n pr as es n'"
  by (rule seg_frame) auto

text \<open>The first entry with a given identity, and the cell that holds it.\<close>

lemma seg_find:
  assumes "seg m n pr as es n'" "i \<in> fst ` set es"
  obtains as1 a as2 es1 v es2 c where "as = as1 @ a # as2" "es = es1 @ (i, v) # es2"
    "i \<notin> fst ` set es1" "seg m n pr as1 es1 (Some (Heap a))" "m (Heap a) = Some c"
    "matches i c" "cell_value c = Some v" "prev_cell c = Some (last_ptr pr as1)"
    "seg m (next_cell c) (Heap a) as2 es2 n'"
proof -
  from assms(2) have "\<exists>x \<in> set es. fst x = i" by auto
  from split_list_first_prop [OF this] obtain x es1 es2 where
    es: "es = es1 @ x # es2" "fst x = i" and first: "\<forall>y \<in> set es1. fst y \<noteq> i"
    by blast
  have "length as = length (es1 @ x # es2)"
    using seg_length [OF assms(1)] es by simp
  then obtain as1 a as2 where as: "as = as1 @ a # as2" "length as1 = length es1"
    by (rule split_same_length)
  from assms(1) as(1) obtain es1' es2' n1 where p: "es = es1' @ es2'" "seg m n pr as1 es1' n1"
    "seg m n1 (last_ptr pr as1) (a # as2) es2' n'"
    by (auto simp: seg_append)
  have "es1' = es1" "es2' = x # es2"
    using p(1) es(1) as(2) seg_length [OF p(2)] by auto
  with p as es first show thesis
    by (intro that [of as1 a as2 es1 "snd x" es2 "the (m (Heap a))"])
       (auto simp: matches_entry)
qed

lemma seg_set_value:
  assumes "seg m n pr (as1 @ a # as2) (es1 @ (i, w) # es2) n'" "length as1 = length es1"
    and "distinct (as1 @ a # as2)" "m (Heap a) = Some c"
    and "next_cell c' = next_cell c" "prev_cell c' = prev_cell c"
      "(cell_key c', user_id c') = i" "cell_value c' = Some v"
  shows "seg (m(Heap a \<mapsto> c')) n pr (as1 @ a # as2) (es1 @ (i, v) # es2) n'"
proof -
  from assms(1) obtain es1' es2' n1 where p: "es1 @ (i, w) # es2 = es1' @ es2'"
    "seg m n pr as1 es1' n1" "seg m n1 (last_ptr pr as1) (a # as2) es2' n'"
    by (auto simp: seg_append)
  have "es1' = es1" "es2' = (i, w) # es2"
    using p(1) assms(2) seg_length [OF p(2)] by auto
  with p assms(3-) show ?thesis
    by (subst seg_append) (rule exI [of _ es1], rule exI [of _ "(i, v) # es2"], auto)
qed

text \<open>A new last cell behind the segment.\<close>

lemma seg_snoc:
  assumes "seg m n pr as es (Some (Heap a))" "m (Heap a) = Some c" "next_cell c = None"
    "prev_cell c = Some (last_ptr pr as)" "(cell_key c, user_id c) = i" "cell_value c = Some v"
  shows "seg m n pr (as @ [a]) (es @ [(i, v)]) None"
  by (subst seg_append) (use assms in auto)

end
