(* ===== verification/StorageRefine.thy ===== *)
theory StorageRefine
  imports StorageSpec
begin

text \<open>
  Refinement: on a store that represents a table of buckets, each operation of
  \<open>pair_server/storage.c\<close> returns, and leaves a store that represents the table the
  abstract operation gives.
\<close>

section \<open>get_item\<close>

lemma get_item_on_bucket:
  assumes "represents s f B" "hash_ok e k"
  shows "get_item e s k u n = get_b (k, u) n (B (slot_of e k))"
proof -
  from assms(2) obtain h where sha: "calculate_sha256 e k = (0, h)" "slot_of e k = unat h"
    using sha_cases by blast
  from representsD [OF assms(1), of "unat h"] obtain c where
    c: "cells s (Slot (unat h)) = Some c" "b_head (B (unat h)) = head_ident c"
      "b_value (B (unat h)) = cell_value c"
      "seg (cells s) (next_cell c) (Slot (unat h)) (f (unat h)) (b_chain (B (unat h))) None"
    using slot_of_bound [of e k] by (auto simp: sha elim: bucket_atE)
  have head: "b_head (B (unat h)) = Some (k, u) \<longleftrightarrow> init_cell c \<noteq> 0 \<and> matches (k, u) c"
    by (auto simp: c head_ident_def matches_def)
  show ?thesis
  proof (cases "init_cell c \<noteq> 0 \<and> matches (k, u) c")
    case True
    then show ?thesis
      using head c by (simp add: get_item_def get_b_def sha load_def) (cases "cell_value c", auto)
  next
    case miss: False
    show ?thesis
    proof (cases "(k, u) \<in> fst ` set (b_chain (B (unat h)))")
      case False
      then have "find_chain s (k, u) (next_cell c) = ok None"
        by (rule find_chain_absent [OF c(4)])
      moreover from False have "map_of (b_chain (B (unat h))) (k, u) = None"
        by (simp add: map_of_eq_None_iff)
      ultimately show ?thesis
        using miss head c by (auto simp: get_item_def get_b_def sha load_def)
    next
      case True
      from seg_find [OF c(4) this] obtain as1 a as2 es1 v es2 d where
        d: "b_chain (B (unat h)) = es1 @ ((k, u), v) # es2" "(k, u) \<notin> fst ` set es1"
          "seg (cells s) (next_cell c) (Slot (unat h)) as1 es1 (Some (Heap a))"
          "cells s (Heap a) = Some d" "matches (k, u) d" "cell_value d = Some v"
        by metis
      have "find_chain s (k, u) (next_cell c) = ok (Some (Heap a))"
        using find_chain_skip [OF d(3,2)] find_chain_hit [OF d(4,5)] by simp
      moreover have "map_of (b_chain (B (unat h))) (k, u) = Some v"
        unfolding d(1) by (rule map_of_skip) (rule d(2))
      ultimately show ?thesis
        using miss head c d(4,6) by (auto simp: get_item_def get_b_def sha load_def)
    qed
  qed
qed

section \<open>insert_item\<close>

text \<open>The bucket a key hashes to, opened at its table cell.\<close>

lemma key_bucket:
  assumes "represents s f B"
  obtains c where "distinct (f (slot_of e k))" "cells s (Slot (slot_of e k)) = Some c"
    "b_head (B (slot_of e k)) = head_ident c" "b_value (B (slot_of e k)) = cell_value c"
    "seg (cells s) (next_cell c) (Slot (slot_of e k)) (f (slot_of e k))
       (b_chain (B (slot_of e k))) None"
  by (rule bucket_atE [OF representsD [OF assms slot_of_bound [of e k]]])

lemma head_ident_simps:
  "head_ident c = None \<longleftrightarrow> init_cell c = 0"
  "head_ident c = Some i \<longleftrightarrow> init_cell c \<noteq> 0 \<and> matches i c"
  by (auto simp: head_ident_def matches_entry)

definition filled :: "cell \<Rightarrow> string \<Rightarrow> u32 \<Rightarrow> string \<Rightarrow> cell" where
  "filled c k u v = c\<lparr>init_cell := 1, user_id := u, cell_key := k, cell_value := Some v\<rparr>"

lemma filled_simps [simp]:
  "next_cell (filled c k u v) = next_cell c" "prev_cell (filled c k u v) = prev_cell c"
  "cell_key (filled c k u v) = k" "user_id (filled c k u v) = u"
  "cell_value (filled c k u v) = Some v" "head_ident (filled c k u v) = Some (k, u)"
  by (simp_all add: filled_def head_ident_def)

lemma write_cell_ok:
  "values_granted e \<Longrightarrow> length k < KEY_BYTES \<Longrightarrow> cells s p = Some c \<Longrightarrow>
   write_cell e s p k v u = ok (s\<lparr>cells := (cells s)(p \<mapsto> filled c k u v)\<rparr>)"
  by (simp add: write_cell_def load_def values_granted_def filled_def)

lemma insert_run_dead:
  assumes "hash_ok e k" "values_granted e" "length k < KEY_BYTES"
    "cells s (Slot (slot_of e k)) = Some c" "init_cell c = 0"
  shows "insert_item e s k v u = ok (0, None,
    s\<lparr>cells := (cells s)(Slot (slot_of e k) \<mapsto> filled c k u v), table_size := table_size s + 1\<rparr>)"
  using assms sha_cases [OF assms(1)]
  by (auto simp: insert_item_def load_def values_granted_def filled_def)

lemma insert_run_overwrite:
  assumes "hash_ok e k" "values_granted e" "length k < KEY_BYTES"
    "cells s (Slot (slot_of e k)) = Some c" "init_cell c \<noteq> 0"
    "insert_walk s (k, u) (Slot (slot_of e k)) = ok p" "cells s p = Some d" "matches (k, u) d"
  shows "insert_item e s k v u = ok (0, None, s\<lparr>cells := (cells s)(p \<mapsto> filled d k u v)\<rparr>)"
proof -
  have "\<not> (user_id d \<noteq> u \<or> k \<noteq> cell_key d)"
    using assms(8) by (simp add: matches_def)
  then show ?thesis
    using assms(1,4-7) sha_cases [OF assms(1)] write_cell_ok [OF assms(2,3,7)]
    by (auto simp: insert_item_def load_def)
qed

lemma insert_run_append:
  assumes "hash_ok e k" "values_granted e" "length k < KEY_BYTES"
    "cells s (Slot (slot_of e k)) = Some c" "init_cell c \<noteq> 0"
    "insert_walk s (k, u) (Slot (slot_of e k)) = ok p" "cells s p = Some d"
    "next_cell d = None" "\<not> matches (k, u) d" "calloc_cell e s = Some a"
  shows "insert_item e s k v u = ok (0, None,
    s\<lparr>cells := (cells s)(p \<mapsto> d\<lparr>next_cell := Some (Heap a)\<rparr>,
         Heap a \<mapsto> filled (empty_cell\<lparr>prev_cell := Some p\<rparr>) k u v),
       table_size := table_size s + 1\<rparr>)"
proof -
  have "user_id d \<noteq> u \<or> k \<noteq> cell_key d"
    using assms(9) by (auto simp: matches_def)
  then show ?thesis
    using assms(1,4-8,10) sha_cases [OF assms(1)] write_cell_ok [OF assms(2,3)]
    by (auto simp: insert_item_def load_def Let_def)
qed

text \<open>No memory for a new cell: the store is left as it was.\<close>

lemma insert_run_full:
  assumes "hash_ok e k" "cells s (Slot (slot_of e k)) = Some c" "init_cell c \<noteq> 0"
    "insert_walk s (k, u) (Slot (slot_of e k)) = ok p" "cells s p = Some d"
    "next_cell d = None" "\<not> matches (k, u) d" "calloc_cell e s = None"
  shows "insert_item e s k v u = ok (-1, Some ENOMEM, s)"
proof -
  have "user_id d \<noteq> u \<or> k \<noteq> cell_key d"
    using assms(7) by (auto simp: matches_def)
  then show ?thesis
    using assms sha_cases [OF assms(1)] by (auto simp: insert_item_def load_def)
qed

text \<open>A dead head: the pair goes into the table cell, whatever the chain holds.\<close>

lemma insert_dead_head:
  assumes rep: "represents s f B" and sha: "hash_ok e k" and mem: "values_granted e"
    and key: "length k < KEY_BYTES" and dead: "b_head (B (slot_of e k)) = None"
  shows "\<exists>s'. insert_item e s k v u = ok (0, None, s') \<and> table_size s' = table_size s + 1 \<and>
     represents s' f (B(slot_of e k := insert_b (k, u) v (B (slot_of e k))))"
proof -
  let ?h = "slot_of e k"
  from rep obtain c where c: "distinct (f ?h)"
    "cells s (Slot ?h) = Some c" "b_head (B ?h) = head_ident c" "b_value (B ?h) = cell_value c"
    "seg (cells s) (next_cell c) (Slot ?h) (f ?h) (b_chain (B ?h)) None"
    by (rule key_bucket)
  have init: "init_cell c = 0"
    using dead c(3) by (simp add: head_ident_simps)
  define s' where "s' = s\<lparr>cells := (cells s)(Slot ?h \<mapsto> filled c k u v),
    table_size := table_size s + 1\<rparr>"
  have "bucket_at (cells s') ?h (f ?h) (insert_b (k, u) v (B ?h))"
    using c dead by (simp add: bucket_at_def s'_def insert_b_def)
  then have "represents s' (f(?h := f ?h)) (B(?h := insert_b (k, u) v (B ?h)))"
    by (rule represents_update [OF rep slot_of_bound]) (auto simp: s'_def)
  with insert_run_dead [OF sha mem key c(2) init] show ?thesis by (auto simp: s'_def)
qed

text \<open>A live head: the first matching cell is overwritten.\<close>

lemma insert_overwrite_head:
  assumes rep: "represents s f B" and sha: "hash_ok e k" and mem: "values_granted e"
    and key: "length k < KEY_BYTES" and hit: "b_head (B (slot_of e k)) = Some (k, u)"
  shows "\<exists>s'. insert_item e s k v u = ok (0, None, s') \<and> table_size s' = table_size s \<and>
     represents s' f (B(slot_of e k := insert_b (k, u) v (B (slot_of e k))))"
proof -
  let ?h = "slot_of e k"
  from rep obtain c where c: "distinct (f ?h)"
    "cells s (Slot ?h) = Some c" "b_head (B ?h) = head_ident c" "b_value (B ?h) = cell_value c"
    "seg (cells s) (next_cell c) (Slot ?h) (f ?h) (b_chain (B ?h)) None"
    by (rule key_bucket)
  have init: "init_cell c \<noteq> 0" and m: "matches (k, u) c"
    using hit c(3) by (simp_all add: head_ident_simps)
  define s' where "s' = s\<lparr>cells := (cells s)(Slot ?h \<mapsto> filled c k u v)\<rparr>"
  have "bucket_at (cells s') ?h (f ?h) (insert_b (k, u) v (B ?h))"
    using c hit by (simp add: bucket_at_def s'_def insert_b_def)
  then have "represents s' (f(?h := f ?h)) (B(?h := insert_b (k, u) v (B ?h)))"
    by (rule represents_update [OF rep slot_of_bound]) (auto simp: s'_def)
  with insert_run_overwrite [OF sha mem key c(2) init insert_walk_hit [OF c(2) m] c(2) m]
  show ?thesis by (auto simp: s'_def)
qed

lemma insert_overwrite_chain:
  assumes rep: "represents s f B" and sha: "hash_ok e k" and mem: "values_granted e"
    and key: "length k < KEY_BYTES"
    and live: "b_head (B (slot_of e k)) = Some i" "i \<noteq> (k, u)"
    and hit: "(k, u) \<in> fst ` set (b_chain (B (slot_of e k)))"
  shows "\<exists>s'. insert_item e s k v u = ok (0, None, s') \<and> table_size s' = table_size s \<and>
     represents s' f (B(slot_of e k := insert_b (k, u) v (B (slot_of e k))))"
proof -
  let ?h = "slot_of e k"
  from rep obtain c where c: "distinct (f ?h)"
    "cells s (Slot ?h) = Some c" "b_head (B ?h) = head_ident c" "b_value (B ?h) = cell_value c"
    "seg (cells s) (next_cell c) (Slot ?h) (f ?h) (b_chain (B ?h)) None"
    by (rule key_bucket)
  have init: "init_cell c \<noteq> 0" and miss: "\<not> matches (k, u) c"
    using live c(3) by (auto simp: head_ident_simps matches_entry head_ident_def split: if_splits)
  from seg_find [OF c(5) hit] obtain as1 a as2 es1 v0 es2 d where
    d: "f ?h = as1 @ a # as2" "b_chain (B ?h) = es1 @ ((k, u), v0) # es2"
      "(k, u) \<notin> fst ` set es1"
      "seg (cells s) (next_cell c) (Slot ?h) as1 es1 (Some (Heap a))"
      "cells s (Heap a) = Some d" "matches (k, u) d"
    by metis
  define s' where "s' = s\<lparr>cells := (cells s)(Heap a \<mapsto> filled d k u v)\<rparr>"
  have walk: "insert_walk s (k, u) (Slot ?h) = ok (Heap a)"
    using insert_walk_skip [OF c(2) miss d(4,3)] insert_walk_hit [OF d(5,6)] by simp
  have "seg (cells s') (next_cell c) (Slot ?h) (as1 @ a # as2) (es1 @ ((k, u), v) # es2) None"
    unfolding s'_def using c(5) c(1) d(1,2,5) seg_length [OF d(4)]
    by simp (rule seg_set_value [where w = v0 and c = d], auto)
  moreover have "insert_b (k, u) v (B ?h) = (B ?h)\<lparr>b_chain := es1 @ ((k, u), v) # es2\<rparr>"
    using live d(2,3) by (simp add: insert_b_def update_append)
  ultimately have "bucket_at (cells s') ?h (f ?h) (insert_b (k, u) v (B ?h))"
    using c(1-4) d(1) by (simp add: bucket_at_def s'_def)
  then have "represents s' (f(?h := f ?h)) (B(?h := insert_b (k, u) v (B ?h)))"
    by (rule represents_update [OF rep slot_of_bound]) (use d(1) in \<open>auto simp: s'_def\<close>)
  with insert_run_overwrite [OF sha mem key c(2) init walk d(5,6)]
  show ?thesis by (auto simp: s'_def)
qed

text \<open>A live head and no match: a new cell behind the last one.\<close>

lemma seg_last:
  assumes "seg m n pr as es n'" "as \<noteq> []"
  shows "\<exists>d. m (last_ptr pr as) = Some d \<and> next_cell d = n' \<and>
     (cell_key d, user_id d) \<in> fst ` set es"
  using assms
proof (induction as arbitrary: n pr es)
  case Nil
  then show ?case by simp
next
  case (Cons a as)
  then show ?case by (cases "as = []") fastforce+
qed

lemma seg_extend:
  assumes c: "m (Slot i) = Some c" "seg m (next_cell c) (Slot i) as es None" "distinct as"
    and a: "m (Heap a) = None"
    and d: "m (last_ptr (Slot i) as) = Some d"
    and x: "next_cell x = None" "prev_cell x = Some (last_ptr (Slot i) as)"
      "(cell_key x, user_id x) = j" "cell_value x = Some v"
  shows "\<exists>c'. (m(last_ptr (Slot i) as \<mapsto> d\<lparr>next_cell := Some (Heap a)\<rparr>, Heap a \<mapsto> x)) (Slot i)
       = Some c' \<and> head_ident c' = head_ident c \<and> cell_value c' = cell_value c \<and>
     seg (m(last_ptr (Slot i) as \<mapsto> d\<lparr>next_cell := Some (Heap a)\<rparr>, Heap a \<mapsto> x))
       (next_cell c') (Slot i) (as @ [a]) (es @ [(j, v)]) None"
proof (cases "as = []")
  case True
  with assms show ?thesis by (auto simp: head_ident_def)
next
  case False
  let ?m' = "m(last_ptr (Slot i) as \<mapsto> d\<lparr>next_cell := Some (Heap a)\<rparr>, Heap a \<mapsto> x)"
  have last: "last_ptr (Slot i) as = Heap (last as)"
    using False by (simp add: last_ptr_def)
  have new: "a \<notin> set as"
    using seg_allocated [OF c(2)] a by fastforce
  have "seg (m(Heap (last as) \<mapsto> d\<lparr>next_cell := Some (Heap a)\<rparr>)) (next_cell c) (Slot i) as es
      (Some (Heap a))"
    by (rule seg_set_next [OF c(2,3) False]) (use d last in simp)
  then have "seg ?m' (next_cell c) (Slot i) as es (Some (Heap a))"
    using new by (simp add: last)
  then have "seg ?m' (next_cell c) (Slot i) (as @ [a]) (es @ [(j, v)]) None"
    by (rule seg_snoc [where c = x]) (use x in auto)
  with c(1) show ?thesis by (auto simp: last)
qed

lemma walk_to_end:
  assumes rep: "represents s f B" and live: "b_head (B (slot_of e k)) = Some i" "i \<noteq> (k, u)"
    and absent: "(k, u) \<notin> fst ` set (b_chain (B (slot_of e k)))"
  obtains c d where "cells s (Slot (slot_of e k)) = Some c" "init_cell c \<noteq> 0"
    "insert_walk s (k, u) (Slot (slot_of e k))
       = ok (last_ptr (Slot (slot_of e k)) (f (slot_of e k)))"
    "cells s (last_ptr (Slot (slot_of e k)) (f (slot_of e k))) = Some d"
    "next_cell d = None" "\<not> matches (k, u) d"
proof -
  let ?h = "slot_of e k"
  let ?p = "last_ptr (Slot ?h) (f ?h)"
  from rep obtain c where c: "cells s (Slot ?h) = Some c" "b_head (B ?h) = head_ident c"
    "seg (cells s) (next_cell c) (Slot ?h) (f ?h) (b_chain (B ?h)) None"
    by (rule key_bucket)
  have init: "init_cell c \<noteq> 0" and miss: "\<not> matches (k, u) c"
    using live c(2) by (auto simp: head_ident_simps matches_entry head_ident_def split: if_splits)
  obtain d where d: "cells s ?p = Some d" "next_cell d = None" "\<not> matches (k, u) d"
  proof (cases "f ?h = []")
    case True
    with c(1,3) miss show thesis by (intro that) auto
  next
    case False
    from seg_last [OF c(3) this] absent show thesis by (metis matches_entry that)
  qed
  from that [OF c(1) init insert_walk_absent [OF c(1) miss c(3) absent] d] show thesis .
qed

lemma insert_append:
  assumes rep: "represents s f B" and sha: "hash_ok e k" and mem: "values_granted e"
    and fresh: "fresh_alloc e" and key: "length k < KEY_BYTES"
    and live: "b_head (B (slot_of e k)) = Some i" "i \<noteq> (k, u)"
    and absent: "(k, u) \<notin> fst ` set (b_chain (B (slot_of e k)))"
    and a: "calloc_cell e s = Some a"
  shows "\<exists>s' as. insert_item e s k v u = ok (0, None, s') \<and> table_size s' = table_size s + 1 \<and>
     represents s' (f(slot_of e k := as)) (B(slot_of e k := insert_b (k, u) v (B (slot_of e k))))"
proof -
  let ?h = "slot_of e k"
  let ?p = "last_ptr (Slot ?h) (f ?h)"
  from rep obtain c where c: "distinct (f ?h)"
    "cells s (Slot ?h) = Some c" "b_head (B ?h) = head_ident c" "b_value (B ?h) = cell_value c"
    "seg (cells s) (next_cell c) (Slot ?h) (f ?h) (b_chain (B ?h)) None"
    by (rule key_bucket)
  have unused: "cells s (Heap a) = None"
    using fresh a by (simp add: fresh_alloc_def)
  from walk_to_end [OF rep live absent] c(2) obtain d where
    init: "init_cell c \<noteq> 0" and walk: "insert_walk s (k, u) (Slot ?h) = ok ?p"
    and d: "cells s ?p = Some d" "next_cell d = None" "\<not> matches (k, u) d"
    by auto
  define x where "x = filled (empty_cell\<lparr>prev_cell := Some ?p\<rparr>) k u v"
  define s' where "s' = s\<lparr>cells := (cells s)(?p \<mapsto> d\<lparr>next_cell := Some (Heap a)\<rparr>, Heap a \<mapsto> x),
    table_size := table_size s + 1\<rparr>"
  have run: "insert_item e s k v u = ok (0, None, s')"
    unfolding s'_def x_def
    by (rule insert_run_append [OF sha mem key c(2) init walk d a])
  have ins: "insert_b (k, u) v (B ?h) = (B ?h)\<lparr>b_chain := b_chain (B ?h) @ [((k, u), v)]\<rparr>"
    using live absent by (simp add: insert_b_def update_absent)
  have "a \<notin> set (f ?h)"
    using seg_allocated [OF c(5)] unused by fastforce
  then have "bucket_at (cells s') ?h (f ?h @ [a]) (insert_b (k, u) v (B ?h))"
    using seg_extend [OF c(2,5,1) unused d(1), of x "(k, u)" v] c(1,3,4)
    by (auto simp: bucket_at_def s'_def ins x_def empty_cell_def)
  then have "represents s' (f(?h := f ?h @ [a])) (B(?h := insert_b (k, u) v (B ?h)))"
    by (rule represents_update [OF rep slot_of_bound])
       (use unused last_ptr_in [of "Slot ?h" "f ?h"] in \<open>auto simp: s'_def\<close>)
  with run show ?thesis by (auto simp: s'_def)
qed

text \<open>
  The four branches together. Only the last asks for memory: \<open>needs_cell\<close>.
\<close>

definition needs_cell :: "ident \<Rightarrow> bucket \<Rightarrow> bool" where
  "needs_cell i b \<longleftrightarrow> b_head b \<noteq> None \<and> b_head b \<noteq> Some i \<and> i \<notin> fst ` set (b_chain b)"

lemma insert_on_bucket:
  assumes "represents s f B" "hash_ok e k" "values_granted e" "fresh_alloc e" "length k < KEY_BYTES"
    and room: "needs_cell (k, u) (B (slot_of e k)) \<Longrightarrow> calloc_cell e s \<noteq> None"
  shows "\<exists>s' f'. insert_item e s k v u = ok (0, None, s') \<and>
     represents s' f' (B(slot_of e k := insert_b (k, u) v (B (slot_of e k)))) \<and>
     (counted s B \<longrightarrow>
      counted s' (B(slot_of e k := insert_b (k, u) v (B (slot_of e k)))))"
proof -
  let ?h = "slot_of e k" and ?b = "insert_b (k, u) v (B (slot_of e k))"
  have count: "counted s' (B(?h := ?b))"
    if "counted s B" "table_size s' = table_size s + of_nat n"
      "bucket_size ?b = bucket_size (B ?h) + n" for s' n
    using that live_cells_upd [OF slot_of_bound, of B e k ?b]
    by (auto simp: counted_def simp flip: of_nat_add)
  consider "b_head (B ?h) = None" | "b_head (B ?h) = Some (k, u)"
    | i where "b_head (B ?h) = Some i" "i \<noteq> (k, u)" "(k, u) \<in> fst ` set (b_chain (B ?h))"
    | i where "b_head (B ?h) = Some i" "i \<noteq> (k, u)" "(k, u) \<notin> fst ` set (b_chain (B ?h))"
    by blast
  then show ?thesis
  proof cases
    case 1
    then have "bucket_size ?b = bucket_size (B ?h) + 1"
      by (simp add: bucket_size_def insert_b_def)
    then show ?thesis
      using insert_dead_head [OF assms(1-3,5) 1, of v] count [of _ 1] by fastforce
  next
    case 2
    then have "bucket_size ?b = bucket_size (B ?h)"
      by (simp add: bucket_size_def insert_b_def)
    then show ?thesis
      using insert_overwrite_head [OF assms(1-3,5) 2, of v] count [of _ 0] by fastforce
  next
    case 3
    then have "length (AList.update (k, u) v (b_chain (B ?h))) = length (b_chain (B ?h))"
      by (intro length_update_present)
    then have "bucket_size ?b = bucket_size (B ?h)"
      using 3(1,2) by (simp add: bucket_size_def insert_b_def)
    then show ?thesis
      using insert_overwrite_chain [OF assms(1-3,5) 3, of v] count [of _ 0] by fastforce
  next
    case 4
    then obtain a where a: "calloc_cell e s = Some a"
      using room by (auto simp: needs_cell_def)
    from 4 have "bucket_size ?b = bucket_size (B ?h) + 1"
      by (auto simp: bucket_size_def insert_b_def update_absent)
    then show ?thesis
      using insert_append [OF assms(1-5) 4 a, of v] count [of _ 1] by fastforce
  qed
qed

lemma insert_on_full_memory:
  assumes "represents s f B" "hash_ok e k" "needs_cell (k, u) (B (slot_of e k))"
    and "calloc_cell e s = None"
  shows "insert_item e s k v u = ok (-1, Some ENOMEM, s)"
proof -
  from assms(3) obtain i where "b_head (B (slot_of e k)) = Some i" "i \<noteq> (k, u)"
    and absent: "(k, u) \<notin> fst ` set (b_chain (B (slot_of e k)))"
    by (auto simp: needs_cell_def)
  from walk_to_end [OF assms(1) this] show ?thesis
    using insert_run_full [OF assms(2)] assms(4) by metis
qed

section \<open>delete_item\<close>

lemma delete_run_head:
  assumes "hash_ok e k" "cells s (Slot (slot_of e k)) = Some c" "head_ident c = Some (k, u)"
  shows "delete_item e s k u = ok (0, None,
    s\<lparr>cells := (cells s)(Slot (slot_of e k) \<mapsto> c\<lparr>init_cell := 0\<rparr>), table_size := table_size s - 1\<rparr>)"
  using assms sha_cases [OF assms(1)]
  by (auto simp: delete_item_def load_def head_ident_simps)

lemma delete_run_absent:
  assumes "hash_ok e k" "cells s (Slot (slot_of e k)) = Some c" "head_ident c \<noteq> Some (k, u)"
    "find_chain s (k, u) (next_cell c) = ok None"
  shows "delete_item e s k u = ok (-1, None, s)"
  using assms sha_cases [OF assms(1)]
  by (auto simp: delete_item_def load_def head_ident_simps)

definition unlinked :: "heap \<Rightarrow> nat \<Rightarrow> cell_ptr \<Rightarrow> cell \<Rightarrow> cell_ptr option \<Rightarrow> heap" where
  "unlinked m a prev pc next =
     (let m2 = m(Heap a := None, prev \<mapsto> pc\<lparr>next_cell := next\<rparr>) in
      case next of None \<Rightarrow> m2 | Some n \<Rightarrow> m2(n \<mapsto> (the (m2 n))\<lparr>prev_cell := Some prev\<rparr>))"

lemma delete_run_chain:
  assumes "hash_ok e k" "cells s (Slot (slot_of e k)) = Some c" "head_ident c \<noteq> Some (k, u)"
    "find_chain s (k, u) (next_cell c) = ok (Some (Heap a))" "cells s (Heap a) = Some d"
    "prev_cell d = Some prev" "prev \<noteq> Heap a" "cells s prev = Some pc"
    "\<And>n. next_cell d = Some n \<Longrightarrow> n \<noteq> Heap a \<and> cells s n \<noteq> None"
  shows "delete_item e s k u = ok (0, None,
    s\<lparr>cells := unlinked (cells s) a prev pc (next_cell d), table_size := table_size s - 1\<rparr>)"
proof (cases "next_cell d")
  case None
  with assms sha_cases [OF assms(1)] show ?thesis
    by (auto simp: delete_item_def load_def head_ident_simps unlinked_def Let_def)
next
  case (Some n)
  with assms(9) obtain nc where "n \<noteq> Heap a" "cells s n = Some nc" by auto
  with Some assms(1-8) sha_cases [OF assms(1)] show ?thesis
    by (auto simp: delete_item_def load_def head_ident_simps unlinked_def Let_def)
qed

lemma seg_unlink_before:
  assumes c: "m (Slot i) = Some c" "seg m (next_cell c) (Slot i) as1 es1 (Some (Heap a))"
    and dist: "distinct (as1 @ a # as2)"
    and p: "m (last_ptr (Slot i) as1) = Some pc"
    and m2: "m2 = m(Heap a := None, last_ptr (Slot i) as1 \<mapsto> pc\<lparr>next_cell := n\<rparr>)"
  shows "\<exists>c'. m2 (Slot i) = Some c' \<and> head_ident c' = head_ident c \<and>
     cell_value c' = cell_value c \<and> seg m2 (next_cell c') (Slot i) as1 es1 n"
proof (cases "as1 = []")
  case True
  with c p show ?thesis by (auto simp: head_ident_def m2)
next
  case False
  then have last: "last_ptr (Slot i) as1 = Heap (last as1)" by (simp add: last_ptr_def)
  have "seg (m(Heap a := None)) (next_cell c) (Slot i) as1 es1 (Some (Heap a))"
    using c(2) dist by simp
  then have "seg m2 (next_cell c) (Slot i) as1 es1 n"
    unfolding m2 last by (rule seg_set_next) (use dist False p last in auto)
  with c(1) last show ?thesis by (auto simp: m2)
qed

lemma seg_unlink:
  assumes c: "m (Slot i) = Some c" "seg m (next_cell c) (Slot i) as1 es1 (Some (Heap a))"
    and d: "seg m (next_cell d) (Heap a) as2 es2 None"
    and dist: "distinct (as1 @ a # as2)"
    and p: "m (last_ptr (Slot i) as1) = Some pc"
    and m': "m' = unlinked m a (last_ptr (Slot i) as1) pc (next_cell d)"
  shows "\<exists>c'. m' (Slot i) = Some c' \<and> head_ident c' = head_ident c \<and>
     cell_value c' = cell_value c \<and>
     seg m' (next_cell c') (Slot i) (as1 @ as2) (es1 @ es2) None"
proof -
  let ?p = "last_ptr (Slot i) as1"
  let ?m2 = "m(Heap a := None, ?p \<mapsto> pc\<lparr>next_cell := next_cell d\<rparr>)"
  have behind: "\<exists>c'. ?m2 (Slot i) = Some c' \<and> head_ident c' = head_ident c \<and>
      cell_value c' = cell_value c \<and> seg ?m2 (next_cell c') (Slot i) as1 es1 (next_cell d)"
    by (rule seg_unlink_before [OF c dist p refl])
  have front: "seg ?m2 (next_cell d) (Heap a) as2 es2 None"
  proof -
    have "?m2 (Heap b) = m (Heap b)" if "b \<in> set as2" for b
      using that dist last_ptr_in [of "Slot i" as1] by auto
    then show ?thesis using d by (subst seg_frame [where m = m])
  qed
  show ?thesis
  proof (cases as2)
    case Nil
    with front have "next_cell d = None" "es2 = []" by auto
    with Nil behind show ?thesis by (simp add: m' unlinked_def)
  next
    case (Cons b bs)
    have "next_cell d = Some (Heap b) \<and> (\<exists>nc. ?m2 (Heap b) = Some nc)"
      using front unfolding Cons seg.simps by blast
    then obtain nc where b: "next_cell d = Some (Heap b)" "?m2 (Heap b) = Some nc"
      by blast
    have ne: "b \<noteq> a" "Heap b \<noteq> ?p"
      using dist Cons last_ptr_in [of "Slot i" as1] by auto
    have eq: "m' = ?m2(Heap b \<mapsto> nc\<lparr>prev_cell := Some ?p\<rparr>)"
      using b ne by (simp add: m' unlinked_def)
    have "seg m' (next_cell d) ?p as2 es2 None"
      unfolding eq Cons by (rule seg_set_prev [OF front [unfolded Cons] _ b(2)])
        (use dist Cons in simp)
    note tail = this
    from behind obtain c' where c': "?m2 (Slot i) = Some c'" "head_ident c' = head_ident c"
      "cell_value c' = cell_value c" "seg ?m2 (next_cell c') (Slot i) as1 es1 (next_cell d)"
      by blast
    have "b \<notin> set as1" using dist Cons by auto
    with c'(4) have "seg m' (next_cell c') (Slot i) as1 es1 (next_cell d)"
      unfolding eq by (subst seg_heap_upd)
    from seg_appendI [OF this tail] c'(1-3) show ?thesis
      by (auto simp: eq)
  qed
qed

lemma counted_update:
  assumes "counted s B" "table_size s' = table_size s - of_nat n" "h < TABLE_SIZE"
    "bucket_size b + n = bucket_size (B h)"
  shows "counted s' (B(h := b))"
proof -
  have "live_cells B = live_cells (B(h := b)) + n"
    using assms(4) live_cells_upd [OF assms(3), of B b] by simp
  with assms(1,2) show ?thesis by (simp add: counted_def)
qed

text \<open>Deleting the table cell, and deleting a cell of the chain.\<close>

lemma delete_head_on_bucket:
  assumes rep: "represents s f B" and sha: "hash_ok e k" and h: "b_head (B (slot_of e k)) = Some (k, u)"
  shows "\<exists>s'. delete_item e s k u = ok (0, None, s') \<and> table_size s' = table_size s - 1 \<and>
     represents s' f (B(slot_of e k := delete_b (k, u) (B (slot_of e k)))) \<and>
     bucket_size (delete_b (k, u) (B (slot_of e k))) + 1 = bucket_size (B (slot_of e k))"
proof -
  let ?h = "slot_of e k" and ?b = "delete_b (k, u) (B (slot_of e k))"
  from rep obtain c where c: "distinct (f ?h)"
    "cells s (Slot ?h) = Some c" "b_head (B ?h) = head_ident c" "b_value (B ?h) = cell_value c"
    "seg (cells s) (next_cell c) (Slot ?h) (f ?h) (b_chain (B ?h)) None"
    by (rule key_bucket)
  then have True: "head_ident c = Some (k, u)" using h by simp
  define s' where "s' = s\<lparr>cells := (cells s)(Slot ?h \<mapsto> c\<lparr>init_cell := 0\<rparr>),
    table_size := table_size s - 1\<rparr>"
  have "bucket_at (cells s') ?h (f ?h) ?b"
    using c True by (simp add: bucket_at_def s'_def delete_b_def head_ident_def)
  then have "represents s' (f(?h := f ?h)) (B(?h := ?b))"
    by (rule represents_update [OF rep slot_of_bound]) (auto simp: s'_def)
  moreover have "bucket_size ?b + 1 = bucket_size (B ?h)"
    using True c(3) by (simp add: bucket_size_def delete_b_def)
  ultimately show ?thesis
    using delete_run_head [OF sha c(2) True] by (auto simp: s'_def)
qed

lemma delete_chained_on_bucket:
  assumes rep: "represents s f B" and sha: "hash_ok e k" and miss: "b_head (B (slot_of e k)) \<noteq> Some (k, u)"
    and mem: "(k, u) \<in> fst ` set (b_chain (B (slot_of e k)))"
  shows "\<exists>s' f'. delete_item e s k u = ok (0, None, s') \<and> table_size s' = table_size s - 1 \<and>
     represents s' f' (B(slot_of e k := delete_b (k, u) (B (slot_of e k)))) \<and>
     bucket_size (delete_b (k, u) (B (slot_of e k))) + 1 = bucket_size (B (slot_of e k))"
proof -
  let ?h = "slot_of e k" and ?b = "delete_b (k, u) (B (slot_of e k))"
  from rep obtain c where c: "distinct (f ?h)"
    "cells s (Slot ?h) = Some c" "b_head (B ?h) = head_ident c" "b_value (B ?h) = cell_value c"
    "seg (cells s) (next_cell c) (Slot ?h) (f ?h) (b_chain (B ?h)) None"
    by (rule key_bucket)
  from seg_find [OF c(5) mem] obtain as1 a as2 es1 v0 es2 d where
    d: "f ?h = as1 @ a # as2" "b_chain (B ?h) = es1 @ ((k, u), v0) # es2" "(k, u) \<notin> fst ` set es1"
      "seg (cells s) (next_cell c) (Slot ?h) as1 es1 (Some (Heap a))"
      "cells s (Heap a) = Some d" "matches (k, u) d" "prev_cell d = Some (last_ptr (Slot ?h) as1)"
      "seg (cells s) (next_cell d) (Heap a) as2 es2 None"
    by metis
  let ?p = "last_ptr (Slot ?h) as1"
  have dist: "distinct (as1 @ a # as2)" using c(1) d(1) by simp
  have find: "find_chain s (k, u) (next_cell c) = ok (Some (Heap a))"
    using find_chain_skip [OF d(4,3)] find_chain_hit [OF d(5,6)] by simp
  obtain pc where pc: "cells s ?p = Some pc"
    using c(2) seg_last [OF d(4)] by (cases "as1 = []") auto
  define s' where "s' = s\<lparr>cells := unlinked (cells s) a ?p pc (next_cell d), table_size := table_size s - 1\<rparr>"
  have next_in: "n \<noteq> Heap a \<and> cells s n \<noteq> None" if "next_cell d = Some n" for n
    using d(8) dist that by (cases as2) auto
  have run: "delete_item e s k u = ok (0, None, s')"
    unfolding s'_def using miss c(3) next_in dist
    by (intro delete_run_chain [OF sha c(2) _ find d(5,7) _ pc]) (auto simp: last_ptr_def)
  have del: "?b = (B ?h)\<lparr>b_chain := es1 @ es2\<rparr>"
    using miss d(2,3) by (simp add: delete_b_def remove_first_append)
  have "bucket_at (cells s') ?h (as1 @ as2) ?b"
    using seg_unlink [OF c(2) d(4,8) dist pc refl] dist c(3,4) by (auto simp: bucket_at_def s'_def del)
  moreover have "next_cell d = None \<or> (\<exists>b \<in> set as2. next_cell d = Some (Heap b))"
    using d(8) by (cases as2) auto
  ultimately have "represents s' (f(?h := as1 @ as2)) (B(?h := ?b))"
    using last_ptr_in [of "Slot ?h" as1] d(1)
    by (intro represents_update [OF rep slot_of_bound]) (auto simp: s'_def unlinked_def Let_def)
  moreover have "bucket_size ?b + 1 = bucket_size (B ?h)" using d(2) by (simp add: bucket_size_def del)
  ultimately show ?thesis using run by (auto simp: s'_def)
qed

lemma delete_on_bucket:
  assumes rep: "represents s f B" and sha: "hash_ok e k"
  shows "\<exists>s' f' r. delete_item e s k u = ok (r, None, s') \<and>
     (r = 0 \<or> r = -1) \<and>
     (r = 0 \<longleftrightarrow> b_head (B (slot_of e k)) = Some (k, u) \<or>
                (k, u) \<in> fst ` set (b_chain (B (slot_of e k)))) \<and>
     represents s' f' (B(slot_of e k := delete_b (k, u) (B (slot_of e k)))) \<and>
     (counted s B \<longrightarrow> counted s' (B(slot_of e k := delete_b (k, u) (B (slot_of e k)))))"
proof (cases "b_head (B (slot_of e k)) = Some (k, u) \<or> (k, u) \<in> fst ` set (b_chain (B (slot_of e k)))")
  case True
  with delete_head_on_bucket [OF rep sha, of u] delete_chained_on_bucket [OF rep sha, of u]
  obtain s' f' where "delete_item e s k u = ok (0, None, s')" "table_size s' = table_size s - of_nat 1"
    "represents s' f' (B(slot_of e k := delete_b (k, u) (B (slot_of e k))))"
    "bucket_size (delete_b (k, u) (B (slot_of e k))) + 1 = bucket_size (B (slot_of e k))"
    by fastforce
  with True counted_update [of s B s' 1 "slot_of e k", OF _ this(2) slot_of_bound this(4)] show ?thesis by blast
next
  case False
  from rep obtain c where c: "cells s (Slot (slot_of e k)) = Some c" "b_head (B (slot_of e k)) = head_ident c"
    "seg (cells s) (next_cell c) (Slot (slot_of e k)) (f (slot_of e k)) (b_chain (B (slot_of e k))) None"
    by (rule key_bucket)
  have "delete_b (k, u) (B (slot_of e k)) = B (slot_of e k)"
    using False by (simp add: delete_b_def remove_first_absent)
  with delete_run_absent [OF sha c(1) _ find_chain_absent [OF c(3)]] False c(2) rep
  show ?thesis by (auto simp: fun_upd_idem)
qed

end
