(* ===== verification/Interfaces.thy ===== *)
theory Interfaces
  imports Prelude
begin

text \<open>
  The contracts between components, as locales. Each fixes the operations a client
  calls, assumes the laws their provider promises, and proves once what the client may
  conclude. The provider's theory interprets the locale on its model.
\<close>

section \<open>A keyed store\<close>

text \<open>
  A store of values under keys: \<open>view\<close> is what the store answers, \<open>put\<close> and \<open>del\<close> may
  fail, and \<open>shadowed s k\<close> says that the store holds a second, hidden value under \<open>k\<close>,
  which a \<open>del\<close> would bring back.
\<close>

datatype ('k, 'v) store_op = Put 'k 'v | Drop 'k

fun run_ops ::
  "('k \<Rightarrow> 'v \<Rightarrow> 's \<Rightarrow> 's option) \<Rightarrow> ('k \<Rightarrow> 's \<Rightarrow> 's option) \<Rightarrow> ('s \<Rightarrow> 'k \<Rightarrow> bool) \<Rightarrow>
   ('k, 'v) store_op list \<Rightarrow> 's \<Rightarrow> 's option"
where
  "run_ops put del shadowed [] s = Some s"
| "run_ops put del shadowed (Put k v # ops) s =
     Option.bind (put k v s) (run_ops put del shadowed ops)"
| "run_ops put del shadowed (Drop k # ops) s =
     (if shadowed s k then None else Option.bind (del k s) (run_ops put del shadowed ops))"

fun map_ops :: "('k, 'v) store_op list \<Rightarrow> ('k \<rightharpoonup> 'v) \<Rightarrow> ('k \<rightharpoonup> 'v)" where
  "map_ops [] m = m"
| "map_ops (Put k v # ops) m = map_ops ops (m(k \<mapsto> v))"
| "map_ops (Drop k # ops) m = map_ops ops (m(k := None))"

locale keyed_store =
  fixes inv :: "'s \<Rightarrow> bool"
    and view :: "'s \<Rightarrow> 'k \<Rightarrow> 'v option"
    and put :: "'k \<Rightarrow> 'v \<Rightarrow> 's \<Rightarrow> 's option"
    and del :: "'k \<Rightarrow> 's \<Rightarrow> 's option"
    and shadowed :: "'s \<Rightarrow> 'k \<Rightarrow> bool"
  assumes put_inv: "inv s \<Longrightarrow> put k v s = Some s' \<Longrightarrow> inv s'"
    and put_view: "inv s \<Longrightarrow> put k v s = Some s' \<Longrightarrow> view s' = (view s)(k \<mapsto> v)"
    and del_inv: "inv s \<Longrightarrow> del k s = Some s' \<Longrightarrow> inv s'"
    and del_other: "inv s \<Longrightarrow> del k s = Some s' \<Longrightarrow> j \<noteq> k \<Longrightarrow> view s' j = view s j"
    and del_self: "inv s \<Longrightarrow> del k s = Some s' \<Longrightarrow> \<not> shadowed s k \<Longrightarrow> view s' k = None"
begin

lemma del_view:
  assumes "inv s" "del k s = Some s'" "\<not> shadowed s k"
  shows "view s' = (view s)(k := None)"
  using del_other [OF assms(1,2)] del_self [OF assms] by (auto simp: fun_eq_iff)

text \<open>A successful run is the run of the same operations on the map the store shows.\<close>

lemma run_ops_refines:
  "inv s \<Longrightarrow> run_ops put del shadowed ops s = Some s' \<Longrightarrow>
   inv s' \<and> view s' = map_ops ops (view s)"
proof (induction ops arbitrary: s)
  case Nil
  then show ?case by simp
next
  case (Cons x ops)
  show ?case
  proof (cases x)
    case (Put k v)
    with Cons.prems obtain s1 where s1: "put k v s = Some s1"
      "run_ops put del shadowed ops s1 = Some s'"
      by (auto simp: bind_eq_Some_conv)
    have "view s1 = (view s)(k \<mapsto> v)"
      by (rule put_view [OF Cons.prems(1) s1(1)])
    with Cons.IH [OF put_inv [OF Cons.prems(1) s1(1)] s1(2)] Put show ?thesis
      by (simp del: fun_upd_apply)
  next
    case (Drop k)
    with Cons.prems obtain s1 where s1: "\<not> shadowed s k" "del k s = Some s1"
      "run_ops put del shadowed ops s1 = Some s'"
      by (auto simp: bind_eq_Some_conv split: if_splits)
    have "view s1 = (view s)(k := None)"
      by (rule del_view [OF Cons.prems(1) s1(2,1)])
    with Cons.IH [OF del_inv [OF Cons.prems(1) s1(2)] s1(3)] Drop show ?thesis
      by (simp del: fun_upd_apply)
  qed
qed

text \<open>Storing a list of pairs: the last value written under a key wins.\<close>

lemma put_all_view:
  assumes "inv s" "run_ops put del shadowed (map (\<lambda>(k, v). Put k v) kvs) s = Some s'"
  shows "view s' = view s ++ map_of (rev kvs)"
proof -
  have "map_ops (map (\<lambda>(k, v). Put k v) kvs) m = m ++ map_of (rev kvs)" for m
    by (induction kvs arbitrary: m) (auto simp: map_add_upd_left)
  with run_ops_refines [OF assms] show ?thesis by simp
qed

end

end
