(* ===== verification/StorageMap.thy ===== *)
theory StorageMap
  imports StorageRefine Interfaces
begin

text \<open>
  The store of \<open>pair_server/storage.c\<close> as a map: the invariant its operations keep, the
  interface \<open>keyed_store\<close> it provides, and its user-level properties.
\<close>

section \<open>The invariant\<close>

text \<open>
  A head that is or was in use has a value string, and no chain holds the same key and
  user twice. (A head may repeat an entry of its chain: that entry is shadowed.)
\<close>

definition bucket_ok :: "bucket \<Rightarrow> bool" where
  "bucket_ok b \<longleftrightarrow>
     (b_head b \<noteq> None \<or> b_chain b \<noteq> [] \<longrightarrow> b_value b \<noteq> None) \<and>
     distinct (map fst (b_chain b))"

definition store_inv :: "store \<Rightarrow> bool" where
  "store_inv s \<longleftrightarrow>
     (\<exists>f B. represents s f B \<and> counted s B \<and> (\<forall>i < TABLE_SIZE. bucket_ok (B i)))"

lemma store_invE:
  assumes "store_inv s"
  obtains f B where "represents s f B" "counted s B" "\<forall>i < TABLE_SIZE. bucket_ok (B i)"
  using assms by (auto simp: store_inv_def)

lemma store_invI:
  assumes "represents s f B" "counted s (B(h := b))" "represents s' f' (B(h := b))"
    "counted s' (B(h := b))" "\<And>i. i < TABLE_SIZE \<Longrightarrow> bucket_ok (B i)" "bucket_ok b"
  shows "store_inv s'"
  using assms by (auto simp: store_inv_def intro!: exI [of _ f'] exI [of _ "B(h := b)"])

lemma keys_update_present: "i \<in> fst ` set es \<Longrightarrow> map fst (AList.update i v es) = map fst es"
  by (induction es) auto

lemma bucket_ok_insert: "bucket_ok b \<Longrightarrow> bucket_ok (insert_b i v b)"
  by (auto simp: bucket_ok_def insert_b_def distinct_update split: if_splits)

lemma set_remove_first: "set (remove_first i es) \<subseteq> set es"
  by (induction es) auto

lemma distinct_remove_first:
  "distinct (map fst es) \<Longrightarrow> distinct (map fst (remove_first i es))"
  using set_remove_first by (induction es) fastforce+

lemma bucket_ok_delete: "bucket_ok b \<Longrightarrow> bucket_ok (delete_b i b)"
  by (auto simp: bucket_ok_def delete_b_def distinct_remove_first)

section \<open>What a store shows\<close>

definition stored :: "env \<Rightarrow> store \<Rightarrow> ident \<Rightarrow> string option" where
  "stored e s i =
     (case cells s (Slot (slot_of e (fst i))) of
        None \<Rightarrow> None
      | Some head \<Rightarrow>
          if head_ident head = Some i then cell_value head
          else (case find_chain s i (next_cell head) of
                  Some (Inr (Some p)) \<Rightarrow> Option.bind (cells s p) cell_value
                | _ \<Rightarrow> None))"

definition shadowed :: "env \<Rightarrow> store \<Rightarrow> ident \<Rightarrow> bool" where
  "shadowed e s i \<longleftrightarrow>
     (case cells s (Slot (slot_of e (fst i))) of
        None \<Rightarrow> False
      | Some head \<Rightarrow> head_ident head = Some i \<and> find_chain s i (next_cell head) \<noteq> ok None)"

lemma chain_lookup:
  assumes "seg (cells s) n pr as es None"
  shows "(case find_chain s i n of Some (Inr (Some p)) \<Rightarrow> Option.bind (cells s p) cell_value
           | _ \<Rightarrow> None) = map_of es i"
    and "find_chain s i n = ok None \<longleftrightarrow> i \<notin> fst ` set es"
proof (atomize (full), cases "i \<in> fst ` set es")
  case False
  with find_chain_absent [OF assms this] show
    "(case find_chain s i n of Some (Inr (Some p)) \<Rightarrow> Option.bind (cells s p) cell_value
        | _ \<Rightarrow> None) = map_of es i \<and> (find_chain s i n = ok None \<longleftrightarrow> i \<notin> fst ` set es)"
    by (simp add: ok_def map_of_eq_None_iff [THEN iffD2])
next
  case True
  from seg_find [OF assms this] obtain as1 a es1 v es2 d where
    d: "es = es1 @ (i, v) # es2" "i \<notin> fst ` set es1" "seg (cells s) n pr as1 es1 (Some (Heap a))"
      "cells s (Heap a) = Some d" "matches i d" "cell_value d = Some v"
    by metis
  have "find_chain s i n = ok (Some (Heap a))"
    using find_chain_skip [OF d(3,2)] find_chain_hit [OF d(4,5)] by simp
  moreover have "map_of es i = Some v"
    unfolding d(1) by (rule map_of_skip) (rule d(2))
  ultimately show
    "(case find_chain s i n of Some (Inr (Some p)) \<Rightarrow> Option.bind (cells s p) cell_value
        | _ \<Rightarrow> None) = map_of es i \<and> (find_chain s i n = ok None \<longleftrightarrow> i \<notin> fst ` set es)"
    using True d(4,6) by (simp add: ok_def)
qed

lemma stored_represents:
  assumes "represents s f B"
  shows "stored e s i = find_b i (B (slot_of e (fst i)))"
  by (rule key_bucket [OF assms, of e "fst i"])
     (simp add: stored_def find_b_def chain_lookup(1))

lemma shadowed_represents:
  assumes "represents s f B"
  shows "shadowed e s i \<longleftrightarrow>
     b_head (B (slot_of e (fst i))) = Some i \<and> i \<in> fst ` set (b_chain (B (slot_of e (fst i))))"
  by (rule key_bucket [OF assms, of e "fst i"])
     (simp add: shadowed_def chain_lookup(2) del: set_map)

lemma find_b_insert: "find_b j (insert_b i v b) = (if j = i then Some v else find_b j b)"
  by (auto simp: find_b_def insert_b_def update_conv')

lemma find_b_delete_other: "j \<noteq> i \<Longrightarrow> find_b j (delete_b i b) = find_b j b"
  by (auto simp: find_b_def delete_b_def map_of_remove_first_other)

lemma remove_first_self: "distinct (map fst es) \<Longrightarrow> i \<notin> fst ` set (remove_first i es)"
  by (induction es) auto

lemma find_b_delete_self:
  "bucket_ok b \<Longrightarrow> \<not> (b_head b = Some i \<and> i \<in> fst ` set (b_chain b)) \<Longrightarrow>
   find_b i (delete_b i b) = None"
  using remove_first_self [of "b_chain b" i]
  by (simp add: find_b_def delete_b_def bucket_ok_def map_of_eq_None_iff del: set_map)

lemma find_b_delete_shadowed:
  "b_head b = Some i \<Longrightarrow> find_b i (delete_b i b) = map_of (b_chain b) i"
  by (simp add: find_b_def delete_b_def)

section \<open>The operations on the map\<close>

text \<open>
  The environment the properties assume: the digest of every key is computed, the
  allocator hands out fresh cells when it hands out one, and value strings are granted.
\<close>

definition storage_env :: "env \<Rightarrow> bool" where
  "storage_env e \<longleftrightarrow> (\<forall>k. hash_ok e k) \<and> values_granted e \<and> fresh_alloc e"

lemma storage_envD:
  assumes "storage_env e"
  shows "hash_ok e k" "values_granted e" "fresh_alloc e"
  using assms by (simp_all add: storage_env_def)

text \<open>Inserting: it succeeds and updates the map, or reports that memory is out.\<close>

lemma insert_spec:
  assumes "store_inv s" "storage_env e" "length k < KEY_BYTES"
  shows "(\<exists>s'. insert_item e s k v u = ok (0, None, s') \<and> store_inv s' \<and>
            stored e s' = (stored e s)((k, u) \<mapsto> v)) \<or>
         (calloc_cell e s = None \<and> insert_item e s k v u = ok (-1, Some ENOMEM, s))"
proof -
  from assms(1) obtain f B where B: "represents s f B" "counted s B"
    "\<forall>i < TABLE_SIZE. bucket_ok (B i)"
    by (rule store_invE)
  let ?h = "slot_of e k"
  let ?B = "B(?h := insert_b (k, u) v (B ?h))"
  show ?thesis
  proof (cases "needs_cell (k, u) (B ?h) \<and> calloc_cell e s = None")
    case True
    then show ?thesis
      using insert_on_full_memory [OF B(1) storage_envD(1) [OF assms(2)]] by blast
  next
    case False
    then obtain s' f' where s': "insert_item e s k v u = ok (0, None, s')"
      "represents s' f' ?B" "counted s' ?B"
      using insert_on_bucket [OF B(1) storage_envD [OF assms(2)] assms(3), of u v] B(2) by blast
    have "store_inv s'"
      unfolding store_inv_def using s'(2,3) B(3) bucket_ok_insert
      by (intro exI [of _ f'] exI [of _ ?B]) auto
    moreover have "stored e s' = (stored e s)((k, u) \<mapsto> v)"
      using stored_represents [OF B(1)] stored_represents [OF s'(2)]
      by (auto simp: fun_eq_iff find_b_insert)
    ultimately show ?thesis using s'(1) by blast
  qed
qed

text \<open>Deleting: it always returns; what was shadowed under the key becomes visible.\<close>

lemma delete_spec:
  assumes "store_inv s" "storage_env e"
  obtains r s' where "delete_item e s k u = ok (r, None, s')" "store_inv s'"
    "r = 0 \<or> r = -1" "r = 0 \<longleftrightarrow> stored e s (k, u) \<noteq> None"
    "\<And>j. j \<noteq> (k, u) \<Longrightarrow> stored e s' j = stored e s j"
    "\<not> shadowed e s (k, u) \<Longrightarrow> stored e s' (k, u) = None"
    "shadowed e s (k, u) \<Longrightarrow> stored e s' (k, u) \<noteq> None"
proof -
  from assms(1) obtain f B where B: "represents s f B" "counted s B"
    "\<forall>i < TABLE_SIZE. bucket_ok (B i)"
    by (rule store_invE)
  let ?h = "slot_of e k"
  let ?B = "B(?h := delete_b (k, u) (B ?h))"
  from delete_on_bucket [OF B(1) storage_envD(1) [OF assms(2)], of k u] B(2)
  obtain s' f' r where s': "delete_item e s k u = ok (r, None, s')"
    "r = 0 \<longleftrightarrow> b_head (B ?h) = Some (k, u) \<or> (k, u) \<in> fst ` set (b_chain (B ?h))"
    "represents s' f' ?B" "counted s' ?B" "r = 0 \<or> r = -1"
    by blast
  have inv: "store_inv s'"
    unfolding store_inv_def using s'(3,4) B(3) bucket_ok_delete
    by (intro exI [of _ f'] exI [of _ ?B]) auto
  have bk: "bucket_ok (B ?h)" using B(3) by simp
  have now: "stored e s (k, u) = find_b (k, u) (B ?h)"
    using stored_represents [OF B(1)] by simp
  have found: "r = 0 \<longleftrightarrow> stored e s (k, u) \<noteq> None"
    using s'(2) bk
    by (cases "b_head (B ?h) = Some (k, u)")
       (auto simp: now find_b_def bucket_ok_def dest: map_of_eq_None_iff [THEN iffD1]
         simp del: not_None_eq intro!: map_of_eq_None_iff [THEN iffD2])
  have other: "stored e s' j = stored e s j" if "j \<noteq> (k, u)" for j
    using that stored_represents [OF B(1)] stored_represents [OF s'(3)]
    by (auto simp: find_b_delete_other)
  have self: "stored e s' (k, u) = find_b (k, u) (delete_b (k, u) (B ?h))"
    using stored_represents [OF s'(3)] by simp
  show thesis
  proof (rule that [OF s'(1) inv s'(5) found other])
    show "stored e s' (k, u) = None" if "\<not> shadowed e s (k, u)"
      using that find_b_delete_self [OF bk] shadowed_represents [OF B(1)] self by simp
    show "stored e s' (k, u) \<noteq> None" if "shadowed e s (k, u)"
      using that find_b_delete_shadowed shadowed_represents [OF B(1)] self
      by (simp add: map_of_eq_None_iff)
  qed
qed

end
