(* ===== verification/StorageProps.thy ===== *)
theory StorageProps
  imports StorageMap
begin

text \<open>
  The properties of \<open>pair_server/storage.c\<close> that its callers use: the store as an
  implementation of \<open>keyed_store\<close>, the runs of its operations from the empty table as a
  step relation, and the behaviours that a caller has to know about.
\<close>

section \<open>The interface\<close>

definition put_item :: "env \<Rightarrow> ident \<Rightarrow> string \<Rightarrow> store \<Rightarrow> store option" where
  "put_item e i v s =
     (case insert_item e s (fst i) v (snd i) of
        Some (Inr (r, _, s')) \<Rightarrow> if r = 0 then Some s' else None
      | _ \<Rightarrow> None)"

definition drop_item :: "env \<Rightarrow> ident \<Rightarrow> store \<Rightarrow> store option" where
  "drop_item e i s =
     (case delete_item e s (fst i) (snd i) of Some (Inr (_, _, s')) \<Rightarrow> Some s' | _ \<Rightarrow> None)"

lemma write_cell_long_key: "KEY_BYTES \<le> length k \<Longrightarrow> write_cell e s p k v u \<noteq> ok s'"
  by (auto simp: write_cell_def and_then_ok_iff split: if_splits)

lemma insert_item_key_fits:
  "insert_item e s k v u = ok (0, er, s') \<Longrightarrow> length k < KEY_BYTES"
  by (rule ccontr) (auto simp: insert_item_def and_then_ok_iff Let_def write_cell_long_key not_less
      split: prod.splits if_splits option.splits)

lemma put_item_ok:
  assumes "put_item e i v s = Some s'"
  shows "length (fst i) < KEY_BYTES" "\<exists>er. insert_item e s (fst i) v (snd i) = ok (0, er, s')"
proof -
  show *: "\<exists>er. insert_item e s (fst i) v (snd i) = ok (0, er, s')"
    using assms by (auto simp: put_item_def ok_def split: option.splits sum.splits if_splits)
  then show "length (fst i) < KEY_BYTES" by (auto dest: insert_item_key_fits)
qed

lemma put_item_spec:
  assumes "store_inv s" "storage_env e" "put_item e i v s = Some s'"
  shows "store_inv s' \<and> stored e s' = (stored e s)(i \<mapsto> v)"
  using insert_spec [OF assms(1,2) put_item_ok(1) [OF assms(3)], of v "snd i"]
    put_item_ok(2) [OF assms(3)] by fastforce

lemma drop_item_spec:
  assumes "store_inv s" "storage_env e" "drop_item e i s = Some s'"
  shows "store_inv s'" "j \<noteq> i \<Longrightarrow> stored e s' j = stored e s j"
    "\<not> shadowed e s i \<Longrightarrow> stored e s' i = None"
proof -
  obtain r s1 where "delete_item e s (fst i) (snd i) = ok (r, None, s1)" "store_inv s1"
    "\<And>j. j \<noteq> i \<Longrightarrow> stored e s1 j = stored e s j"
    "\<not> shadowed e s i \<Longrightarrow> stored e s1 i = None"
    using delete_spec [OF assms(1,2), of "fst i" "snd i"] by simp metis
  moreover from this(1) assms(3) have "s' = s1" by (simp add: drop_item_def ok_def)
  ultimately show "store_inv s'" "j \<noteq> i \<Longrightarrow> stored e s' j = stored e s j"
    "\<not> shadowed e s i \<Longrightarrow> stored e s' i = None"
    by auto
qed

interpretation storage: keyed_store
  "\<lambda>s. storage_env e \<and> store_inv s" "stored e" "put_item e" "drop_item e" "shadowed e" for e
  by unfold_locales (auto dest: put_item_spec drop_item_spec)

section \<open>Runs\<close>

text \<open>What a client can do to the store; a caller may also find it out of memory.\<close>

inductive storage_step :: "env \<Rightarrow> store \<Rightarrow> store \<Rightarrow> bool" for e where
  insert: "length k < KEY_BYTES \<Longrightarrow> insert_item e s k v u = ok (r, er, s') \<Longrightarrow> storage_step e s s'"
| delete: "delete_item e s k u = ok (r, er, s') \<Longrightarrow> storage_step e s s'"
| pop: "pop_item e s k u n = ok (r, g, s') \<Longrightarrow> storage_step e s s'"

inductive storage_reach :: "env \<Rightarrow> store \<Rightarrow> bool" for e where
  start: "storage_reach e initial_store"
| step: "storage_reach e s \<Longrightarrow> storage_step e s s' \<Longrightarrow> storage_reach e s'"

inductive_cases storage_stepE: "storage_step e s s'"

lemma get_item_returns:
  assumes "store_inv s" "storage_env e"
  obtains g where "get_item e s k u n = ok g"
    "get_ret g = 0 \<longleftrightarrow> (\<exists>v. stored e s (k, u) = Some v \<and> length v < n)"
    "get_ret g = 0 \<or> get_ret g = -1"
    "get_ret g = 0 \<Longrightarrow> out_value g = stored e s (k, u)"
    "get_ret g \<noteq> 0 \<Longrightarrow> out_value g = None"
proof -
  from assms(1) obtain f B where B: "represents s f B" "\<forall>i < TABLE_SIZE. bucket_ok (B i)"
    by (rule store_invE)
  let ?b = "B (slot_of e k)"
  have bk: "bucket_ok ?b" using B(2) by simp
  have st: "stored e s (k, u) = find_b (k, u) ?b"
    using stored_represents [OF B(1)] by simp
  have run: "get_item e s k u n = get_b (k, u) n ?b"
    by (rule get_item_on_bucket [OF B(1) storage_envD(1) [OF assms(2)]])
  show thesis
  proof (cases "b_head ?b = Some (k, u)")
    case True
    with bk obtain v where "b_value ?b = Some v" by (auto simp: bucket_ok_def)
    with True show thesis
      by (cases "length v < n"; intro that) (auto simp: run st get_b_def find_b_def)
  next
    case miss: False
    show thesis
    proof (cases "map_of (b_chain ?b) (k, u)")
      case None
      with miss show thesis by (intro that) (auto simp: run st get_b_def find_b_def)
    next
      case (Some v)
      with bk obtain hv where "b_value ?b = Some hv"
        by (cases "b_chain ?b") (auto simp: bucket_ok_def)
      with miss Some show thesis
        by (cases "length v < n"; intro that) (auto simp: run st get_b_def find_b_def)
    qed
  qed
qed

lemma store_inv_initial: "store_inv initial_store"
  using represents_initial
  by (auto simp: store_inv_def counted_def live_cells_def bucket_size_def empty_bucket_def
      bucket_ok_def initial_store_def intro!: exI [of _ "\<lambda>_. []"] exI [of _ "\<lambda>_. empty_bucket"])

lemma pop_spec:
  assumes "store_inv s" "storage_env e"
  obtains r g s' where "pop_item e s k u n = ok (r, g, s')" "store_inv s'"
    "r = 0 \<longleftrightarrow> (\<exists>v. stored e s (k, u) = Some v \<and> length v < n)"
    "r = 0 \<Longrightarrow> out_value g = stored e s (k, u)"
    "r = 0 \<Longrightarrow> \<exists>r'. delete_item e s k u = ok (r', None, s')" "r \<noteq> 0 \<Longrightarrow> s' = s"
proof -
  obtain g where g: "get_item e s k u n = ok g"
    "get_ret g = 0 \<longleftrightarrow> (\<exists>v. stored e s (k, u) = Some v \<and> length v < n)"
    "get_ret g = 0 \<Longrightarrow> out_value g = stored e s (k, u)"
    using get_item_returns [OF assms, of k u n] by metis
  obtain r s' where d: "delete_item e s k u = ok (r, None, s')" "store_inv s'"
    "r = 0 \<longleftrightarrow> stored e s (k, u) \<noteq> None"
    using delete_spec [OF assms, of k u] by metis
  show thesis
  proof (cases "get_ret g = 0")
    case True
    with g(2) d(3) have "r = 0" by auto
    with True g d show thesis by (intro that [of 0 g s']) (auto simp: pop_item_def)
  next
    case False
    with g assms(1) show thesis by (intro that [of "-1" g s]) (auto simp: pop_item_def)
  qed
qed

lemma storage_step_inv:
  assumes "storage_step e s s'" "store_inv s" "storage_env e"
  shows "store_inv s'"
  using assms(1)
proof cases
  case (insert k v u r er)
  from insert_spec [OF assms(2,3) insert(1), of v u] insert(2) assms(2) show ?thesis by fastforce
next
  case delete
  from delete_spec [OF assms(2,3)] delete show ?thesis
    by (metis Pair_inject ok_inject)
next
  case pop
  from pop_spec [OF assms(2,3)] pop show ?thesis
    by (metis Pair_inject ok_inject)
qed

lemma storage_reach_inv: "storage_reach e s \<Longrightarrow> storage_env e \<Longrightarrow> store_inv s"
  by (induction rule: storage_reach.induct) (auto intro: store_inv_initial storage_step_inv)

section \<open>An environment in which all keys collide\<close>

definition colliding_env :: env where
  "colliding_env =
     \<lparr>sha256_starts = 0, sha256_update = (\<lambda>_. 0), sha256_finish = (\<lambda>_. (0, 0)), stack_bytes = 0,
      calloc_cell = (\<lambda>s. if cells s (Heap (unat (table_size s))) = None
                         then Some (unat (table_size s)) else None),
      malloc_value = (\<lambda>_ _. True)\<rparr>"

lemma colliding_env_simps [simp]:
  "calculate_sha256 colliding_env k = (0, 0)"
  "malloc_value colliding_env s n"
  "calloc_cell colliding_env s = (if cells s (Heap (unat (table_size s))) = None
     then Some (unat (table_size s)) else None)"
  by (simp_all add: colliding_env_def calculate_sha256_def)

lemma storage_env_colliding: "storage_env colliding_env"
  by (auto simp: storage_env_def hash_ok_def values_granted_def fresh_alloc_def split: if_splits)

text \<open>Three inserts and a deletion, run on the model.\<close>

definition cell_of :: "string \<Rightarrow> string \<Rightarrow> cell" where
  "cell_of k v = empty_cell\<lparr>init_cell := 1, user_id := 1, cell_key := k, cell_value := Some v\<rparr>"

lemma cell_of_simps [simp]:
  "init_cell (cell_of k v) = 1" "user_id (cell_of k v) = 1" "cell_key (cell_of k v) = k"
  "cell_value (cell_of k v) = Some v" "next_cell (cell_of k v) = None"
  "prev_cell (cell_of k v) = None"
  by (simp_all add: cell_of_def empty_cell_def)

definition store_ab :: store where
  "store_ab =
     \<lparr>cells = (cells initial_store)(Slot 0 \<mapsto> (cell_of ''a'' ''x'')\<lparr>next_cell := Some (Heap 1)\<rparr>,
                Heap 1 \<mapsto> (cell_of ''b'' ''yy'')\<lparr>prev_cell := Some (Slot 0)\<rparr>),
      table_size = 2\<rparr>"

definition store_bb :: store where
  "store_bb =
     \<lparr>cells = (cells initial_store)(Slot 0 \<mapsto> (cell_of ''b'' ''z'')\<lparr>next_cell := Some (Heap 1)\<rparr>,
                Heap 1 \<mapsto> (cell_of ''b'' ''yy'')\<lparr>prev_cell := Some (Slot 0)\<rparr>),
      table_size = 2\<rparr>"

lemma run_a:
  "insert_item colliding_env initial_store ''a'' ''x'' 1 =
     ok (0, None, \<lparr>cells = (cells initial_store)(Slot 0 \<mapsto> cell_of ''a'' ''x''), table_size = 1\<rparr>)"
  by (simp add: insert_item_def load_def Let_def initial_store_def TABLE_SIZE_def KEY_BYTES_def)
     (auto simp: empty_cell_def cell_of_def KEY_BYTES_def)

lemma run_ab:
  "insert_item colliding_env
     \<lparr>cells = (cells initial_store)(Slot 0 \<mapsto> cell_of ''a'' ''x''), table_size = 1\<rparr> ''b'' ''yy'' 1 =
     ok (0, None, store_ab)"
  by (simp add: insert_item_def load_def Let_def initial_store_def write_cell_def KEY_BYTES_def
      insert_walk.simps store_ab_def)
     (auto simp: fun_eq_iff cell_of_def empty_cell_def)

lemma run_ab_delete_a:
  "delete_item colliding_env store_ab ''a'' 1 =
     ok (0, None, store_ab\<lparr>cells := (cells store_ab)(Slot 0 \<mapsto>
       (cell_of ''a'' ''x'')\<lparr>next_cell := Some (Heap 1), init_cell := 0\<rparr>), table_size := 1\<rparr>)"
  by (simp add: delete_item_def load_def matches_def store_ab_def)

lemma run_bb:
  "insert_item colliding_env (store_ab\<lparr>cells := (cells store_ab)(Slot 0 \<mapsto>
       (cell_of ''a'' ''x'')\<lparr>next_cell := Some (Heap 1), init_cell := 0\<rparr>), table_size := 1\<rparr>)
     ''b'' ''z'' 1 = ok (0, None, store_bb)"
  by (simp add: insert_item_def load_def Let_def store_ab_def store_bb_def KEY_BYTES_def)
     (auto simp: fun_eq_iff cell_of_def empty_cell_def)

lemma reach_ab: "storage_reach colliding_env store_ab"
  by (rule storage_reach.step [OF storage_reach.step [OF storage_reach.start
        storage_step.insert [OF _ run_a]] storage_step.insert [OF _ run_ab]])
     (simp_all add: KEY_BYTES_def)

lemma reach_bb: "storage_reach colliding_env store_bb"
  by (rule storage_reach.step [OF storage_reach.step [OF reach_ab
        storage_step.delete [OF run_ab_delete_a]] storage_step.insert [OF _ run_bb]])
     (simp add: KEY_BYTES_def)

lemma shadowed_bb: "shadowed colliding_env store_bb (''b'', 1)"
  by (simp add: shadowed_def store_bb_def slot_of_def head_ident_def find_chain.simps matches_def)

lemma slot_of_colliding [simp]: "slot_of colliding_env k = 0"
  by (simp add: slot_of_def)

section \<open>Properties\<close>







text \<open>C31: Any list of successful inserts and unshadowed deletions, run from the empty table,
  leaves a store that answers what the same operations make of the empty map.\<close>

theorem storage_runs_as_map:
  assumes "storage_env e"
    and "run_ops (put_item e) (drop_item e) (shadowed e) ops initial_store = Some s'"
  shows "stored e s' = map_ops ops Map.empty"
proof -
  have "stored e initial_store = Map.empty"
    using stored_represents [OF represents_initial, of e]
    by (auto simp: fun_eq_iff find_b_def empty_bucket_def)
  with storage.run_ops_refines [of e initial_store] assms store_inv_initial show ?thesis
    by simp
qed

lemma storage_runs_as_map_witness:
  "\<exists>s'. run_ops (put_item colliding_env) (drop_item colliding_env) (shadowed colliding_env)
      [Put (''a'', 1) ''x'', Put (''b'', 1) ''yy''] initial_store = Some s' \<and>
    stored colliding_env s' = map_ops [Put (''a'', 1) ''x'', Put (''b'', 1) ''yy''] Map.empty"
proof -
  have "run_ops (put_item colliding_env) (drop_item colliding_env) (shadowed colliding_env)
      [Put (''a'', 1) ''x'', Put (''b'', 1) ''yy''] initial_store = Some store_ab"
    using run_a run_ab by (simp add: put_item_def ok_def)
  with storage_runs_as_map [OF storage_env_colliding this] show ?thesis by blast
qed

text \<open>The counter that \<open>get_size\<close> returns is, in every reachable store, the number of
  live table cells and chain cells, and the store's cells form the table of buckets that
  the abstract operations work on.\<close>

theorem get_size_counts:
  assumes "storage_reach e s" "storage_env e"
  shows "\<exists>f B. represents s f B \<and> get_size s = of_nat (live_cells B)"
  using storage_reach_inv [OF assms]
  by (auto simp: store_inv_def counted_def get_size_def)

lemma get_size_counts_witness:
  "\<exists>f B. represents store_ab f B \<and> get_size store_ab = of_nat (live_cells B)"
  by (rule get_size_counts [OF reach_ab storage_env_colliding])

text \<open>C36: \<open>insert_item\<close> refines the abstract insertion: on memory that represents a table of
  buckets it changes the bucket the key hashes to by \<open>insert_b\<close>, keeps all other buckets
  and the separation of their cells, provided memory is there when a cell is needed.\<close>

theorem insert_item_refines:
  assumes "represents s f B" "storage_env e" "length k < KEY_BYTES"
    and "needs_cell (k, u) (B (slot_of e k)) \<Longrightarrow> calloc_cell e s \<noteq> None"
  shows "\<exists>s' f'. insert_item e s k v u = ok (0, None, s') \<and>
     represents s' f' (B(slot_of e k := insert_b (k, u) v (B (slot_of e k))))"
  using insert_on_bucket [OF assms(1) storage_envD [OF assms(2)] assms(3,4), of u v] by blast

lemma insert_item_refines_witness:
  "\<exists>s' f'. insert_item colliding_env initial_store ''b'' ''v'' 1 = ok (0, None, s') \<and>
     represents s' f' ((\<lambda>_. empty_bucket)(slot_of colliding_env ''b'' :=
       insert_b (''b'', 1) ''v'' empty_bucket))"
  by (rule insert_item_refines [OF represents_initial storage_env_colliding])
     (simp_all add: KEY_BYTES_def needs_cell_def empty_bucket_def)

text \<open>\<open>pop_item\<close> is \<open>get_item\<close> followed by \<open>delete_item\<close>: in a reachable store it returns 0
  exactly when the value is there and fits the buffer, has then copied it, and leaves the
  store \<open>delete_item\<close> leaves; otherwise the store is unchanged.\<close>

theorem pop_item_correct:
  assumes "storage_reach e s" "storage_env e"
  shows "\<exists>r g s'. pop_item e s k u n = ok (r, g, s') \<and>
    (if \<exists>v. stored e s (k, u) = Some v \<and> length v < n
     then r = 0 \<and> out_value g = stored e s (k, u) \<and>
          (\<exists>r'. delete_item e s k u = ok (r', None, s'))
     else r \<noteq> 0 \<and> s' = s)"
proof -
  obtain r g s' where "pop_item e s k u n = ok (r, g, s')"
    "r = 0 \<longleftrightarrow> (\<exists>v. stored e s (k, u) = Some v \<and> length v < n)"
    "r = 0 \<Longrightarrow> out_value g = stored e s (k, u)"
    "r = 0 \<Longrightarrow> \<exists>r'. delete_item e s k u = ok (r', None, s')" "r \<noteq> 0 \<Longrightarrow> s' = s"
    using pop_spec [OF storage_reach_inv [OF assms] assms(2), of k u n] by metis
  then show ?thesis by (intro exI [of _ r] exI [of _ g] exI [of _ s']) auto
qed

lemma pop_item_correct_witness:
  "\<exists>r g s'. pop_item colliding_env store_ab ''b'' 1 3 = ok (r, g, s') \<and>
    (if \<exists>v. stored colliding_env store_ab (''b'', 1) = Some v \<and> length v < 3
     then r = 0 \<and> out_value g = stored colliding_env store_ab (''b'', 1) \<and>
          (\<exists>r'. delete_item colliding_env store_ab ''b'' 1 = ok (r', None, s'))
     else r \<noteq> 0 \<and> s' = store_ab)"
  by (rule pop_item_correct [OF reach_ab storage_env_colliding])

text \<open>When the value string of a dead table cell cannot be allocated, \<open>insert_item\<close>
  reports ENOMEM but has already made the cell live and counted it: the size grows by
  one, and a later \<open>get_item\<close> of that key reads through a null pointer.\<close>

theorem insert_without_value_memory:
  assumes "represents s f B" "hash_ok e k" "length k < KEY_BYTES"
    and "b_head (B (slot_of e k)) = None" "\<not> malloc_value e s (length v + 1)"
  shows "\<exists>s'. insert_item e s k v u = ok (-1, Some ENOMEM, s') \<and>
     get_size s' = get_size s + 1 \<and> get_item e s' k u n = abort NullDeref"
proof -
  obtain c where c: "cells s (Slot (slot_of e k)) = Some c" "b_head (B (slot_of e k)) = head_ident c"
    using key_bucket [OF assms(1), of e k] by metis
  with assms(4) have "init_cell c = 0" by (simp add: head_ident_simps)
  then show ?thesis
    using assms(3,5) c(1) sha_cases [OF assms(2)]
    by (auto simp: insert_item_def get_item_def load_def matches_def get_size_def Let_def)
qed

lemma insert_without_value_memory_witness:
  "\<exists>e s'. insert_item e initial_store ''k'' ''v'' 1 = ok (-1, Some ENOMEM, s') \<and>
     get_size s' = get_size initial_store + 1 \<and> get_item e s' ''k'' 1 8 = abort NullDeref"
proof -
  let ?e = "colliding_env\<lparr>malloc_value := \<lambda>_ _. False\<rparr>"
  have "hash_ok ?e ''k''"
    by (simp add: hash_ok_def calculate_sha256_def colliding_env_def)
  from insert_without_value_memory [OF represents_initial this, where u = 1 and v = "''v''" and n = 8] show ?thesis
    by (intro exI [of _ ?e]) (simp add: KEY_BYTES_def empty_bucket_def)
qed

text \<open>For a pair that lives in a chain, \<open>get_item\<close> copies the right value out but reports
  through \<open>write_bytes\<close> the size of the table cell's value, another pair's.\<close>

theorem get_item_write_bytes:
  assumes "represents s f B" "hash_ok e k" "b_head (B (slot_of e k)) \<noteq> Some (k, u)"
    and "map_of (b_chain (B (slot_of e k))) (k, u) = Some v" "length v < n"
    and "b_value (B (slot_of e k)) = Some hv"
  shows "get_item e s k u n = ok \<lparr>get_ret = 0, out_value = Some v,
     write_bytes = Some (length hv + 1), get_errno = None\<rparr>"
  using get_item_on_bucket [OF assms(1,2), of u n] assms(3-) by (simp add: get_b_def)

definition bucket_ab :: bucket where
  "bucket_ab = \<lparr>b_head = Some (''a'', 1), b_value = Some ''x'', b_chain = [((''b'', 1), ''yy'')]\<rparr>"

lemma represents_ab:
  "represents store_ab ((\<lambda>_. [])(0 := [1])) ((\<lambda>_. empty_bucket)(0 := bucket_ab))"
proof (rule represents_update [OF represents_initial])
  show "bucket_at (cells store_ab) 0 [1] bucket_ab"
    by (simp add: bucket_at_def store_ab_def bucket_ab_def head_ident_def)
qed (auto simp: store_ab_def initial_store_def TABLE_SIZE_def)

lemma get_item_write_bytes_witness:
  "get_item colliding_env store_ab ''b'' 1 8 = ok \<lparr>get_ret = 0, out_value = Some ''yy'',
     write_bytes = Some 2, get_errno = None\<rparr>"
  using get_item_write_bytes [OF represents_ab, of colliding_env "''b''" 1 "''yy''" 8 "''x''"]
  by (simp add: bucket_ab_def hash_ok_def)

end
