(* ===== verification/ReadLine.thy ===== *)
theory ReadLine
  imports Prelude
begin

text \<open>
  The buffered line reader of \<open>c_examples/read_line.c\<close>.

  A pointer into the static buffer is an index, \<open>None\<close> the null pointer it holds before
  the first read and after \<open>memset\<close>. The caller's buffer is a list of characters of the
  length the caller promises, with the index \<open>buf\<close> points to; a store beyond its end is a
  fault. The system call \<open>read\<close> is a parameter on an opaque world: \<open>None\<close> is its error
  return, a list of characters what it delivers. \<open>read_line\<close> loops for as long as \<open>read\<close>
  delivers no newline, hence \<open>partial_function\<close>; that it returns is part of the theorems.
\<close>

section \<open>State\<close>

definition BUF_SIZE :: nat where
  "BUF_SIZE = 256"

record rlb_struct =
  rl_fd :: int
  rl_len :: nat
  next_char :: "nat option"
  end_char :: "nat option"
  rl_buffer :: string

definition rlb_zero :: rlb_struct where
  "rlb_zero = \<lparr>rl_fd = 0, rl_len = 0, next_char = None, end_char = None,
     rl_buffer = replicate BUF_SIZE (CHR 0x00)\<rparr>"

record line_out =
  out_buf :: string
  out_pos :: nat
  num_write :: nat

datatype rl_errno = RlInvalid | RlNoMemory

type_synonym 'w read_fn = "'w \<Rightarrow> int \<Rightarrow> nat \<Rightarrow> string option \<times> 'w"

section \<open>Operations\<close>

text \<open>\<open>*buf++ = c\<close> and \<open>*buf = '\0'\<close>.\<close>

definition put_char :: "char \<Rightarrow> line_out \<Rightarrow> line_out exec" where
  "put_char c o1 =
     (if out_pos o1 < length (out_buf o1)
      then ok (o1\<lparr>out_buf := (out_buf o1)[out_pos o1 := c], out_pos := out_pos o1 + 1\<rparr>)
      else abort BufferOverflow)"

definition end_line :: "line_out \<Rightarrow> line_out exec" where
  "end_line o1 =
     (if out_pos o1 < length (out_buf o1)
      then ok (o1\<lparr>out_buf := (out_buf o1)[out_pos o1 := CHR 0x00]\<rparr>)
      else abort BufferOverflow)"

definition read_line_buf_init ::
  "'w read_fn \<Rightarrow> int \<Rightarrow> rlb_struct \<Rightarrow> 'w \<Rightarrow> int \<times> rlb_struct \<times> 'w" where
  "read_line_buf_init rd fd rl w =
     (if fd \<le> -1 then (-1, rl, w)
      else
        (case rd w fd (BUF_SIZE - 1) of
           (None, w') \<Rightarrow> (-1, rlb_zero, w')
         | (Some bs, w') \<Rightarrow>
             (0, rlb_zero\<lparr>rl_fd := fd, rl_len := length bs, next_char := Some 0,
                  end_char := Some (length bs),
                  rl_buffer := bs @ drop (length bs) (rl_buffer rlb_zero)\<rparr>, w')))"

text \<open>
  The inner \<open>while\<close>: it returns from \<open>read_line\<close> at a newline (\<open>True\<close>), and ends when the
  static buffer is used up (\<open>False\<close>). Characters beyond the caller's buffer are dropped.
\<close>

function copy_line :: "nat \<Rightarrow> rlb_struct \<Rightarrow> line_out \<Rightarrow> (bool \<times> rlb_struct \<times> line_out) exec" where
  "copy_line n rl o1 =
     (if next_char rl = end_char rl then ok (False, rl, o1)
      else
        (case next_char rl of
           None \<Rightarrow> abort NullDeref
         | Some i \<Rightarrow>
             if length (rl_buffer rl) \<le> i then abort BufferOverflow
             else
               (let c = rl_buffer rl ! i; rl' = rl\<lparr>next_char := Some (i + 1)\<rparr> in
                if c = CHR 0x0A
                then and_then (put_char c o1) (\<lambda>o2.
                     and_then (end_line o2) (\<lambda>o3.
                       ok (True, rl', o3\<lparr>num_write := num_write o1 + 1\<rparr>)))
                else if num_write o1 < n - 2
                then and_then (put_char c o1) (\<lambda>o2.
                       copy_line n rl' (o2\<lparr>num_write := num_write o1 + 1\<rparr>))
                else copy_line n rl' o1)))"
  by pat_completeness auto
termination
  by (relation "measure (\<lambda>(n, rl, o1). length (rl_buffer rl) - the (next_char rl))") auto

declare copy_line.simps [simp del]

type_synonym 'w rl_result = "int \<times> rl_errno option \<times> rlb_struct \<times> line_out \<times> 'w"

text \<open>The outer \<open>while (true)\<close>, from the state \<open>(rlbuf, buffer, world)\<close>.\<close>

partial_function (option) read_loop ::
  "'w read_fn \<times> int \<times> nat \<Rightarrow> rlb_struct \<times> line_out \<times> 'w \<Rightarrow> (fault + 'w rl_result) option"
where
  "read_loop p st =
     (case p of (rd, fd, n) \<Rightarrow>
      (case st of (rl, o1, w) \<Rightarrow>
       (case (if next_char rl = end_char rl then read_line_buf_init rd fd rl w else (0, rl, w)) of
          (err, rl1, w1) \<Rightarrow>
            if err \<noteq> 0 then ok (-1, Some RlNoMemory, rl1, o1, w1)
            else if next_char rl = end_char rl \<and> next_char rl1 = end_char rl1
            then and_then (end_line o1) (\<lambda>o2. ok (int (num_write o2), None, rl1, o2, w1))
            else
              (case copy_line n rl1 o1 of
                 None \<Rightarrow> None
               | Some (Inl f) \<Rightarrow> abort f
               | Some (Inr (found, rl2, o2)) \<Rightarrow>
                   if found then ok (int (num_write o2), None, rl2, o2, w1)
                   else read_loop p (rl2, o2, w1)))))"

definition read_line ::
  "'w read_fn \<Rightarrow> int \<Rightarrow> rlb_struct \<Rightarrow> string option \<Rightarrow> nat \<Rightarrow> 'w \<Rightarrow>
   (int \<times> rl_errno option \<times> rlb_struct \<times> string option \<times> 'w) exec" where
  "read_line rd fd rl buffer buf_length w =
     (case buffer of
        None \<Rightarrow> ok (-1, Some RlInvalid, rl, buffer, w)
      | Some b \<Rightarrow>
          if buf_length \<le> 1 then ok (-1, Some RlInvalid, rl, buffer, w)
          else and_then (read_loop (rd, fd, buf_length)
                           (rl, \<lparr>out_buf = b, out_pos = 0, num_write = 0\<rparr>, w))
                 (\<lambda>(r, er, rl', o1, w'). ok (r, er, rl', Some (out_buf o1), w')))"

section \<open>The state between calls\<close>

text \<open>What the static buffer still holds.\<close>

definition pending :: "rlb_struct \<Rightarrow> string" where
  "pending rl =
     (case (next_char rl, end_char rl) of
        (Some i, Some j) \<Rightarrow> drop i (take j (rl_buffer rl))
      | _ \<Rightarrow> [])"

definition rlb_ok :: "rlb_struct \<Rightarrow> bool" where
  "rlb_ok rl \<longleftrightarrow> length (rl_buffer rl) = BUF_SIZE \<and>
     (case (next_char rl, end_char rl) of
        (None, None) \<Rightarrow> True
      | (Some i, Some j) \<Rightarrow> i \<le> j \<and> j < BUF_SIZE
      | _ \<Rightarrow> False)"

lemma rlb_ok_cases:
  assumes "rlb_ok rl"
  obtains "next_char rl = end_char rl" "pending rl = []"
  | i j where "next_char rl = Some i" "end_char rl = Some j" "i < j" "j < length (rl_buffer rl)"
      "pending rl = rl_buffer rl ! i # pending (rl\<lparr>next_char := Some (i + 1)\<rparr>)"
      "rlb_ok (rl\<lparr>next_char := Some (i + 1)\<rparr>)"
proof -
  consider "next_char rl = None" "end_char rl = None"
    | i where "next_char rl = Some i" "end_char rl = Some i"
    | i j where "next_char rl = Some i" "end_char rl = Some j" "i < j" "j < length (rl_buffer rl)"
    using assms by (cases "next_char rl"; cases "end_char rl") (auto simp: rlb_ok_def le_less)
  then show thesis
  proof cases
    case (3 i j)
    then have "pending rl = rl_buffer rl ! i # pending (rl\<lparr>next_char := Some (i + 1)\<rparr>)"
      using Cons_nth_drop_Suc [of i "take j (rl_buffer rl)"] by (simp add: pending_def)
    with 3 assms show thesis by (intro that(2)) (auto simp: rlb_ok_def)
  qed (use that(1) in \<open>auto simp: pending_def\<close>)
qed

lemma pending_empty: "rlb_ok rl \<Longrightarrow> pending rl = [] \<longleftrightarrow> next_char rl = end_char rl"
  by (rule rlb_ok_cases) auto

text \<open>The caller's buffer holds the text \<open>t\<close> so far.\<close>

definition holds :: "nat \<Rightarrow> line_out \<Rightarrow> string \<Rightarrow> bool" where
  "holds n o1 t \<longleftrightarrow> length (out_buf o1) = n \<and> out_pos o1 = length t \<and> num_write o1 = length t \<and>
     take (length t) (out_buf o1) = t"

lemma put_char_holds:
  assumes "holds n o1 t" "length t < n"
  obtains o2 where "put_char c o1 = ok o2" "holds n (o2\<lparr>num_write := num_write o1 + 1\<rparr>) (t @ [c])"
  using assms by (auto simp: put_char_def holds_def take_Suc_conv_app_nth)

text \<open>The terminated text a finished call leaves.\<close>

definition line_is :: "nat \<Rightarrow> line_out \<Rightarrow> string \<Rightarrow> bool" where
  "line_is n o1 t \<longleftrightarrow> length (out_buf o1) = n \<and> num_write o1 = length t \<and>
     take (length t + 1) (out_buf o1) = t @ [CHR 0x00]"

lemma end_line_holds:
  assumes "holds n o1 t" "length t < n"
  obtains o2 where "end_line o1 = ok o2" "line_is n o2 t"
  using assms by (auto simp: end_line_def holds_def line_is_def take_Suc_conv_app_nth)

section \<open>The inner loop\<close>

abbreviation newline :: char where
  "newline \<equiv> CHR 0x0A"

text \<open>The text kept when \<open>xs\<close> follows \<open>t\<close>: no more than leaves room for a newline and a zero.\<close>

definition fit :: "nat \<Rightarrow> string \<Rightarrow> string \<Rightarrow> string" where
  "fit n t xs = t @ take (n - 2 - length t) xs"

lemma fit_Nil [simp]: "fit n t [] = t"
  by (simp add: fit_def)

lemma fit_length: "length t \<le> n - 2 \<Longrightarrow> length (fit n t xs) \<le> n - 2"
  by (simp add: fit_def)

lemma fit_step:
  "fit n t (c # xs) = fit n (if length t < n - 2 then t @ [c] else t) xs"
  by (auto simp: fit_def take_Cons')

lemma fit_append: "fit n t (xs @ ys) = fit n (fit n t xs) ys"
  by (cases "length xs \<le> n - 2 - length t") (auto simp: fit_def min_def)

lemma fit_start: "fit n [] xs = take (n - 2) xs"
  by (simp add: fit_def)

text \<open>One character that is not a newline.\<close>

lemma copy_line_step:
  assumes "rlb_ok rl" "pending rl = c # xs" "c \<noteq> newline" "holds n o1 t" "2 \<le> n"
  obtains rl' o2 where "rlb_ok rl'" "pending rl' = xs" "copy_line n rl o1 = copy_line n rl' o2"
    "holds n o2 (if length t < n - 2 then t @ [c] else t)"
  using assms(1)
proof (cases rule: rlb_ok_cases)
  case 1
  with assms(2) show thesis by simp
next
  case (2 i j)
  have c: "rl_buffer rl ! i = c" "pending (rl\<lparr>next_char := Some (i + 1)\<rparr>) = xs"
    using 2(5) assms(2) by auto
  have num: "num_write o1 = length t" using assms(4) by (simp add: holds_def)
  show thesis
  proof (cases "length t < n - 2")
    case True
    then have "length t < n" by simp
    then obtain o2 where o2: "put_char c o1 = ok o2"
      "holds n (o2\<lparr>num_write := num_write o1 + 1\<rparr>) (t @ [c])"
      using put_char_holds [OF assms(4), where c = c] by metis
    have "copy_line n rl o1 =
      copy_line n (rl\<lparr>next_char := Some (i + 1)\<rparr>) (o2\<lparr>num_write := num_write o1 + 1\<rparr>)"
      using 2(1-4) c(1) assms(3) o2(1) True num
      by (subst copy_line.simps) (simp add: Let_def)
    from that [OF 2(6) c(2) this] o2(2) True show thesis by simp
  next
    case False
    have "copy_line n rl o1 = copy_line n (rl\<lparr>next_char := Some (i + 1)\<rparr>) o1"
      using 2(1-4) c(1) assms(3) False num by (subst copy_line.simps) (simp add: Let_def)
    from that [OF 2(6) c(2) this] assms(4) False show thesis by simp
  qed
qed

lemma copy_line_newline:
  assumes "rlb_ok rl" "pending rl = newline # xs" "holds n o1 t" "length t \<le> n - 2" "2 \<le> n"
  obtains rl' o2 where "rlb_ok rl'" "pending rl' = xs" "copy_line n rl o1 = ok (True, rl', o2)"
    "line_is n o2 (t @ [newline])"
  using assms(1)
proof (cases rule: rlb_ok_cases)
  case 1
  with assms(2) show thesis by simp
next
  case (2 i j)
  have c: "rl_buffer rl ! i = newline" "pending (rl\<lparr>next_char := Some (i + 1)\<rparr>) = xs"
    using 2(5) assms(2) by auto
  have len: "length t < n" "length (t @ [newline]) < n" using assms(4,5) by simp_all
  obtain o2 where o2: "put_char newline o1 = ok o2"
    "holds n (o2\<lparr>num_write := num_write o1 + 1\<rparr>) (t @ [newline])"
    using put_char_holds [OF assms(3) len(1), where c = newline] by metis
  obtain o3 where o3: "end_line (o2\<lparr>num_write := num_write o1 + 1\<rparr>) = ok o3"
    "line_is n o3 (t @ [newline])"
    using end_line_holds [OF o2(2) len(2)] by metis
  then have "end_line o2 = ok (o3\<lparr>num_write := num_write o2\<rparr>)"
    "o3\<lparr>num_write := num_write o1 + 1\<rparr> = o3"
    by (auto simp: end_line_def split: if_splits)
  then have "copy_line n rl o1 = ok (True, rl\<lparr>next_char := Some (i + 1)\<rparr>, o3)"
    using 2(1-4) c(1) o2(1) by (subst copy_line.simps) (simp add: Let_def)
  from that [OF 2(6) c(2) this o3(2)] show thesis .
qed

lemma copy_line_spec:
  assumes "rlb_ok rl" "holds n o1 t" "length t \<le> n - 2" "2 \<le> n"
  shows "(newline \<notin> set (pending rl) \<longrightarrow>
           (\<exists>rl' o2. copy_line n rl o1 = ok (False, rl', o2) \<and> rlb_ok rl' \<and> pending rl' = [] \<and>
              holds n o2 (fit n t (pending rl)))) \<and>
         (\<forall>xs ys. pending rl = xs @ newline # ys \<longrightarrow> newline \<notin> set xs \<longrightarrow>
           (\<exists>rl' o2. copy_line n rl o1 = ok (True, rl', o2) \<and> rlb_ok rl' \<and> pending rl' = ys \<and>
              line_is n o2 (fit n t xs @ [newline])))"
  using assms
proof (induction "pending rl" arbitrary: rl o1 t)
  case Nil
  then have "next_char rl = end_char rl" using pending_empty by metis
  then have "copy_line n rl o1 = ok (False, rl, o1)" by (simp add: copy_line.simps)
  with Nil show ?case by auto
next
  case (Cons c cs)
  show ?case
  proof (cases "c = newline")
    case True
    with Cons.hyps(2) obtain rl' o2 where "rlb_ok rl'" "pending rl' = cs"
      "copy_line n rl o1 = ok (True, rl', o2)" "line_is n o2 (t @ [newline])"
      using copy_line_newline [OF Cons.prems(1) _ Cons.prems(2-4)] by metis
    with True Cons.hyps(2) [symmetric] show ?thesis
      by (auto simp: Cons_eq_append_conv)
  next
    case False
    let ?t = "if length t < n - 2 then t @ [c] else t"
    obtain rl' o2 where s: "rlb_ok rl'" "pending rl' = cs" "copy_line n rl o1 = copy_line n rl' o2"
      "holds n o2 ?t"
      using copy_line_step [OF Cons.prems(1) Cons.hyps(2) [symmetric] False Cons.prems(2,4)] .
    have "length ?t \<le> n - 2" using Cons.prems(3) by simp
    from Cons.hyps(1) [OF s(2) [symmetric] s(1,4) this Cons.prems(4)] s(2,3) False
      Cons.hyps(2) [symmetric]
    show ?thesis by (auto simp: fit_step Cons_eq_append_conv)
  qed
qed

lemma copy_line_rest:
  assumes "rlb_ok rl" "holds n o1 t" "length t \<le> n - 2" "2 \<le> n" "newline \<notin> set (pending rl)"
  obtains rl' o2 where "copy_line n rl o1 = ok (False, rl', o2)" "rlb_ok rl'" "pending rl' = []"
    "holds n o2 (fit n t (pending rl))"
  using copy_line_spec [OF assms(1-4)] assms(5) by metis

lemma copy_line_found:
  assumes "rlb_ok rl" "holds n o1 t" "length t \<le> n - 2" "2 \<le> n"
    "pending rl = xs @ newline # ys" "newline \<notin> set xs"
  obtains rl' o2 where "copy_line n rl o1 = ok (True, rl', o2)" "rlb_ok rl'" "pending rl' = ys"
    "line_is n o2 (fit n t xs @ [newline])"
  using copy_line_spec [OF assms(1-4)] assms(5,6) by metis

section \<open>The outer loop\<close>

text \<open>
  What the reader relies on when no read fails: each call delivers a piece, of at most the
  size asked for, of the input \<open>rest w\<close> that the descriptor still has, and an empty piece
  only at its end.
\<close>

definition delivers :: "'w read_fn \<Rightarrow> int \<Rightarrow> ('w \<Rightarrow> string) \<Rightarrow> bool" where
  "delivers rd fd rest \<longleftrightarrow>
     (\<forall>w n. 0 < n \<longrightarrow>
        (\<exists>bs w'. rd w fd n = (Some bs, w') \<and> length bs \<le> n \<and> rest w = bs @ rest w' \<and>
                (bs = [] \<longrightarrow> rest w = [])))"

lemma refill:
  assumes "delivers rd fd rest" "0 \<le> fd"
  obtains rl1 w1 where "read_line_buf_init rd fd rl w = (0, rl1, w1)" "rlb_ok rl1"
    "rest w = pending rl1 @ rest w1" "pending rl1 = [] \<Longrightarrow> rest w = []"
proof -
  have "0 < BUF_SIZE - 1" by (simp add: BUF_SIZE_def)
  with assms(1) obtain bs w1 where "rd w fd (BUF_SIZE - 1) = (Some bs, w1)"
    "length bs \<le> BUF_SIZE - 1" "rest w = bs @ rest w1" "bs = [] \<longrightarrow> rest w = []"
    unfolding delivers_def by blast
  with assms(2) show thesis
    by (intro that)
       (auto simp: read_line_buf_init_def rlb_ok_def pending_def rlb_zero_def BUF_SIZE_def)
qed

lemma read_loop_refill:
  assumes "next_char rl = end_char rl" "read_line_buf_init rd fd rl w = (0, rl1, w1)"
    "next_char rl1 \<noteq> end_char rl1"
  shows "read_loop (rd, fd, n) (rl, o1, w) = read_loop (rd, fd, n) (rl1, o1, w1)"
  using assms by (subst (1 2) read_loop.simps) simp

lemma read_loop_eof:
  assumes "next_char rl = end_char rl" "read_line_buf_init rd fd rl w = (0, rl1, w1)"
    "next_char rl1 = end_char rl1" "end_line o1 = ok o2"
  shows "read_loop (rd, fd, n) (rl, o1, w) = ok (int (num_write o2), None, rl1, o2, w1)"
  using assms by (subst read_loop.simps) simp

lemma read_loop_copy:
  assumes "next_char rl \<noteq> end_char rl" "copy_line n rl o1 = ok (found, rl2, o2)"
  shows "read_loop (rd, fd, n) (rl, o1, w) =
    (if found then ok (int (num_write o2), None, rl2, o2, w)
     else read_loop (rd, fd, n) (rl2, o2, w))"
  using assms by (subst read_loop.simps) (simp add: ok_def)

text \<open>The first line of an input, and what follows it.\<close>

definition first_line :: "nat \<Rightarrow> string \<Rightarrow> string \<Rightarrow> string" where
  "first_line n t xs =
     fit n t (takeWhile (\<lambda>c. c \<noteq> newline) xs) @ (if newline \<in> set xs then [newline] else [])"

definition after_line :: "string \<Rightarrow> string" where
  "after_line xs = tl (dropWhile (\<lambda>c. c \<noteq> newline) xs)"

lemma line_split:
  "newline \<notin> set xs \<Longrightarrow> first_line n t (xs @ newline # ys) = fit n t xs @ [newline]"
  "newline \<notin> set xs \<Longrightarrow> after_line (xs @ newline # ys) = ys"
  "newline \<notin> set xs \<Longrightarrow> first_line n t (xs @ zs) = first_line n (fit n t xs) zs"
  "newline \<notin> set xs \<Longrightarrow> after_line (xs @ zs) = after_line zs"
  "first_line n t [] = t" "after_line [] = []"
  by (auto simp: first_line_def after_line_def fit_append takeWhile_append dropWhile_append)

text \<open>The result of the loop from line \<open>o1\<close> with the text \<open>t\<close> and the input that is left.\<close>

definition loop_result ::
  "'a read_fn \<Rightarrow> int \<Rightarrow> nat \<Rightarrow> ('a \<Rightarrow> string) \<Rightarrow> rlb_struct \<Rightarrow> line_out \<Rightarrow> 'a \<Rightarrow> string \<Rightarrow> bool" where
  "loop_result rd fd n rest rl o1 w t \<longleftrightarrow>
     (\<exists>rl' o2 w'. read_loop (rd, fd, n) (rl, o1, w) = ok (int (num_write o2), None, rl', o2, w') \<and>
        rlb_ok rl' \<and> line_is n o2 (first_line n t (pending rl @ rest w)) \<and>
        pending rl' @ rest w' = after_line (pending rl @ rest w))"

text \<open>A pass that copies at least one character.\<close>

lemma read_loop_copied:
  assumes "2 \<le> n" "holds n o1 t" "length t \<le> n - 2" "rlb_ok rl1" "pending rl1 \<noteq> []"
    and run: "read_loop (rd, fd, n) (rl, o1, w) = read_loop (rd, fd, n) (rl1, o1, w1)"
    and input: "pending rl @ rest w = pending rl1 @ rest w1"
    and later: "\<And>rl2 o2 t2. length (pending rl2 @ rest w1) < length (pending rl @ rest w) \<Longrightarrow> rlb_ok rl2 \<Longrightarrow>
      holds n o2 t2 \<Longrightarrow> length t2 \<le> n - 2 \<Longrightarrow> loop_result rd fd n rest rl2 o2 w1 t2"
  shows "loop_result rd fd n rest rl o1 w t"
proof (cases "newline \<in> set (pending rl1)")
  case True
  then obtain xs ys where xs: "pending rl1 = xs @ newline # ys" "newline \<notin> set xs"
    using split_list_first by metis
  obtain rl2 o2 where o2: "copy_line n rl1 o1 = ok (True, rl2, o2)" "rlb_ok rl2"
    "pending rl2 = ys" "line_is n o2 (fit n t xs @ [newline])"
    by (rule copy_line_found [OF assms(4,2,3,1) xs])
  have "next_char rl1 \<noteq> end_char rl1" using assms(4,5) pending_empty by metis
  from read_loop_copy [OF this o2(1), of rd fd w1] run o2 xs show ?thesis
    by (auto simp: loop_result_def input line_split(1,2))
next
  case False
  obtain rl2 o2 where o2: "copy_line n rl1 o1 = ok (False, rl2, o2)" "rlb_ok rl2"
    "pending rl2 = []" "holds n o2 (fit n t (pending rl1))"
    by (rule copy_line_rest [OF assms(4,2,3,1) False])
  have "next_char rl1 \<noteq> end_char rl1" using assms(4,5) pending_empty by metis
  note eq = read_loop_copy [OF this o2(1), of rd fd w1]
  have "length (pending rl2 @ rest w1) < length (pending rl @ rest w)"
    using assms(5) o2(3) by (simp add: input)
  from later [OF this o2(2,4) fit_length [OF assms(3)]] eq run False o2(3)
  show ?thesis by (simp add: loop_result_def input line_split)
qed

lemma read_loop_result:
  assumes "delivers rd fd rest" "0 \<le> fd" "2 \<le> n"
    and "rlb_ok rl" "holds n o1 t" "length t \<le> n - 2"
  shows "loop_result rd fd n rest rl o1 w t"
  using assms(4-)
proof (induction "length (pending rl @ rest w)" arbitrary: rl o1 t w rule: less_induct)
  case less
  note copied = read_loop_copied [where rest = rest and rl = rl and w = w, OF assms(3) less.prems(2,3) _ _ _ _ less.hyps]
  show ?case
  proof (cases "pending rl = []")
    case False
    then show ?thesis using less.prems(1) by (intro copied) auto
  next
    case True
    then have next_eq: "next_char rl = end_char rl" using less.prems(1) pending_empty by metis
    obtain rl1 w1 where r: "read_line_buf_init rd fd rl w = (0, rl1, w1)" "rlb_ok rl1"
      "rest w = pending rl1 @ rest w1" "pending rl1 = [] \<Longrightarrow> rest w = []"
      by (rule refill [OF assms(1,2), where rl = rl and w = w]) (rule that, assumption+)
    show ?thesis
    proof (cases "pending rl1 = []")
      case False
      then have "next_char rl1 \<noteq> end_char rl1" using r(2) pending_empty by metis
      from copied [OF r(2) False read_loop_refill [OF next_eq r(1) this]] r(3) True
      show ?thesis by simp
    next
      case eof: True
      then have e: "next_char rl1 = end_char rl1" using r(2) pending_empty by metis
      have "length t < n" using less.prems(3) assms(3) by simp
      then obtain o2 where o2: "end_line o1 = ok o2" "line_is n o2 t"
        using end_line_holds [OF less.prems(2)] by metis
      from read_loop_eof [OF next_eq r(1) e o2(1), of n] o2(2) r True eof show ?thesis
        by (auto simp: loop_result_def line_split)
    qed
  qed
qed

lemmas read_loop_spec = read_loop_result [unfolded loop_result_def]

section \<open>Safety for any descriptor\<close>

text \<open>
  Whatever \<open>read\<close> answers, as long as it fills no more than it was asked to: the reader
  never stores outside the caller's buffer or outside its own, and never follows a null
  pointer. (It need not return: a descriptor that never delivers a newline or an end of
  input keeps it reading.)
\<close>

definition bounded_reads :: "'w read_fn \<Rightarrow> bool" where
  "bounded_reads rd \<longleftrightarrow> (\<forall>w fd n bs w'. rd w fd n = (Some bs, w') \<longrightarrow> length bs \<le> n)"

lemma init_ok:
  assumes "bounded_reads rd" "rlb_ok rl" "read_line_buf_init rd fd rl w = (r, rl', w')"
  shows "rlb_ok rl'"
proof -
  have "length bs \<le> BUF_SIZE - 1" if "rd w fd (BUF_SIZE - 1) = (Some bs, w')" for bs w'
    by (rule assms(1) [unfolded bounded_reads_def, rule_format, OF that])
  with assms(2,3) show ?thesis
    by (fastforce simp: read_line_buf_init_def rlb_ok_def rlb_zero_def BUF_SIZE_def
        split: if_splits prod.splits option.splits)
qed

lemma copy_line_safe:
  assumes "rlb_ok rl" "holds n o1 t" "length t \<le> n - 2" "2 \<le> n"
  shows "\<exists>found rl' o2. copy_line n rl o1 = ok (found, rl', o2) \<and> rlb_ok rl' \<and>
    length (out_buf o2) = n \<and> (\<not> found \<longrightarrow> (\<exists>t'. holds n o2 t' \<and> length t' \<le> n - 2))"
proof (cases "newline \<in> set (pending rl)")
  case True
  then obtain xs ys where xs: "pending rl = xs @ newline # ys" "newline \<notin> set xs"
    using split_list_first by metis
  obtain rl2 o2 where "copy_line n rl o1 = ok (True, rl2, o2)" "rlb_ok rl2"
    "line_is n o2 (fit n t xs @ [newline])"
    by (rule copy_line_found [OF assms xs])
  then show ?thesis by (auto simp: line_is_def)
next
  case False
  obtain rl2 o2 where "copy_line n rl o1 = ok (False, rl2, o2)" "rlb_ok rl2"
    "holds n o2 (fit n t (pending rl))"
    by (rule copy_line_rest [OF assms False])
  with fit_length [OF assms(3)] show ?thesis by (auto simp: holds_def)
qed

definition safe_run ::
  "'w read_fn \<times> int \<times> nat \<Rightarrow> rlb_struct \<times> line_out \<times> 'w \<Rightarrow> fault + 'w rl_result \<Rightarrow> bool" where
  "safe_run p st y \<longleftrightarrow>
     (\<forall>rd fd n rl o1 w t. p = (rd, fd, n) \<longrightarrow> st = (rl, o1, w) \<longrightarrow> bounded_reads rd \<longrightarrow> 2 \<le> n \<longrightarrow>
       rlb_ok rl \<longrightarrow> holds n o1 t \<longrightarrow> length t \<le> n - 2 \<longrightarrow>
       (\<exists>r er rl' o2 w'. y = Inr (r, er, rl', o2, w') \<and> rlb_ok rl' \<and> length (out_buf o2) = n))"

lemma read_loop_safe:
  assumes "read_loop p st = Some y"
  shows "safe_run p st y"
proof (rule read_loop.raw_induct [of safe_run _ _ y])
  show "read_loop p st = Some y" by fact
next
  fix loop :: "'a read_fn \<times> int \<times> nat \<Rightarrow> rlb_struct \<times> line_out \<times> 'a \<Rightarrow> (fault + 'a rl_result) option"
    and p st y
  assume hyp: "\<And>p st y. loop p st = Some y \<Longrightarrow> safe_run p st y"
    and run: "(case p of (rd, fd, n) \<Rightarrow>
      (case st of (rl, o1, w) \<Rightarrow>
       (case (if next_char rl = end_char rl then read_line_buf_init rd fd rl w else (0, rl, w)) of
          (err, rl1, w1) \<Rightarrow>
            if err \<noteq> 0 then ok (-1, Some RlNoMemory, rl1, o1, w1)
            else if next_char rl = end_char rl \<and> next_char rl1 = end_char rl1
            then and_then (end_line o1) (\<lambda>o2. ok (int (num_write o2), None, rl1, o2, w1))
            else
              (case copy_line n rl1 o1 of
                 None \<Rightarrow> None
               | Some (Inl f) \<Rightarrow> abort f
               | Some (Inr (found, rl2, o2)) \<Rightarrow>
                   if found then ok (int (num_write o2), None, rl2, o2, w1)
                   else loop p (rl2, o2, w1))))) = Some y"
  show "safe_run p st y"
    unfolding safe_run_def
  proof (intro allI impI)
    fix rd fd n rl o1 w t
    assume p: "p = (rd, fd, n)" and st: "st = (rl, o1, w)" and rd: "bounded_reads rd"
      and n: "2 \<le> n" and rl: "rlb_ok rl" and o1: "holds n o1 t" and t: "length t \<le> n - 2"
    obtain err rl1 w1 where i: "(if next_char rl = end_char rl
      then read_line_buf_init rd fd rl w else (0, rl, w)) = (err, rl1, w1)"
      by (metis surj_pair)
    then have rl1: "rlb_ok rl1"
      using init_ok [OF rd rl] rl by (auto split: if_splits)
    have o1n: "length (out_buf o1) = n" using o1 by (simp add: holds_def)
    have "length t < n" using n t by simp
    then obtain o3 where o3: "end_line o1 = ok o3" "line_is n o3 t"
      using end_line_holds [OF o1] by metis
    obtain found rl2 o2 where c: "copy_line n rl1 o1 = ok (found, rl2, o2)" "rlb_ok rl2"
      "length (out_buf o2) = n" "\<not> found \<longrightarrow> (\<exists>t'. holds n o2 t' \<and> length t' \<le> n - 2)"
      using copy_line_safe [OF rl1 o1 t n] by metis
    show "\<exists>r er rl' o2 w'. y = Inr (r, er, rl', o2, w') \<and> rlb_ok rl' \<and> length (out_buf o2) = n"
    proof (cases "err \<noteq> 0 \<or> next_char rl = end_char rl \<and> next_char rl1 = end_char rl1 \<or> found")
      case True
      with run i rl1 o1n o3 c show ?thesis
        by (auto simp: p st ok_def line_is_def split: if_splits)
    next
      case False
      then have "loop (rd, fd, n) (rl2, o2, w1) = Some y"
        using run i c(1) by (auto simp: p st ok_def)
      then have "safe_run (rd, fd, n) (rl2, o2, w1) y" by (rule hyp)
      then show ?thesis using rd n c(2,4) False unfolding safe_run_def by blast
    qed
  qed
qed

section \<open>Properties\<close>

text \<open>A descriptor on a string, the simplest input.\<close>

definition string_read :: "string read_fn" where
  "string_read w fd n = (Some (take n w), drop n w)"

lemma delivers_string: "delivers string_read fd (\<lambda>w. w)"
  by (auto simp: delivers_def string_read_def)

lemma bounded_string: "bounded_reads string_read"
  by (auto simp: bounded_reads_def string_read_def)

lemma rlb_ok_zero: "rlb_ok rlb_zero" "pending rlb_zero = []"
  by (simp_all add: rlb_ok_def rlb_zero_def pending_def)

lemma holds_start: "length b = n \<Longrightarrow> holds n \<lparr>out_buf = b, out_pos = 0, num_write = 0\<rparr> []"
  by (simp add: holds_def)

text \<open>C6: On a descriptor whose reads succeed, \<open>read_line\<close> with a buffer of at least two bytes
  returns the first line of what is left of the input, cut to the buffer's size less two
  and followed by its newline if it has one, terminated by a zero; it returns the length
  of that text. What is left afterwards, in the static buffer and behind the descriptor,
  is the input after that line. At the end of the input it returns 0.\<close>

theorem read_line_correct:
  assumes "delivers rd fd rest" "0 \<le> fd" "2 \<le> n" "rlb_ok rl" "length b = n"
  shows "\<exists>rl' b' w'. read_line rd fd rl (Some b) n w =
      ok (int (length (first_line n [] (pending rl @ rest w))), None, rl', Some b', w') \<and>
    rlb_ok rl' \<and> length b' = n \<and>
    take (length (first_line n [] (pending rl @ rest w)) + 1) b' =
      first_line n [] (pending rl @ rest w) @ [CHR 0x00] \<and>
    pending rl' @ rest w' = after_line (pending rl @ rest w)"
proof -
  obtain rl' o2 w' where "read_loop (rd, fd, n) (rl, \<lparr>out_buf = b, out_pos = 0, num_write = 0\<rparr>, w) =
      ok (int (num_write o2), None, rl', o2, w')" "rlb_ok rl'"
    "line_is n o2 (first_line n [] (pending rl @ rest w))"
    "pending rl' @ rest w' = after_line (pending rl @ rest w)"
    using read_loop_spec [OF assms(1-4) holds_start [OF assms(5)], of w] by auto
  with assms(3) show ?thesis
    by (intro exI [of _ rl'] exI [of _ "out_buf o2"] exI [of _ w'])
       (simp add: read_line_def line_is_def)
qed

lemma read_line_correct_witness:
  "\<exists>rl' b' w'. read_line string_read 3 rlb_zero (Some ''........'') 8 (''ab'' @ [newline] @ ''c'') =
      ok (3, None, rl', Some b', w') \<and> take 4 b' = ''ab'' @ [newline, CHR 0x00] \<and>
      pending rl' @ w' = ''c''"
  using read_line_correct [OF delivers_string, of 3 8 rlb_zero "''........''" "''ab'' @ [newline] @ ''c''"]
  by (auto simp: rlb_ok_zero first_line_def fit_def after_line_def eval_nat_numeral)

text \<open>Calling \<open>read_line\<close> \<open>m\<close> times, each time with a new buffer.\<close>

fun read_times ::
  "nat \<Rightarrow> 'w read_fn \<Rightarrow> int \<Rightarrow> nat \<Rightarrow> rlb_struct \<Rightarrow> 'w \<Rightarrow> string list exec" where
  "read_times 0 rd fd n rl w = ok []"
| "read_times (Suc m) rd fd n rl w =
     and_then (read_line rd fd rl (Some (replicate n (CHR 0x00))) n w) (\<lambda>(r, er, rl', b, w').
     case b of
       None \<Rightarrow> ok []
     | Some b' \<Rightarrow> and_then (read_times m rd fd n rl' w') (\<lambda>ts. ok (take (nat r) b' # ts)))"

fun input_lines :: "nat \<Rightarrow> nat \<Rightarrow> string \<Rightarrow> string list" where
  "input_lines 0 n xs = []"
| "input_lines (Suc m) n xs = first_line n [] xs # input_lines m n (after_line xs)"

text \<open>Calling \<open>read_line\<close> again and again on one descriptor returns the lines of its input
  one after the other, none lost and none repeated at the borders of the 255-byte reads.\<close>

theorem read_line_repeated:
  assumes "delivers rd fd rest" "0 \<le> fd" "2 \<le> n" "rlb_ok rl"
  shows "read_times m rd fd n rl w = ok (input_lines m n (pending rl @ rest w))"
  using assms(4)
proof (induction m arbitrary: rl w)
  case 0
  then show ?case by simp
next
  case (Suc m)
  let ?line = "first_line n [] (pending rl @ rest w)"
  obtain rl' b' w' where run: "read_line rd fd rl (Some (replicate n (CHR 0x00))) n w =
      ok (int (length ?line), None, rl', Some b', w')" "rlb_ok rl'"
    "take (length ?line + 1) b' = ?line @ [CHR 0x00]"
    "pending rl' @ rest w' = after_line (pending rl @ rest w)"
    using read_line_correct [OF assms(1-3) Suc.prems, of "replicate n (CHR 0x00)" w] by auto
  have "take (length ?line) b' = take (length ?line) (take (length ?line + 1) b')" by simp
  also have "\<dots> = ?line" unfolding run(3) by simp
  finally show ?case using run Suc.IH [OF run(2), of w'] by simp
qed

lemma read_line_repeated_witness:
  "read_times 3 string_read 3 8 rlb_zero (''ab'' @ [newline] @ ''c'') =
     ok [''ab'' @ [newline], ''c'', []]"
  using read_line_repeated [OF delivers_string, of 3 8 rlb_zero 3 "''ab'' @ [newline] @ ''c''"]
  by (simp add: rlb_ok_zero first_line_def fit_def after_line_def numeral_3_eq_3)

text \<open>C32: Whatever the calls of \<open>read\<close> deliver, \<open>read_line\<close> never stores outside the caller's
  buffer of \<open>buf_length\<close> bytes or its own, and never follows a null pointer.\<close>

theorem read_line_safe:
  assumes "bounded_reads rd" "rlb_ok rl" "case b of None \<Rightarrow> True | Some bs \<Rightarrow> length bs = n"
  shows "read_line rd fd rl b n w \<noteq> abort f"
proof (cases "b = None \<or> n \<le> 1")
  case True
  then show ?thesis by (auto simp: read_line_def split: option.splits)
next
  case False
  then obtain bs where b: "b = Some bs" "length bs = n" "2 \<le> n" using assms(3) by auto
  let ?st = "(rl, \<lparr>out_buf = bs, out_pos = 0, num_write = 0\<rparr>, w)"
  show ?thesis
  proof (cases "read_loop (rd, fd, n) ?st")
    case None
    with b show ?thesis by (simp add: read_line_def)
  next
    case (Some y)
    from read_loop_safe [OF this] assms(1,2) b(3) holds_start [OF b(2)] obtain r er rl' o2 w'
      where "y = Inr (r, er, rl', o2, w')"
      unfolding safe_run_def by (metis le0 list.size(3))
    with b Some show ?thesis by (simp add: read_line_def ok_def [symmetric])
  qed
qed

lemma read_line_safe_witness:
  "read_line string_read 3 rlb_zero (Some ''xx'') 2 ''abc'' \<noteq> abort BufferOverflow"
  by (rule read_line_safe [OF bounded_string rlb_ok_zero(1)]) simp

text \<open>The static buffer is shared by all descriptors. Once a call has left a whole line in
  it, the next call returns that line whatever descriptor it is given, without reading:
  the descriptor recorded with the buffer is never compared with the argument.\<close>

theorem read_line_ignores_descriptor:
  assumes "rlb_ok rl" "newline \<in> set (pending rl)" "2 \<le> n" "length b = n"
  shows "\<exists>rl' b'. \<forall>fd. read_line rd fd rl (Some b) n w =
    ok (int (length (first_line n [] (pending rl))), None, rl', Some b', w)"
proof -
  obtain xs ys where xs: "pending rl = xs @ newline # ys" "newline \<notin> set xs"
    using split_list_first [OF assms(2)] by blast
  obtain rl' o2 where c: "copy_line n rl \<lparr>out_buf = b, out_pos = 0, num_write = 0\<rparr> = ok (True, rl', o2)"
    "line_is n o2 (fit n [] xs @ [newline])"
    by (rule copy_line_found [OF assms(1) holds_start [OF assms(4)] _ assms(3) xs]) auto
  have "next_char rl \<noteq> end_char rl"
    using xs(1) pending_empty [OF assms(1)] by auto
  from read_loop_copy [OF this c(1), of rd _ w] c(2) assms(3) show ?thesis
    by (intro exI [of _ rl'] exI [of _ "out_buf o2"])
       (simp add: read_line_def line_is_def xs(1) line_split(1) [OF xs(2)])
qed

definition two_lines :: rlb_struct where
  "two_lines = rlb_zero\<lparr>rl_fd := 3, rl_len := 2, next_char := Some 0, end_char := Some 2,
     rl_buffer := ''a'' @ [newline] @ replicate 254 (CHR 0x00)\<rparr>"

lemma read_line_ignores_descriptor_witness:
  "\<exists>rl' b'. \<forall>fd. read_line string_read fd two_lines (Some ''....'') 4 ''other input'' =
    ok (2, None, rl', Some b', ''other input'')"
proof -
  have "rlb_ok two_lines" "pending two_lines = ''a'' @ [newline]"
    by (simp_all add: rlb_ok_def two_lines_def pending_def BUF_SIZE_def)
  with read_line_ignores_descriptor [of two_lines 4 "''....''" string_read "''other input''"]
  show ?thesis by (simp add: first_line_def fit_def)
qed

end
