(* ===== verification/Machine.thy ===== *)
theory Machine
  imports Prelude "HOL-Library.State_Monad"
begin

text \<open>
  Code that calls an operating system. A program is a computation of the state monad over
  a machine: the variables of the program, the history of its calls to the system (newest
  first), and the fault it has met, if any. What a call returns is a function of the
  history before it, given by the system, a parameter of the model; so the model covers
  every behaviour of the system, including failures at any call. After a fault the machine
  stands still: no later step changes its variables or its history.

  The lemmas are two calculi over such programs. \<open>keeps f m\<close>: the program leaves the view
  \<open>f\<close> of the variables as it was. \<open>weighs \<mu> m n\<close>: a run without a fault adds \<open>n a\<close> to the sum of
  the weights \<open>\<mu>\<close> of the history's events, where \<open>a\<close> is the value it returns. With weight
  1 for an acquisition and -1 for a release, a sum of 0 says that the two balance.
\<close>

section \<open>Machines and programs\<close>

record ('e, 'd) machine =
  history :: "'e list"
  fault :: "fault option"
  vars :: 'd

type_synonym ('e, 'd, 'a) prog = "(('e, 'd) machine, 'a) state"

definition step :: "(('e, 'd) machine \<Rightarrow> ('e, 'd) machine) \<Rightarrow> ('e, 'd, unit) prog" where
  "step f = State (\<lambda>w. ((), if fault w = None then f w else w))"

definition emit :: "'e \<Rightarrow> ('e, 'd, unit) prog" where
  "emit e = step (\<lambda>w. w\<lparr>history := e # history w\<rparr>)"

definition modify :: "('d \<Rightarrow> 'd) \<Rightarrow> ('e, 'd, unit) prog" where
  "modify f = step (\<lambda>w. w\<lparr>vars := f (vars w)\<rparr>)"

definition crash :: "fault \<Rightarrow> ('e, 'd, unit) prog" where
  "crash f = step (\<lambda>w. w\<lparr>fault := Some f\<rparr>)"

definition reads :: "('d \<Rightarrow> 'a) \<Rightarrow> ('e, 'd, 'a) prog" where
  "reads g = State (\<lambda>w. (g (vars w), w))"

text \<open>What the system answers, and a call: its answer is recorded with it.\<close>

definition ask :: "('e list \<Rightarrow> 'a) \<Rightarrow> ('e, 'd, 'a) prog" where
  "ask q = State (\<lambda>w. (q (history w), w))"

definition call :: "('e list \<Rightarrow> 'a) \<Rightarrow> ('a \<Rightarrow> 'e) \<Rightarrow> ('e, 'd, 'a) prog" where
  "call q ev = do { a \<leftarrow> ask q; emit (ev a); State_Monad.return a }"

abbreviation ret :: "'a \<Rightarrow> ('e, 'd, 'a) prog" where
  "ret \<equiv> State_Monad.return"

definition skip :: "('e, 'd, unit) prog" where
  "skip = ret ()"

definition whenever :: "bool \<Rightarrow> ('e, 'd, unit) prog \<Rightarrow> ('e, 'd, unit) prog" where
  "whenever b m = (if b then m else skip)"

fun for_each :: "'x list \<Rightarrow> ('x \<Rightarrow> ('e, 'd, unit) prog) \<Rightarrow> ('e, 'd, unit) prog" where
  "for_each [] f = skip"
| "for_each (x # xs) f = do { f x; for_each xs f }"

lemma run_simps [simp]:
  "run_state (step f) w = ((), if fault w = None then f w else w)"
  "run_state (reads g) w = (g (vars w), w)"
  "run_state (ask q) w = (q (history w), w)"
  "run_state skip w = ((), w)"
  by (simp_all add: step_def reads_def ask_def skip_def)

lemma run_emit [simp]:
  "run_state (emit e) w = ((), if fault w = None then w\<lparr>history := e # history w\<rparr> else w)"
  by (simp add: emit_def)

lemma run_modify [simp]:
  "run_state (modify f) w = ((), if fault w = None then w\<lparr>vars := f (vars w)\<rparr> else w)"
  by (simp add: modify_def)

lemma run_crash [simp]:
  "run_state (crash f) w = ((), if fault w = None then w\<lparr>fault := Some f\<rparr> else w)"
  by (simp add: crash_def)

lemma run_call [simp]:
  "run_state (call q ev) w =
     (q (history w), if fault w = None then w\<lparr>history := ev (q (history w)) # history w\<rparr> else w)"
  by (simp add: call_def)

text \<open>Running a computation that may fault or loop for ever; the default is never used.\<close>

definition perform :: "'a \<Rightarrow> 'a exec \<Rightarrow> ('e, 'd, 'a) prog" where
  "perform d x =
     (case x of
        None \<Rightarrow> do { crash NoReturn; ret d }
      | Some (Inl f) \<Rightarrow> do { crash f; ret d }
      | Some (Inr a) \<Rightarrow> ret a)"

lemma perform_simps [simp]:
  "perform d (ok a) = ret a"
  "perform d (abort f) = do { crash f; ret d }"
  by (simp_all add: perform_def ok_def abort_def)

section \<open>Views that a program keeps\<close>

named_theorems keeps_intro "rules for keeps"

definition keeps :: "('d \<Rightarrow> 'b) \<Rightarrow> ('e, 'd, 'a) prog \<Rightarrow> bool" where
  "keeps f m \<longleftrightarrow> (\<forall>w. f (vars (snd (run_state m w))) = f (vars w))"

lemma keepsD: "keeps f m \<Longrightarrow> run_state m w = (a, w') \<Longrightarrow> f (vars w') = f (vars w)"
  by (metis keeps_def snd_conv)

lemma keeps_return [keeps_intro]: "keeps f (ret a)"
  by (simp add: keeps_def)

lemma keeps_bind [keeps_intro]:
  "keeps f m \<Longrightarrow> (\<And>a. keeps f (k a)) \<Longrightarrow> keeps f (State_Monad.bind m k)"
  by (auto simp: keeps_def split: prod.splits) (metis snd_conv)

lemma keeps_primitive [keeps_intro]:
  "keeps f (emit e)" "keeps f (crash x)" "keeps f (reads g)" "keeps f (ask q)"
  "keeps f (call q ev)" "keeps f skip"
  by (simp_all add: keeps_def)

lemma keeps_modify [keeps_intro]: "(\<And>d. f (g d) = f d) \<Longrightarrow> keeps f (modify g)"
  by (simp add: keeps_def)

lemma keeps_if [keeps_intro]: "keeps f m \<Longrightarrow> keeps f n \<Longrightarrow> keeps f (if b then m else n)"
  by simp

lemma keeps_whenever [keeps_intro]: "keeps f m \<Longrightarrow> keeps f (whenever b m)"
  by (simp add: whenever_def keeps_primitive)

lemma keeps_option [keeps_intro]:
  "keeps f m \<Longrightarrow> (\<And>x. keeps f (k x)) \<Longrightarrow> keeps f (case p of None \<Rightarrow> m | Some x \<Rightarrow> k x)"
  by (cases p) auto

lemma keeps_prod [keeps_intro]:
  "(\<And>x y. keeps f (k x y)) \<Longrightarrow> keeps f (case p of (x, y) \<Rightarrow> k x y)"
  by (cases p) auto

lemma keeps_for_each [keeps_intro]: "(\<And>x. keeps f (g x)) \<Longrightarrow> keeps f (for_each xs g)"
  by (induction xs) (auto intro: keeps_intro)

lemma keeps_Let [keeps_intro]: "(\<And>x. keeps f (k x)) \<Longrightarrow> keeps f (Let v k)"
  by simp

section \<open>Weights of the history\<close>

named_theorems weighs_intro "rules for weighs"

definition total :: "('e \<Rightarrow> int) \<Rightarrow> ('e, 'd) machine \<Rightarrow> int" where
  "total \<mu> w = sum_list (map \<mu> (history w))"

lemma total_simps [simp]:
  "total \<mu> (w\<lparr>history := e # history w\<rparr>) = \<mu> e + total \<mu> w"
  "total \<mu> (w\<lparr>vars := d\<rparr>) = total \<mu> w"
  "total \<mu> (w\<lparr>fault := x\<rparr>) = total \<mu> w"
  by (simp_all add: total_def)

definition weighs :: "('e \<Rightarrow> int) \<Rightarrow> ('e, 'd, 'a) prog \<Rightarrow> ('a \<Rightarrow> int) \<Rightarrow> bool" where
  "weighs \<mu> m n \<longleftrightarrow>
     (\<forall>w a w'. run_state m w = (a, w') \<longrightarrow>
        (fault w \<noteq> None \<longrightarrow> w' = w) \<and> (fault w' = None \<longrightarrow> total \<mu> w' = total \<mu> w + n a))"

lemma weighsD:
  assumes "weighs \<mu> m n" "run_state m w = (a, w')"
  shows "fault w \<noteq> None \<Longrightarrow> w' = w" "fault w' = None \<Longrightarrow> total \<mu> w' = total \<mu> w + n a"
  using assms by (auto simp: weighs_def)

lemma weighs_bind:
  assumes "weighs \<mu> m n" "\<And>a. weighs \<mu> (k a) (\<lambda>b. c b - n a)"
  shows "weighs \<mu> (State_Monad.bind m k) c"
proof -
  have "(fault w \<noteq> None \<longrightarrow> w' = w) \<and> (fault w' = None \<longrightarrow> total \<mu> w' = total \<mu> w + c b)"
    if "run_state (State_Monad.bind m k) w = (b, w')" for w b w'
  proof -
    obtain a w1 where m: "run_state m w = (a, w1)" by (cases "run_state m w")
    with that have k: "run_state (k a) w1 = (b, w')" by simp
    have "fault w' = None \<Longrightarrow> fault w1 = None" using weighsD(1) [OF assms(2) k] by metis
    then show ?thesis
      using weighsD [OF assms(1) m] weighsD [OF assms(2) k] by (cases "fault w1") auto
  qed
  then show ?thesis by (simp add: weighs_def)
qed

lemma weighs_return: "c a = 0 \<Longrightarrow> weighs \<mu> (ret a) c"
  by (simp add: weighs_def)

lemma weighs_emit: "c () = \<mu> e \<Longrightarrow> weighs \<mu> (emit e) c"
  by (auto simp: weighs_def)

lemma weighs_call: "(\<And>a. c a = \<mu> (ev a)) \<Longrightarrow> weighs \<mu> (call q ev) c"
  by (auto simp: weighs_def)

lemma weighs_zero:
  "(\<And>a. c1 a = 0) \<Longrightarrow> weighs \<mu> (reads g) c1" "(\<And>a. c2 a = 0) \<Longrightarrow> weighs \<mu> (ask q) c2"
  "c3 () = 0 \<Longrightarrow> weighs \<mu> (modify f) c3" "c4 () = 0 \<Longrightarrow> weighs \<mu> skip c4"
  "weighs \<mu> (crash x) c5"
  by (auto simp: weighs_def)

lemma weighs_if:
  "(b \<Longrightarrow> weighs \<mu> m c) \<Longrightarrow> (\<not> b \<Longrightarrow> weighs \<mu> n c) \<Longrightarrow> weighs \<mu> (if b then m else n) c"
  by simp

lemma weighs_whenever:
  "(b \<Longrightarrow> weighs \<mu> m c) \<Longrightarrow> (\<not> b \<Longrightarrow> c () = 0) \<Longrightarrow> weighs \<mu> (whenever b m) c"
  by (simp add: whenever_def weighs_zero)

lemma weighs_option:
  "(p = None \<Longrightarrow> weighs \<mu> m c) \<Longrightarrow> (\<And>x. p = Some x \<Longrightarrow> weighs \<mu> (k x) c) \<Longrightarrow>
   weighs \<mu> (case p of None \<Rightarrow> m | Some x \<Rightarrow> k x) c"
  by (cases p) auto

lemma weighs_prod:
  "(\<And>x y. p = (x, y) \<Longrightarrow> weighs \<mu> (k x y) c) \<Longrightarrow> weighs \<mu> (case p of (x, y) \<Rightarrow> k x y) c"
  by (cases p) auto

lemma weighs_for_each:
  assumes "\<And>x. weighs \<mu> (g x) (\<lambda>_. 0)"
  shows "c () = 0 \<Longrightarrow> weighs \<mu> (for_each xs g) c"
proof (induction xs arbitrary: c)
  case Nil
  then show ?case by (simp add: weighs_zero)
next
  case (Cons x xs)
  then show ?case by (auto intro!: weighs_bind [OF assms])
qed

lemma weighs_Let: "(\<And>x. x = v \<Longrightarrow> weighs \<mu> (k x) c) \<Longrightarrow> weighs \<mu> (Let v k) c"
  by simp

lemma weighs_cong: "weighs \<mu> m n \<Longrightarrow> (\<And>a. n a = c a) \<Longrightarrow> weighs \<mu> m c"
  by (simp add: weighs_def)

lemma weighs_balance:
  assumes "weighs \<mu> m n" "fault (snd (run_state m w)) = None"
  shows "total \<mu> (snd (run_state m w)) = total \<mu> w + n (fst (run_state m w))"
  using weighsD(2) [OF assms(1), of w] assms(2) by (metis prod.collapse)

lemma weighs_sum:
  "(\<And>x. p = Inl x \<Longrightarrow> weighs \<mu> (f x) c) \<Longrightarrow> (\<And>y. p = Inr y \<Longrightarrow> weighs \<mu> (g y) c) \<Longrightarrow>
   weighs \<mu> (case p of Inl x \<Rightarrow> f x | Inr y \<Rightarrow> g y) c"
  by (cases p) auto

text \<open>Sequencing, by the kind of the first program.\<close>

lemma weighs_bind_call:
  "(\<And>a. weighs \<mu> (k a) (\<lambda>b. c b - \<mu> (ev a))) \<Longrightarrow> weighs \<mu> (State_Monad.bind (call q ev) k) c"
  by (rule weighs_bind [OF weighs_call]) auto

lemma weighs_bind_emit:
  "weighs \<mu> (k ()) (\<lambda>b. c b - \<mu> e) \<Longrightarrow> weighs \<mu> (State_Monad.bind (emit e) k) c"
  by (rule weighs_bind [OF weighs_emit]) auto

lemma weighs_bind_free:
  "weighs \<mu> m (\<lambda>_. 0) \<Longrightarrow> (\<And>a. weighs \<mu> (k a) c) \<Longrightarrow> weighs \<mu> (State_Monad.bind m k) c"
  by (rule weighs_bind [where n = "\<lambda>_. 0"]) auto

lemma weighs_bind_case:
  "(p = None \<Longrightarrow> weighs \<mu> (State_Monad.bind m k) c) \<Longrightarrow>
   (\<And>x. p = Some x \<Longrightarrow> weighs \<mu> (State_Monad.bind (g x) k) c) \<Longrightarrow>
   weighs \<mu> (State_Monad.bind (case p of None \<Rightarrow> m | Some x \<Rightarrow> g x) k) c"
  by (cases p) auto

lemmas weighs_rules = weighs_bind_call weighs_bind_emit weighs_bind_case weighs_bind_free
  weighs_Let weighs_return weighs_emit weighs_call weighs_zero weighs_if weighs_whenever
  weighs_option weighs_prod weighs_sum weighs_for_each

section \<open>Runs without a fault\<close>

text \<open>
  \<open>triple P m Q\<close>: from variables that satisfy \<open>P\<close>, the program runs without a fault and ends
  with a value and variables that satisfy \<open>Q\<close>. \<open>safe P m R\<close>: it keeps \<open>P\<close> and returns a value in
  \<open>R\<close>.
\<close>

definition triple :: "('d \<Rightarrow> bool) \<Rightarrow> ('e, 'd, 'a) prog \<Rightarrow> ('a \<Rightarrow> 'd \<Rightarrow> bool) \<Rightarrow> bool" where
  "triple P m Q \<longleftrightarrow>
     (\<forall>w a w'. run_state m w = (a, w') \<longrightarrow> fault w = None \<longrightarrow> P (vars w) \<longrightarrow>
        fault w' = None \<and> Q a (vars w'))"

definition safe :: "('d \<Rightarrow> bool) \<Rightarrow> ('e, 'd, 'a) prog \<Rightarrow> ('a \<Rightarrow> bool) \<Rightarrow> bool" where
  "safe P m R \<longleftrightarrow> triple P m (\<lambda>a s. P s \<and> R a)"

lemma tripleD:
  assumes "triple P m Q" "fault w = None" "P (vars w)"
  shows "fault (snd (run_state m w)) = None \<and> Q (fst (run_state m w)) (vars (snd (run_state m w)))"
  using assms by (metis prod.collapse triple_def)

lemma triple_bind:
  assumes "triple P m R" "\<And>a. triple (R a) (k a) Q"
  shows "triple P (State_Monad.bind m k) Q"
proof -
  have "fault w' = None \<and> Q b (vars w')"
    if "run_state (State_Monad.bind m k) w = (b, w')" "fault w = None" "P (vars w)" for w b w'
  proof -
    obtain a w1 where m: "run_state m w = (a, w1)" by (cases "run_state m w")
    with that have k: "run_state (k a) w1 = (b, w')" by simp
    show ?thesis
      using assms(1) m that(2,3) assms(2) [of a] k by (metis triple_def)
  qed
  then show ?thesis by (simp add: triple_def)
qed

lemma triple_mono:
  "triple P m Q \<Longrightarrow> (\<And>s. P' s \<Longrightarrow> P s) \<Longrightarrow> (\<And>a s. Q a s \<Longrightarrow> Q' a s) \<Longrightarrow> triple P' m Q'"
  by (auto simp: triple_def)

lemma triple_pre: "(b \<Longrightarrow> triple P m Q) \<Longrightarrow> triple (\<lambda>s. P s \<and> b) m Q"
  by (cases b) (auto simp: triple_def)

lemma triple_bind_safe:
  assumes "safe P m R" "\<And>a. R a \<Longrightarrow> triple P (k a) Q"
  shows "triple P (State_Monad.bind m k) Q"
  by (rule triple_bind [OF assms(1) [unfolded safe_def]]) (rule triple_pre, rule assms(2))

lemma triple_post: "safe P m R \<Longrightarrow> (\<And>a s. P s \<Longrightarrow> R a \<Longrightarrow> Q a s) \<Longrightarrow> triple P m Q"
  unfolding safe_def by (erule triple_mono) auto

lemma triple_return: "(\<And>s. P s \<Longrightarrow> Q a s) \<Longrightarrow> triple P (ret a) Q"
  by (simp add: triple_def)

lemma triple_primitive:
  "(\<And>s. P1 s \<Longrightarrow> Q1 () s) \<Longrightarrow> triple P1 (emit e) Q1"
  "(\<And>s. P2 s \<Longrightarrow> Q2 () (f s)) \<Longrightarrow> triple P2 (modify f) Q2"
  "(\<And>s. P3 s \<Longrightarrow> Q3 (g s) s) \<Longrightarrow> triple P3 (reads g) Q3"
  "(\<And>h s. P4 s \<Longrightarrow> Q4 (q h) s) \<Longrightarrow> triple P4 (ask q) Q4"
  "(\<And>h s. P5 s \<Longrightarrow> Q5 (p h) s) \<Longrightarrow> triple P5 (call p ev) Q5"
  "(\<And>s. P6 s \<Longrightarrow> Q6 () s) \<Longrightarrow> triple P6 skip Q6"
  "(\<And>s. \<not> P7 s) \<Longrightarrow> triple P7 (crash x) Q7"
  by (auto simp: triple_def)

lemma triple_bind_primitive:
  "triple P1 (k1 ()) Q1 \<Longrightarrow> triple P1 (State_Monad.bind (emit e) k1) Q1"
  "(\<And>a. (\<exists>s. P3 s \<and> g s = a) \<Longrightarrow> triple P3 (k3 a) Q3) \<Longrightarrow>
     triple P3 (State_Monad.bind (reads g) k3) Q3"
  "(\<And>a. a \<in> range q \<Longrightarrow> triple P4 (k4 a) Q4) \<Longrightarrow> triple P4 (State_Monad.bind (ask q) k4) Q4"
  "(\<And>a. a \<in> range p \<Longrightarrow> triple P5 (k5 a) Q5) \<Longrightarrow>
     triple P5 (State_Monad.bind (call p ev) k5) Q5"
  "triple P6 (k6 ()) Q6 \<Longrightarrow> triple P6 (State_Monad.bind skip k6) Q6"
  subgoal by (rule triple_bind_safe [where R = "\<lambda>_. True"]) (auto simp: safe_def triple_primitive)
  subgoal
    by (rule triple_bind_safe [where R = "\<lambda>a. \<exists>s. P3 s \<and> g s = a"])
      (auto simp: safe_def intro!: triple_primitive(3))
  subgoal
    by (rule triple_bind_safe [where R = "\<lambda>a. a \<in> range q"]) (auto simp: safe_def triple_primitive)
  subgoal
    by (rule triple_bind_safe [where R = "\<lambda>a. a \<in> range p"]) (auto simp: safe_def triple_primitive)
  subgoal by (rule triple_bind_safe [where R = "\<lambda>_. True"]) (auto simp: safe_def triple_primitive)
  done

lemma triple_control:
  "(b1 \<Longrightarrow> triple P1 m1 Q1) \<Longrightarrow> (\<not> b1 \<Longrightarrow> triple P1 n1 Q1) \<Longrightarrow>
     triple P1 (if b1 then m1 else n1) Q1"
  "(b2 \<Longrightarrow> triple P2 m2 Q2) \<Longrightarrow> (\<And>s. \<not> b2 \<Longrightarrow> P2 s \<Longrightarrow> Q2 () s) \<Longrightarrow>
     triple P2 (whenever b2 m2) Q2"
  "(x3 = None \<Longrightarrow> triple P3 m3 Q3) \<Longrightarrow> (\<And>a. x3 = Some a \<Longrightarrow> triple P3 (n3 a) Q3) \<Longrightarrow>
     triple P3 (case x3 of None \<Rightarrow> m3 | Some a \<Rightarrow> n3 a) Q3"
  "(\<And>a b. x4 = (a, b) \<Longrightarrow> triple P4 (n4 a b) Q4) \<Longrightarrow> triple P4 (case x4 of (a, b) \<Rightarrow> n4 a b) Q4"
  "(\<And>x. x = v \<Longrightarrow> triple P5 (n5 x) Q5) \<Longrightarrow> triple P5 (Let v n5) Q5"
  by (auto simp: triple_def whenever_def split: option.split prod.split)

text \<open>The same rules where nothing is known of the values.\<close>

lemma triple_bind_free:
  "triple P1 (k1 ()) Q1 \<Longrightarrow> triple P1 (State_Monad.bind (emit e) k1) Q1"
  "(\<And>a. triple P3 (k3 a) Q3) \<Longrightarrow> triple P3 (State_Monad.bind (reads g) k3) Q3"
  "(\<And>a. triple P4 (k4 a) Q4) \<Longrightarrow> triple P4 (State_Monad.bind (ask q) k4) Q4"
  "(\<And>a. triple P5 (k5 a) Q5) \<Longrightarrow> triple P5 (State_Monad.bind (call p ev) k5) Q5"
  "triple P6 (k6 ()) Q6 \<Longrightarrow> triple P6 (State_Monad.bind skip k6) Q6"
  subgoal by (rule triple_bind_primitive(1))
  subgoal by (rule triple_bind_primitive(2))
  subgoal by (rule triple_bind_primitive(3))
  subgoal by (rule triple_bind_primitive(4))
  subgoal by (rule triple_bind_primitive(5))
  done

lemma triple_bind_keep:
  "triple P m (\<lambda>a. P) \<Longrightarrow> (\<And>a. triple P (k a) Q) \<Longrightarrow> triple P (State_Monad.bind m k) Q"
  by (rule triple_bind)

lemma safe_for_each:
  assumes "\<And>x. x \<in> set xs \<Longrightarrow> safe P (g x) (\<lambda>_. True)"
  shows "safe P (for_each xs g) (\<lambda>_. True)"
  using assms
proof (induction xs)
  case Nil
  then show ?case by (simp add: safe_def triple_primitive)
next
  case (Cons x xs)
  have "triple P (for_each xs g) (\<lambda>a s. P s \<and> True)" using Cons by (simp add: safe_def)
  moreover have "safe P (g x) (\<lambda>_. True)" using Cons.prems by simp
  ultimately have "triple P (for_each (x # xs) g) (\<lambda>a s. P s \<and> True)"
    unfolding for_each.simps by (blast intro: triple_bind_safe)
  then show ?case by (simp add: safe_def)
qed

lemma triple_for_each:
  assumes "\<And>x. x \<in> set xs \<Longrightarrow> triple P (g x) (\<lambda>_. P)" "\<And>s. P s \<Longrightarrow> Q () s"
  shows "triple P (for_each xs g) Q"
proof (rule triple_post)
  show "safe P (for_each xs g) (\<lambda>_. True)"
    by (rule safe_for_each) (simp add: safe_def assms(1))
qed (use assms(2) in simp)

lemmas triple_rules = triple_bind_free triple_control triple_return triple_primitive

end
