(* ===== verification/Double.thy ===== *)
theory Double
  imports Prelude "HOL-Library.Log_Nat"
begin

text \<open>
  The \<open>DOUBLE\<close> arithmetic of the touchscreen filter driver: IEEE binary64 with
  round-to-nearest-even, on rationals. Infinities and NaN are values, since the driver
  divides by differences that may be zero. Two features of binary64 are left out because
  the driver cannot reach them: its operands are 16-bit integers, so no result comes near
  the largest or the smallest exponent; and its divisors are integers or differences, so a
  zero divisor is always a positive zero.
\<close>

section \<open>Rounding to 53 bits\<close>

definition expo :: "rat \<Rightarrow> int" where
  "expo q =
     (let (p, r) = quotient_of q; e = int (floorlog 2 (nat p)) - int (floorlog 2 (nat r))
      in if q < 2 powi e then e - 1 else e)"

definition half_even :: "rat \<Rightarrow> int" where
  "half_even m =
     (let f = \<lfloor>m\<rfloor>; d = m - of_int f in
      if d < 1 / 2 then f else if d > 1 / 2 then f + 1 else if even f then f else f + 1)"

definition round_pos :: "rat \<Rightarrow> rat" where
  "round_pos q = of_int (half_even (q * 2 powi (52 - expo q))) * 2 powi (expo q - 52)"

definition rnd :: "rat \<Rightarrow> rat" where
  "rnd q = (if q = 0 then 0 else if q > 0 then round_pos q else - round_pos (- q))"

lemma pow2_less_iff [simp]: "(2::rat) powi a < 2 powi b \<longleftrightarrow> a < b"
  by (metis linorder_not_less one_less_numeral_iff power_int_increasing power_int_strict_increasing
      semiring_norm(76) less_le_not_le less_imp_le)

lemma pow2_div: "(2::rat) powi a / 2 powi b = 2 powi (a - b)"
  by (simp add: power_int_diff)

lemma pow2_mult: "(2::rat) powi a * 2 powi b = 2 powi (a + b)"
  by (simp add: power_int_add)

lemma floorlog_nat_bounds:
  assumes "0 < n"
  shows "(2::rat) powi (int (floorlog 2 n) - 1) \<le> of_nat n" "of_nat n < (2::rat) powi int (floorlog 2 n)"
proof -
  have "2 ^ (floorlog 2 n - 1) \<le> n" "n < 2 ^ floorlog 2 n" "0 < floorlog 2 n"
    using assms floorlog_bounds [of n 2] by (auto simp: floorlog_def)
  moreover from this(3) have "int (floorlog 2 n) - 1 = int (floorlog 2 n - 1)" by simp
  ultimately show "(2::rat) powi (int (floorlog 2 n) - 1) \<le> of_nat n"
    "of_nat n < (2::rat) powi int (floorlog 2 n)"
    by (metis (mono_tags) of_nat_le_iff of_nat_numeral of_nat_power power_int_of_nat)
       (metis (mono_tags) \<open>n < 2 ^ floorlog 2 n\<close> of_nat_less_iff of_nat_numeral of_nat_power
          power_int_of_nat)
qed

lemma expo_bounds:
  assumes "0 < q"
  shows "2 powi expo q \<le> q" "q < 2 powi (expo q + 1)"
proof -
  obtain p r where pr: "quotient_of q = (p, r)" by (cases "quotient_of q")
  have r: "0 < r" using quotient_of_denom_pos [OF pr] .
  have q: "q = of_int p / of_int r" using quotient_of_div [OF pr] .
  then have p: "0 < p" using assms r by (simp add: zero_less_divide_iff)
  let ?a = "int (floorlog 2 (nat p))" and ?b = "int (floorlog 2 (nat r))"
  have P: "2 powi (?a - 1) \<le> (of_int p :: rat)" "(of_int p :: rat) < 2 powi ?a"
    using floorlog_nat_bounds [of "nat p"] p by simp_all
  have R: "2 powi (?b - 1) \<le> (of_int r :: rat)" "(of_int r :: rat) < 2 powi ?b"
    using floorlog_nat_bounds [of "nat r"] r by simp_all
  have "q < 2 powi ?a / 2 powi (?b - 1)"
    unfolding q using P(2) R(1) p r by (intro frac_less) auto
  also have "\<dots> = 2 powi (?a - ?b + 1)"
    by (simp only: pow2_div) (simp add: algebra_simps)
  finally have up: "q < 2 powi (?a - ?b + 1)" .
  have "2 powi (?a - 1) / 2 powi ?b \<le> q"
    unfolding q using P(1) R(2) p r by (intro frac_le) auto
  then have low: "2 powi (?a - ?b - 1) \<le> q"
    by (simp only: pow2_div) (simp add: algebra_simps)
  show "2 powi expo q \<le> q" "q < 2 powi (expo q + 1)"
    using up low by (auto simp: expo_def pr Let_def)
qed

lemma expo_unique:
  assumes "2 powi e \<le> q" "q < 2 powi (e + 1)"
  shows "expo q = e"
proof -
  have q: "0 < q" using assms(1) zero_less_power_int [of "2::rat" e] by linarith
  have "(2::rat) powi e < 2 powi (expo q + 1)" "(2::rat) powi expo q < 2 powi (e + 1)"
    using expo_bounds [OF q] assms by linarith+
  then show ?thesis by simp
qed

lemma expo_mono: "0 < p \<Longrightarrow> p \<le> q \<Longrightarrow> expo p \<le> expo q"
proof -
  assume "0 < p" "p \<le> q"
  then have "(2::rat) powi expo p < 2 powi (expo q + 1)"
    using expo_bounds [of p] expo_bounds [of q] by linarith
  then show ?thesis by simp
qed

lemma half_even_of_int [simp]: "half_even (of_int n) = n"
  by (simp add: half_even_def)

lemma half_even_bounds: "\<lfloor>m\<rfloor> \<le> half_even m" "half_even m \<le> \<lfloor>m\<rfloor> + 1"
  by (simp_all add: half_even_def Let_def)

lemma half_even_mono:
  assumes "a \<le> b"
  shows "half_even a \<le> half_even b"
proof (cases "\<lfloor>a\<rfloor> = \<lfloor>b\<rfloor>")
  case True
  with assms show ?thesis by (auto simp: half_even_def Let_def)
next
  case False
  with assms have "\<lfloor>a\<rfloor> + 1 \<le> \<lfloor>b\<rfloor>" using floor_mono [OF assms] by linarith
  with half_even_bounds [of a] half_even_bounds [of b] show ?thesis by linarith
qed

text \<open>A number that a 53-bit significand can hold is rounded to itself.\<close>

lemma round_pos_exact:
  assumes "q = of_int n * 2 powi k" "0 < n" "n < 2 ^ 53"
  shows "round_pos q = q"
proof -
  have q: "0 < q" using assms by simp
  have "of_int n < (of_int (2 ^ 53) :: rat)" using assms(3) by (simp only: of_int_less_iff)
  then have "q < 2 powi 53 * 2 powi k" unfolding assms(1) by simp
  then have "q < 2 powi (53 + k)" by (simp only: pow2_mult)
  moreover have "2 powi expo q \<le> q" by (rule expo_bounds [OF q])
  ultimately have "(2::rat) powi expo q < 2 powi (53 + k)" by linarith
  then have e: "0 \<le> 52 - expo q + k" by simp
  have "q * 2 powi (52 - expo q) = of_int n * 2 powi (52 - expo q + k)"
    unfolding assms(1) mult.assoc pow2_mult by (simp add: add.commute)
  also have "\<dots> = of_int (n * 2 ^ nat (52 - expo q + k))"
    using e by (simp add: power_int_def)
  finally have "half_even (q * 2 powi (52 - expo q)) = n * 2 ^ nat (52 - expo q + k)"
    by (simp del: of_int_mult)
  then have "round_pos q = of_int n * 2 powi (52 - expo q + k) * 2 powi (expo q - 52)"
    using e by (simp add: round_pos_def power_int_def)
  also have "\<dots> = q"
    unfolding mult.assoc pow2_mult assms(1) by simp
  finally show ?thesis .
qed

lemma round_pos_bounds:
  assumes "0 < q"
  shows "2 powi expo q \<le> round_pos q" "round_pos q \<le> 2 powi (expo q + 1)"
proof -
  let ?m = "q * 2 powi (52 - expo q)"
  have "2 powi expo q * 2 powi (52 - expo q) \<le> ?m" "?m < 2 powi (expo q + 1) * 2 powi (52 - expo q)"
    using expo_bounds [OF assms] by simp_all
  then have "of_int (2 ^ 52) \<le> ?m" "?m \<le> of_int (2 ^ 53)"
    by (simp_all add: pow2_mult)
  then have "2 ^ 52 \<le> half_even ?m" "half_even ?m \<le> 2 ^ 53"
    using half_even_mono [of "of_int (2 ^ 52)" ?m] half_even_mono [of ?m "of_int (2 ^ 53)"]
    unfolding half_even_of_int by auto
  then have "(2::rat) ^ 52 \<le> of_int (half_even ?m)" "of_int (half_even ?m) \<le> (2::rat) ^ 53"
    by (metis of_int_le_iff of_int_numeral of_int_power)+
  then have "2 ^ 52 * 2 powi (expo q - 52) \<le> round_pos q"
    "round_pos q \<le> 2 ^ 53 * 2 powi (expo q - 52)"
    unfolding round_pos_def by (auto intro!: mult_right_mono)
  moreover have "(2::rat) ^ 52 = 2 powi 52" "(2::rat) ^ 53 = 2 powi 53" by simp_all
  ultimately show "2 powi expo q \<le> round_pos q" "round_pos q \<le> 2 powi (expo q + 1)"
    by (simp_all only: pow2_mult) (simp_all add: algebra_simps)
qed

lemma round_pos_mono:
  assumes "0 < p" "p \<le> q"
  shows "round_pos p \<le> round_pos q"
proof -
  have q: "0 < q" using assms by simp
  show ?thesis
  proof (cases "expo p = expo q")
    case True
    have "p * 2 powi (52 - expo p) \<le> q * 2 powi (52 - expo q)"
      using assms(2) True by simp
    from half_even_mono [OF this] show ?thesis by (simp add: round_pos_def True)
  next
    case False
    then have "expo p + 1 \<le> expo q" using expo_mono [OF assms] by simp
    then have "(2::rat) powi (expo p + 1) \<le> 2 powi expo q" by (intro power_int_increasing) auto
    with round_pos_bounds [OF assms(1)] round_pos_bounds [OF q] show ?thesis by linarith
  qed
qed

lemma round_pos_positive: "0 < q \<Longrightarrow> 0 < round_pos q"
  using round_pos_bounds(1) [of q] zero_less_power_int [of "2::rat" "expo q"] by linarith

lemma rnd_mono: "p \<le> q \<Longrightarrow> rnd p \<le> rnd q"
  using round_pos_mono [of p q] round_pos_mono [of "- q" "- p"] round_pos_positive [of q]
    round_pos_positive [of "- p"]
  by (auto simp: rnd_def)

lemma rnd_exact:
  assumes "q = of_int n * 2 powi k" "\<bar>n\<bar> < 2 ^ 53"
  shows "rnd q = q"
proof -
  consider "n = 0" | "0 < n" | "n < 0" by linarith
  then show ?thesis
  proof cases
    case 1
    with assms(1) show ?thesis by (simp add: rnd_def)
  next
    case 2
    with round_pos_exact [OF assms(1)] assms show ?thesis by (simp add: rnd_def)
  next
    case 3
    then have "0 < (- n)" "- q = of_int (- n) * 2 powi k" "- n < 2 ^ 53" using assms by simp_all
    with round_pos_exact [of "- q" "- n" k] have "round_pos (- q) = - q" by simp
    moreover have "q < 0" using 3 assms(1) by (simp add: mult_less_0_iff)
    ultimately show ?thesis by (simp add: rnd_def)
  qed
qed

lemma rnd_int: "\<bar>n\<bar> < 2 ^ 53 \<Longrightarrow> rnd (of_int n) = of_int n"
  by (rule rnd_exact [of _ n 0]) simp_all

lemma rnd_0 [simp]: "rnd 0 = 0"
  by (simp add: rnd_def)

section \<open>Rounded fractions and integers\<close>

text \<open>
  A fraction with a small denominator keeps its side of every integer when it is rounded:
  between the two there is room for a number that binary64 has.
\<close>

lemma pow2_neg20: "(2::rat) powi (- 20) = 1 / 2 ^ 20"
  by (simp add: power_int_def power_one_over)

lemma rnd_near_int:
  assumes "\<bar>x\<bar> < 2 ^ 30" "\<bar>s\<bar> = 1"
  shows "rnd (of_int x + of_int s * 2 powi (- 20)) = of_int x + of_int s * 2 powi (- 20)"
proof (rule rnd_exact)
  show "of_int x + of_int s * 2 powi (- 20) = of_int (x * 2 ^ 20 + s) * (2::rat) powi (- 20)"
    by (simp add: pow2_neg20 field_simps)
  show "\<bar>x * 2 ^ 20 + s\<bar> < 2 ^ 53" using assms by (auto simp: abs_if split: if_splits)
qed

lemma frac_gap:
  assumes "0 < b" "b \<le> 2 ^ 20" "of_int x < (of_int a :: rat) / of_int b"
  shows "of_int x + 2 powi (- 20) \<le> (of_int a :: rat) / of_int b"
proof -
  have "(of_int (x * b) :: rat) < of_int a" using assms(1,3) by (simp add: field_simps)
  then have "x * b + 1 \<le> a" by (simp only: of_int_less_iff)
  then have "(of_int (x * b + 1) :: rat) \<le> of_int a" by (simp only: of_int_le_iff)
  then have "of_int (x * b + 1) / (of_int b :: rat) \<le> of_int a / of_int b"
    using assms(1) by (intro divide_right_mono) auto
  then have "of_int x + 1 / (of_int b :: rat) \<le> of_int a / of_int b"
    using assms(1) by (simp add: add_divide_distrib)
  moreover have "(of_int b :: rat) \<le> of_int (2 ^ 20)" using assms(2) by (simp only: of_int_le_iff)
  then have "1 / (2 ^ 20 :: rat) \<le> 1 / of_int b" using assms(1) by (intro frac_le) auto
  ultimately show ?thesis by (simp add: pow2_neg20)
qed

lemma le_rnd_frac:
  assumes "0 < b" "b \<le> 2 ^ 20" "\<bar>x\<bar> < 2 ^ 30"
  shows "rnd (of_int a / of_int b) \<le> of_int x \<longleftrightarrow> (of_int a :: rat) / of_int b \<le> of_int x"
proof
  assume "(of_int a :: rat) / of_int b \<le> of_int x"
  from rnd_mono [OF this] show "rnd (of_int a / of_int b) \<le> of_int x"
    using assms(3) by (simp add: rnd_int)
next
  assume le: "rnd (of_int a / of_int b) \<le> of_int x"
  show "(of_int a :: rat) / of_int b \<le> of_int x"
  proof (rule ccontr)
    assume "\<not> ?thesis"
    then have "of_int x + 2 powi (- 20) \<le> (of_int a :: rat) / of_int b"
      by (intro frac_gap [OF assms(1,2)]) simp
    from rnd_mono [OF this] have "of_int x + 2 powi (- 20) \<le> rnd (of_int a / of_int b)"
      using rnd_near_int [of x 1] assms(3) by simp
    with le show False by (simp add: pow2_neg20)
  qed
qed

lemma rnd_minus [simp]: "rnd (- q) = - rnd q"
  by (auto simp: rnd_def)

lemma ge_rnd_frac:
  assumes "0 < b" "b \<le> 2 ^ 20" "\<bar>x\<bar> < 2 ^ 30"
  shows "of_int x \<le> rnd (of_int a / of_int b) \<longleftrightarrow> of_int x \<le> (of_int a :: rat) / of_int b"
  using le_rnd_frac [of b "- x" "- a"] assms by simp

section \<open>Values and operations\<close>

datatype double = Num rat | Infinity bool | NaN   \<comment> \<open>\<open>Infinity True\<close> is the positive one\<close>

definition dint :: "int \<Rightarrow> double" where
  "dint n = Num (rnd (of_int n))"

fun dneg :: "double \<Rightarrow> double" where
  "dneg (Num a) = Num (- a)"
| "dneg (Infinity s) = Infinity (\<not> s)"
| "dneg NaN = NaN"

fun dadd :: "double \<Rightarrow> double \<Rightarrow> double" where
  "dadd (Num a) (Num b) = Num (rnd (a + b))"
| "dadd (Infinity s) (Num b) = Infinity s"
| "dadd (Num a) (Infinity s) = Infinity s"
| "dadd (Infinity s) (Infinity t) = (if s = t then Infinity s else NaN)"
| "dadd NaN y = NaN"
| "dadd x NaN = NaN"

definition dsub :: "double \<Rightarrow> double \<Rightarrow> double" where
  "dsub x y = dadd x (dneg y)"

fun dmul :: "double \<Rightarrow> double \<Rightarrow> double" where
  "dmul (Num a) (Num b) = Num (rnd (a * b))"
| "dmul (Infinity s) (Num b) = (if b = 0 then NaN else Infinity (s = (0 < b)))"
| "dmul (Num a) (Infinity s) = (if a = 0 then NaN else Infinity (s = (0 < a)))"
| "dmul (Infinity s) (Infinity t) = Infinity (s = t)"
| "dmul NaN y = NaN"
| "dmul x NaN = NaN"

fun ddiv :: "double \<Rightarrow> double \<Rightarrow> double" where
  "ddiv (Num a) (Num b) =
     (if b \<noteq> 0 then Num (rnd (a / b)) else if a = 0 then NaN else Infinity (0 < a))"
| "ddiv (Infinity s) (Num b) = Infinity (s = (0 \<le> b))"
| "ddiv (Num a) (Infinity s) = Num 0"
| "ddiv (Infinity s) (Infinity t) = NaN"
| "ddiv NaN y = NaN"
| "ddiv x NaN = NaN"

fun dle :: "double \<Rightarrow> double \<Rightarrow> bool" where
  "dle (Num a) (Num b) \<longleftrightarrow> a \<le> b"
| "dle (Infinity s) (Num b) \<longleftrightarrow> \<not> s"
| "dle (Num a) (Infinity s) \<longleftrightarrow> s"
| "dle (Infinity s) (Infinity t) \<longleftrightarrow> s \<longrightarrow> t"
| "dle NaN y \<longleftrightarrow> False"
| "dle x NaN \<longleftrightarrow> False"

text \<open>The conversion of a floating value to \<open>UINT16\<close>: undefined outside the type's range.\<close>

definition trunc :: "rat \<Rightarrow> int" where
  "trunc q = (if q < 0 then - \<lfloor>- q\<rfloor> else \<lfloor>q\<rfloor>)"

definition to_u16 :: "double \<Rightarrow> u16 exec" where
  "to_u16 x =
     (case x of
        Num q \<Rightarrow> if -1 < q \<and> q < 65536 then ok (word_of_int (trunc q)) else abort BadConversion
      | _ \<Rightarrow> abort BadConversion)"

lemma dint_small [simp]: "\<bar>n\<bar> < 2 ^ 53 \<Longrightarrow> dint n = Num (of_int n)"
  by (simp add: dint_def rnd_int)

lemma to_u16_Num:
  assumes "0 \<le> q" "q < 65536"
  shows "to_u16 (Num q) = ok (word_of_int \<lfloor>q\<rfloor>)"
  using assms by (simp add: to_u16_def trunc_def)

end
