(* ===== verification/Layout.thy ===== *)
theory Layout
  imports Double
begin

text \<open>
  The calibration points of the touchscreen filter driver and the checks of their layout:
  \<open>CheckPointsLayoutFive\<close> and \<open>CheckPointsLayoutNine\<close> of
  \<open>WDM_filter_driver/TouchscreenFilterDriver.c\<close>, with the line equations they share with
  the calibration. The checks compare rounded quotients; the theorems show that rounding
  never changes their verdict.
\<close>

section \<open>Status codes\<close>

type_synonym ntstatus = u32

definition nt_success :: "ntstatus \<Rightarrow> bool" where
  "nt_success st \<longleftrightarrow> 0 \<le> sint st"

definition STATUS_SUCCESS :: ntstatus where "STATUS_SUCCESS = 0"
definition STATUS_INVALID_PARAMETER :: ntstatus where "STATUS_INVALID_PARAMETER = 0xC000000D"

lemma nt_success_simps [simp]:
  "nt_success STATUS_SUCCESS" "\<not> nt_success STATUS_INVALID_PARAMETER"
  "STATUS_SUCCESS \<noteq> STATUS_INVALID_PARAMETER" "STATUS_INVALID_PARAMETER \<noteq> STATUS_SUCCESS"
  by (simp_all add: nt_success_def STATUS_SUCCESS_def STATUS_INVALID_PARAMETER_def)

section \<open>Points and lines\<close>

record calibration_point =
  px :: u16
  py :: u16

abbreviation cx :: "calibration_point \<Rightarrow> int" where "cx p \<equiv> uint (px p)"
abbreviation cy :: "calibration_point \<Rightarrow> int" where "cy p \<equiv> uint (py p)"

text \<open>A straight line \<open>A x + B y + C = 0\<close>, from two points.\<close>

record line =
  line_a :: double
  line_b :: double
  line_c :: double

definition DoCalcCoeff :: "calibration_point \<Rightarrow> calibration_point \<Rightarrow> line" where
  "DoCalcCoeff v1 v2 =
     (let a = dint (cy v2 - cy v1); b = dint (cx v1 - cx v2) in
      \<lparr>line_a = a, line_b = b,
       line_c = dsub (dmul (dneg a) (dint (cx v1))) (dmul b (dint (cy v1)))\<rparr>)"

definition Fx :: "line \<Rightarrow> double \<Rightarrow> double" where
  "Fx l y = ddiv (dneg (dadd (dmul (line_b l) y) (line_c l))) (line_a l)"

definition Fy :: "line \<Rightarrow> double \<Rightarrow> double" where
  "Fy l x = ddiv (dneg (dadd (dmul (line_a l) x) (line_c l))) (line_b l)"

section \<open>The checks\<close>

text \<open>
  A point given by \<open>x\<close> and \<open>y\<close> lies strictly between the left and the right line, and
  strictly between the top and the bottom one.
\<close>

definition strictly_between :: "line \<Rightarrow> line \<Rightarrow> line \<Rightarrow> line \<Rightarrow> calibration_point \<Rightarrow> bool" where
  "strictly_between l1 l2 l3 l4 p =
     (let x = dint (cx p); y = dint (cy p) in
      if dle x (Fx l1 y) \<or> dle (Fx l2 y) x then False
      else if dle y (Fy l3 x) \<or> dle (Fy l4 x) y then False
      else True)"

definition CheckPointsLayoutFive :: "calibration_point list \<Rightarrow> ntstatus" where
  "CheckPointsLayoutFive P =
     (if px (P ! 0) \<ge> px (P ! 1) then STATUS_INVALID_PARAMETER
      else if py (P ! 0) \<ge> py (P ! 3) then STATUS_INVALID_PARAMETER
      else if py (P ! 2) \<le> py (P ! 1) then STATUS_INVALID_PARAMETER
      else if px (P ! 2) \<le> px (P ! 3) then STATUS_INVALID_PARAMETER
      else if strictly_between (DoCalcCoeff (P ! 0) (P ! 3)) (DoCalcCoeff (P ! 1) (P ! 2))
                (DoCalcCoeff (P ! 0) (P ! 1)) (DoCalcCoeff (P ! 2) (P ! 3)) (P ! 4)
      then STATUS_SUCCESS else STATUS_INVALID_PARAMETER)"

definition CheckPointsLayoutNine :: "calibration_point list \<Rightarrow> ntstatus" where
  "CheckPointsLayoutNine P =
     (let inside = strictly_between (DoCalcCoeff (P ! 0) (P ! 4)) (DoCalcCoeff (P ! 1) (P ! 3))
                     (DoCalcCoeff (P ! 0) (P ! 1)) (DoCalcCoeff (P ! 3) (P ! 4)) in
      if px (P ! 0) \<ge> px (P ! 1) then STATUS_INVALID_PARAMETER
      else if py (P ! 0) \<ge> py (P ! 5) then STATUS_INVALID_PARAMETER
      else if py (P ! 2) \<le> py (P ! 1) then STATUS_INVALID_PARAMETER
      else if py (P ! 2) \<ge> py (P ! 3) then STATUS_INVALID_PARAMETER
      else if px (P ! 4) \<ge> px (P ! 3) then STATUS_INVALID_PARAMETER
      else if py (P ! 4) \<le> py (P ! 5) then STATUS_INVALID_PARAMETER
      else if px (P ! 6) \<le> px (P ! 5) then STATUS_INVALID_PARAMETER
      else if px (P ! 6) \<ge> px (P ! 7) then STATUS_INVALID_PARAMETER
      else if px (P ! 8) \<le> px (P ! 7) then STATUS_INVALID_PARAMETER
      else if px (P ! 8) \<ge> px (P ! 2) then STATUS_INVALID_PARAMETER
      else if \<not> inside (P ! 6) then STATUS_INVALID_PARAMETER
      else if \<not> inside (P ! 7) then STATUS_INVALID_PARAMETER
      else if \<not> inside (P ! 8) then STATUS_INVALID_PARAMETER
      else STATUS_SUCCESS)"

section \<open>Exact geometry\<close>

text \<open>Where the line through two points has height \<open>y\<close>, and its height at \<open>x\<close>.\<close>

definition at_height :: "calibration_point \<Rightarrow> calibration_point \<Rightarrow> int \<Rightarrow> rat" where
  "at_height v1 v2 y =
     of_int (cx v1) + of_int ((y - cy v1) * (cx v2 - cx v1)) / of_int (cy v2 - cy v1)"

definition at_column :: "calibration_point \<Rightarrow> calibration_point \<Rightarrow> int \<Rightarrow> rat" where
  "at_column v1 v2 x =
     of_int (cy v1) + of_int ((x - cx v1) * (cy v2 - cy v1)) / of_int (cx v2 - cx v1)"

definition small :: "int \<Rightarrow> bool" where
  "small n \<longleftrightarrow> 0 \<le> n \<and> n < 2 ^ 16"

lemma small_coord [simp]: "small (uint (w :: u16))"
  using uint_lt2p [of w] by (simp add: small_def)

lemma small_product:
  assumes "small p" "small q" "small r"
  shows "\<bar>(p - q) * r\<bar> < 2 ^ 32"
proof -
  have "\<bar>p - q\<bar> \<le> 2 ^ 16" "\<bar>r\<bar> < 2 ^ 16" using assms by (auto simp: small_def)
  then have "\<bar>p - q\<bar> * \<bar>r\<bar> \<le> 2 ^ 16 * \<bar>r\<bar>" by (intro mult_right_mono) auto
  also have "\<dots> < 2 ^ 32" using \<open>\<bar>r\<bar> < 2 ^ 16\<close> by simp
  finally show ?thesis by (simp add: abs_mult)
qed

lemma small_exact:
  assumes "small p" "small q"
  shows "dint (p - q) = Num (of_int (p - q))" "dint p = Num (of_int p)"
  using assms by (auto simp: small_def abs_if)

text \<open>The coefficients are exact: sums and products of 16-bit numbers need 34 bits.\<close>

lemma dmul_exact: "\<bar>m * n\<bar> < 2 ^ 53 \<Longrightarrow> dmul (Num (of_int m)) (Num (of_int n)) = Num (of_int (m * n))"
  by (metis dmul.simps(1) of_int_mult rnd_int)

lemma dadd_exact: "\<bar>m + n\<bar> < 2 ^ 53 \<Longrightarrow> dadd (Num (of_int m)) (Num (of_int n)) = Num (of_int (m + n))"
  by (metis dadd.simps(1) of_int_add rnd_int)

lemma dneg_exact: "dneg (Num (of_int m)) = Num (of_int (- m))"
  by simp

lemma dadd_small:
  "\<bar>m\<bar> < 2 ^ 40 \<Longrightarrow> \<bar>n\<bar> < 2 ^ 40 \<Longrightarrow>
   dadd (Num (of_int m)) (Num (of_int n)) = Num (of_int (m + n))"
  by (rule dadd_exact) (auto simp: abs_if split: if_splits)

lemma DoCalcCoeff_exact:
  "DoCalcCoeff v1 v2 =
     \<lparr>line_a = Num (of_int (cy v2 - cy v1)), line_b = Num (of_int (cx v1 - cx v2)),
      line_c = Num (of_int (- (cy v2 - cy v1) * cx v1 - (cx v1 - cx v2) * cy v1))\<rparr>"
proof -
  have p: "\<bar>(cy v2 - cy v1) * cx v1\<bar> < 2 ^ 32" "\<bar>(cx v1 - cx v2) * cy v1\<bar> < 2 ^ 32"
    by (intro small_product small_coord)+
  have "dmul (Num (of_int (- (cy v2 - cy v1)))) (Num (of_int (cx v1))) =
      Num (of_int (- (cy v2 - cy v1) * cx v1))"
    using p(1) by (intro dmul_exact) (simp only: mult_minus_left abs_minus_cancel, simp)
  moreover have "dmul (Num (of_int (cx v1 - cx v2))) (Num (of_int (cy v1))) =
      Num (of_int ((cx v1 - cx v2) * cy v1))"
    using p(2) by (intro dmul_exact) simp
  moreover have "dadd (Num (of_int (- (cy v2 - cy v1) * cx v1)))
      (Num (of_int (- ((cx v1 - cx v2) * cy v1)))) =
      Num (of_int (- (cy v2 - cy v1) * cx v1 + - ((cx v1 - cx v2) * cy v1)))"
    using p by (intro dadd_small) (simp_all only: mult_minus_left abs_minus_cancel, simp_all)
  ultimately show ?thesis
    unfolding DoCalcCoeff_def Let_def dsub_def small_exact [OF small_coord small_coord]
      dneg_exact by simp
qed

lemma line_identity:
  fixes x1 x2 y1 y2 y :: int
  assumes "y1 \<noteq> y2"
  shows "(of_int (- ((x1 - x2) * y + (- (y2 - y1) * x1 - (x1 - x2) * y1))) :: rat) / of_int (y2 - y1)
       = of_int x1 + of_int ((y - y1) * (x2 - x1)) / of_int (y2 - y1)"
proof -
  have "- ((x1 - x2) * y + (- (y2 - y1) * x1 - (x1 - x2) * y1)) =
      x1 * (y2 - y1) + (y - y1) * (x2 - x1)"
    by (simp add: algebra_simps)
  with assms show ?thesis by (simp only: of_int_add of_int_mult add_divide_distrib) simp
qed

lemma ddiv_exact:
  "b \<noteq> 0 \<Longrightarrow> ddiv (Num (of_int a)) (Num (of_int b)) = Num (rnd (of_int a / of_int b))"
  by simp

lemma abs_diff_small: "\<bar>m\<bar> < 2 ^ 32 \<Longrightarrow> \<bar>n\<bar> < 2 ^ 32 \<Longrightarrow> \<bar>- m - n\<bar> < (2 :: int) ^ 40"
  by (auto simp: abs_if split: if_splits)

lemma Fx_exact:
  assumes "cy v1 \<noteq> cy v2" "small y"
  shows "Fx (DoCalcCoeff v1 v2) (dint y) = Num (rnd (at_height v1 v2 y))"
proof -
  let ?a = "cy v2 - cy v1" and ?b = "cx v1 - cx v2"
  let ?c = "- ?a * cx v1 - ?b * cy v1"
  have p: "\<bar>?b * y\<bar> < 2 ^ 32" "\<bar>?a * cx v1\<bar> < 2 ^ 32" "\<bar>?b * cy v1\<bar> < 2 ^ 32"
    by (intro small_product small_coord assms(2))+
  then have c: "\<bar>?c\<bar> < 2 ^ 40" unfolding mult_minus_left by (intro abs_diff_small)
  have "dmul (Num (of_int ?b)) (Num (of_int y)) = Num (of_int (?b * y))"
    using p(1) by (intro dmul_exact) simp
  moreover have "dadd (Num (of_int (?b * y))) (Num (of_int ?c)) = Num (of_int (?b * y + ?c))"
    using p(1) c by (intro dadd_small) simp_all
  moreover have "(of_int (- (?b * y + ?c)) :: rat) / of_int ?a = at_height v1 v2 y"
    unfolding at_height_def by (rule line_identity [OF assms(1)])
  moreover have "?a \<noteq> 0" using assms(1) by simp
  ultimately show ?thesis
    unfolding Fx_def DoCalcCoeff_exact small_exact(2) [OF assms(2) assms(2)] line.simps
    by (simp only: dneg_exact ddiv_exact not_False_eq_True)
qed

lemma Fy_exact:
  assumes "cx v1 \<noteq> cx v2" "small x"
  shows "Fy (DoCalcCoeff v1 v2) (dint x) = Num (rnd (at_column v1 v2 x))"
proof -
  let ?a = "cy v2 - cy v1" and ?b = "cx v1 - cx v2"
  let ?c = "- ?a * cx v1 - ?b * cy v1"
  have p: "\<bar>?a * x\<bar> < 2 ^ 32" "\<bar>?a * cx v1\<bar> < 2 ^ 32" "\<bar>?b * cy v1\<bar> < 2 ^ 32"
    by (intro small_product small_coord assms(2))+
  then have c: "\<bar>?c\<bar> < 2 ^ 40" unfolding mult_minus_left by (intro abs_diff_small)
  have "dmul (Num (of_int ?a)) (Num (of_int x)) = Num (of_int (?a * x))"
    using p(1) by (intro dmul_exact) simp
  moreover have "dadd (Num (of_int (?a * x))) (Num (of_int ?c)) = Num (of_int (?a * x + ?c))"
    using p(1) c by (intro dadd_small) simp_all
  moreover have "(of_int (- (?a * x + ?c)) :: rat) / of_int ?b = at_column v1 v2 x"
    unfolding at_column_def using line_identity [OF assms(1), of "cy v1" "cy v2" x]
    by (simp only: minus_diff_eq [of "cx v1" "cx v2", symmetric] of_int_minus [of "cx v1 - cx v2"]
        minus_divide_right [symmetric] minus_divide_left) (simp add: algebra_simps)
  moreover have "?b \<noteq> 0" using assms(1) by simp
  ultimately show ?thesis
    unfolding Fy_def DoCalcCoeff_exact small_exact(2) [OF assms(2) assms(2)] line.simps
    by (simp only: dneg_exact ddiv_exact not_False_eq_True)
qed

section \<open>Rounded comparisons are exact\<close>

lemma small_fraction:
  fixes n d :: int
  assumes "d \<noteq> 0" "\<bar>d\<bar> < 2 ^ 16"
  shows "\<exists>a b. (of_int k :: rat) + of_int n / of_int d = of_int a / of_int b \<and> 0 < b \<and> b \<le> 2 ^ 20"
proof (cases "0 < d")
  case True
  then have "(of_int k :: rat) + of_int n / of_int d = of_int (k * d + n) / of_int d"
    by (simp add: add_divide_distrib)
  with True assms(2) show ?thesis by (intro exI [of _ "k * d + n"] exI [of _ d]) auto
next
  case False
  then have "(of_int k :: rat) + of_int n / of_int d = of_int (k * (- d) - n) / of_int (- d)"
    using assms(1) by (simp add: diff_divide_distrib)
  with False assms show ?thesis
    by (intro exI [of _ "k * (- d) - n"] exI [of _ "- d"]) auto
qed

lemma small_diff: "\<bar>uint (v :: u16) - uint (w :: u16)\<bar> < 2 ^ 16"
proof -
  have "\<bar>a - b\<bar> < 2 ^ 16" if "small a" "small b" for a b
    using that unfolding small_def abs_less_iff by linarith
  then show ?thesis by simp
qed

lemma rnd_at_height:
  assumes "cy v1 \<noteq> cy v2" "\<bar>x\<bar> < 2 ^ 30"
  shows "rnd (at_height v1 v2 y) \<le> of_int x \<longleftrightarrow> at_height v1 v2 y \<le> of_int x"
    and "of_int x \<le> rnd (at_height v1 v2 y) \<longleftrightarrow> of_int x \<le> at_height v1 v2 y"
proof -
  obtain a b where "at_height v1 v2 y = of_int a / of_int b" "0 < b" "b \<le> 2 ^ 20"
    using small_fraction [OF _ small_diff] assms(1) unfolding at_height_def
    by (metis right_minus_eq)
  with assms(2) show "rnd (at_height v1 v2 y) \<le> of_int x \<longleftrightarrow> at_height v1 v2 y \<le> of_int x"
    "of_int x \<le> rnd (at_height v1 v2 y) \<longleftrightarrow> of_int x \<le> at_height v1 v2 y"
    by (simp_all only: le_rnd_frac ge_rnd_frac)
qed

lemma rnd_at_column:
  assumes "cx v1 \<noteq> cx v2" "\<bar>y\<bar> < 2 ^ 30"
  shows "rnd (at_column v1 v2 x) \<le> of_int y \<longleftrightarrow> at_column v1 v2 x \<le> of_int y"
    and "of_int y \<le> rnd (at_column v1 v2 x) \<longleftrightarrow> of_int y \<le> at_column v1 v2 x"
proof -
  obtain a b where "at_column v1 v2 x = of_int a / of_int b" "0 < b" "b \<le> 2 ^ 20"
    using small_fraction [OF _ small_diff] assms(1) unfolding at_column_def
    by (metis right_minus_eq)
  with assms(2) show "rnd (at_column v1 v2 x) \<le> of_int y \<longleftrightarrow> at_column v1 v2 x \<le> of_int y"
    "of_int y \<le> rnd (at_column v1 v2 x) \<longleftrightarrow> of_int y \<le> at_column v1 v2 x"
    by (simp_all only: le_rnd_frac ge_rnd_frac)
qed

lemma small_bound: "small n \<Longrightarrow> \<bar>n\<bar> < 2 ^ 30"
  by (simp add: small_def)

lemma dint_le [simp]: "small n \<Longrightarrow> dle (dint n) (Num q) \<longleftrightarrow> of_int n \<le> q"
  "small n \<Longrightarrow> dle (Num q) (dint n) \<longleftrightarrow> q \<le> of_int n"
  using small_bound [of n] by simp_all

text \<open>The four comparisons of a coordinate with a line.\<close>

lemma dle_Fx:
  assumes "cy v1 \<noteq> cy v2" "small x" "small y"
  shows "dle (Fx (DoCalcCoeff v1 v2) (dint y)) (dint x) \<longleftrightarrow> at_height v1 v2 y \<le> of_int x"
    and "dle (dint x) (Fx (DoCalcCoeff v1 v2) (dint y)) \<longleftrightarrow> of_int x \<le> at_height v1 v2 y"
  using rnd_at_height [OF assms(1) small_bound [OF assms(2)], of y] assms(2)
  by (simp_all add: Fx_exact [OF assms(1,3)] del: dint_small)

lemma dle_Fy:
  assumes "cx v1 \<noteq> cx v2" "small x" "small y"
  shows "dle (Fy (DoCalcCoeff v1 v2) (dint x)) (dint y) \<longleftrightarrow> at_column v1 v2 x \<le> of_int y"
    and "dle (dint y) (Fy (DoCalcCoeff v1 v2) (dint x)) \<longleftrightarrow> of_int y \<le> at_column v1 v2 x"
  using rnd_at_column [OF assms(1) small_bound [OF assms(3)], of x] assms(3)
  by (simp_all add: Fy_exact [OF assms(1,2)] del: dint_small)

section \<open>Properties\<close>

text \<open>What the checks decide, in exact geometry.\<close>

definition inside_frame ::
  "calibration_point \<times> calibration_point \<Rightarrow> calibration_point \<times> calibration_point \<Rightarrow>
   calibration_point \<times> calibration_point \<Rightarrow> calibration_point \<times> calibration_point \<Rightarrow>
   calibration_point \<Rightarrow> bool" where
  "inside_frame le ri to bo p \<longleftrightarrow>
     at_height (fst le) (snd le) (cy p) < of_int (cx p) \<and>
     of_int (cx p) < at_height (fst ri) (snd ri) (cy p) \<and>
     at_column (fst to) (snd to) (cx p) < of_int (cy p) \<and>
     of_int (cy p) < at_column (fst bo) (snd bo) (cx p)"

lemma strictly_between_exact:
  assumes "cy l1 \<noteq> cy l2" "cy r1 \<noteq> cy r2" "cx t1 \<noteq> cx t2" "cx b1 \<noteq> cx b2"
  shows "strictly_between (DoCalcCoeff l1 l2) (DoCalcCoeff r1 r2) (DoCalcCoeff t1 t2)
      (DoCalcCoeff b1 b2) p \<longleftrightarrow> inside_frame (l1, l2) (r1, r2) (t1, t2) (b1, b2) p"
  unfolding strictly_between_def Let_def inside_frame_def
  by (auto simp: dle_Fx [OF assms(1) small_coord small_coord]
      dle_Fx [OF assms(2) small_coord small_coord] dle_Fy [OF assms(3) small_coord small_coord]
      dle_Fy [OF assms(4) small_coord small_coord] not_le simp del: dint_small)

definition layout_five :: "calibration_point list \<Rightarrow> bool" where
  "layout_five P \<longleftrightarrow>
     cx (P ! 0) < cx (P ! 1) \<and> cy (P ! 0) < cy (P ! 3) \<and> cy (P ! 1) < cy (P ! 2) \<and>
     cx (P ! 3) < cx (P ! 2) \<and>
     inside_frame (P ! 0, P ! 3) (P ! 1, P ! 2) (P ! 0, P ! 1) (P ! 2, P ! 3) (P ! 4)"

definition layout_nine :: "calibration_point list \<Rightarrow> bool" where
  "layout_nine P \<longleftrightarrow>
     cx (P ! 0) < cx (P ! 1) \<and> cy (P ! 0) < cy (P ! 5) \<and> cy (P ! 5) < cy (P ! 4) \<and>
     cy (P ! 1) < cy (P ! 2) \<and> cy (P ! 2) < cy (P ! 3) \<and> cx (P ! 4) < cx (P ! 3) \<and>
     cx (P ! 5) < cx (P ! 6) \<and> cx (P ! 6) < cx (P ! 7) \<and> cx (P ! 7) < cx (P ! 8) \<and>
     cx (P ! 8) < cx (P ! 2) \<and>
     (\<forall>i \<in> {6, 7, 8}.
        inside_frame (P ! 0, P ! 4) (P ! 1, P ! 3) (P ! 0, P ! 1) (P ! 3, P ! 4) (P ! i))"

lemma five_accepts:
  "CheckPointsLayoutFive P = STATUS_SUCCESS \<longleftrightarrow> layout_five P"
proof (cases "cx (P ! 0) < cx (P ! 1) \<and> cy (P ! 0) < cy (P ! 3) \<and> cy (P ! 1) < cy (P ! 2) \<and>
     cx (P ! 3) < cx (P ! 2)")
  case True
  then have "strictly_between (DoCalcCoeff (P ! 0) (P ! 3)) (DoCalcCoeff (P ! 1) (P ! 2))
      (DoCalcCoeff (P ! 0) (P ! 1)) (DoCalcCoeff (P ! 2) (P ! 3)) (P ! 4) \<longleftrightarrow>
    inside_frame (P ! 0, P ! 3) (P ! 1, P ! 2) (P ! 0, P ! 1) (P ! 2, P ! 3) (P ! 4)"
    by (intro strictly_between_exact) auto
  with True show ?thesis
    by (simp add: CheckPointsLayoutFive_def layout_five_def word_le_def)
next
  case False
  then show ?thesis
    by (auto simp: CheckPointsLayoutFive_def layout_five_def word_le_def)
qed

lemma nine_accepts:
  "CheckPointsLayoutNine P = STATUS_SUCCESS \<longleftrightarrow> layout_nine P"
proof (cases "cx (P ! 0) < cx (P ! 1) \<and> cy (P ! 0) < cy (P ! 5) \<and> cy (P ! 5) < cy (P ! 4) \<and>
     cy (P ! 1) < cy (P ! 2) \<and> cy (P ! 2) < cy (P ! 3) \<and> cx (P ! 4) < cx (P ! 3)")
  case True
  then have "strictly_between (DoCalcCoeff (P ! 0) (P ! 4)) (DoCalcCoeff (P ! 1) (P ! 3))
      (DoCalcCoeff (P ! 0) (P ! 1)) (DoCalcCoeff (P ! 3) (P ! 4)) p \<longleftrightarrow>
    inside_frame (P ! 0, P ! 4) (P ! 1, P ! 3) (P ! 0, P ! 1) (P ! 3, P ! 4) p" for p
    by (intro strictly_between_exact) auto
  with True show ?thesis
    by (auto simp: CheckPointsLayoutNine_def layout_nine_def word_le_def Let_def not_le)
next
  case False
  then show ?thesis
    by (auto simp: CheckPointsLayoutNine_def layout_nine_def word_le_def Let_def)
qed

lemma layout_status:
  "CheckPointsLayoutFive P \<in> {STATUS_SUCCESS, STATUS_INVALID_PARAMETER}"
  "CheckPointsLayoutNine P \<in> {STATUS_SUCCESS, STATUS_INVALID_PARAMETER}"
  by (simp_all add: CheckPointsLayoutFive_def CheckPointsLayoutNine_def Let_def)

text \<open>C27: \<open>CheckPointsLayoutFive\<close> accepts five points exactly when, in exact geometry, the
  corners are ordered as the corners of a screen are and the centre lies strictly between
  the left and the right edge and strictly between the top and the bottom edge; the
  rounding of its divisions never changes the verdict, and a refusal is always
  STATUS_INVALID_PARAMETER.\<close>

theorem CheckPointsLayoutFive_exact:
  "CheckPointsLayoutFive P = (if layout_five P then STATUS_SUCCESS else STATUS_INVALID_PARAMETER)"
  using five_accepts [of P] layout_status(1) [of P] by auto

text \<open>C28: \<open>CheckPointsLayoutNine\<close> accepts nine points exactly when, in exact geometry, the
  outer points are ordered as points round a screen are and the three inner points lie
  from left to right strictly inside the frame of the four edges.\<close>

theorem CheckPointsLayoutNine_exact:
  "CheckPointsLayoutNine P = (if layout_nine P then STATUS_SUCCESS else STATUS_INVALID_PARAMETER)"
  using nine_accepts [of P] layout_status(2) [of P] by auto

end
