(* ===== verification/Calibration.thy ===== *)
theory Calibration
  imports Layout
begin

text \<open>
  The coordinate calibration of the touchscreen filter driver
  (\<open>WDM_filter_driver/TouchscreenFilterDriver.c\<close>, from \<open>Fx\<close> to \<open>ResetInputData\<close>): the touches
  of an input packet are moved from the panel's coordinates to the screen's, by four
  regions round the centre point or by eight round three inner points. Each coordinate is
  converted back to \<open>UINT16\<close>; a conversion outside that type is a fault.
\<close>

section \<open>Packets\<close>

record touch_data =
  unknown_flag :: u8
  touch_id :: u8
  touch_x :: u16
  touch_y :: u16
  touch_width :: u16
  touch_height :: u16

record touch_packet =
  packet_unknown :: u8
  touches :: "touch_data list"
  packet_points :: u8

definition SIX_POINTS_IN_PACKET :: nat where "SIX_POINTS_IN_PACKET = 6"
definition MAX_VALUE :: int where "MAX_VALUE = 32767"
definition MAX_WIDTH :: u16 where "MAX_WIDTH = 600"
definition MAX_HEIGHT :: u16 where "MAX_HEIGHT = 1050"

section \<open>One touch\<close>

text \<open>\<open>(p - a) / (b - a) * w\<close>: the place of \<open>p\<close> between \<open>a\<close> and \<open>b\<close>, on a scale from 0 to \<open>w\<close>.\<close>

definition scaled :: "double \<Rightarrow> double \<Rightarrow> double \<Rightarrow> int \<Rightarrow> double" where
  "scaled a p b w = dmul (ddiv (dsub p a) (dsub b a)) (dint w)"

definition set_xy :: "touch_data \<Rightarrow> double \<Rightarrow> double \<Rightarrow> touch_data exec" where
  "set_xy t x y =
     and_then (to_u16 x) (\<lambda>x'. and_then (to_u16 y) (\<lambda>y'. ok (t\<lparr>touch_x := x', touch_y := y'\<rparr>)))"

definition too_large :: "bool \<Rightarrow> touch_data \<Rightarrow> bool" where
  "too_large active_large t \<longleftrightarrow>
     \<not> active_large \<and> (touch_width t > MAX_WIDTH \<or> touch_height t > MAX_HEIGHT)"

definition calibrate_five ::
  "bool \<Rightarrow> calibration_point list \<Rightarrow> touch_data \<Rightarrow> touch_data exec" where
  "calibrate_five active_large P t =
     (let l1 = DoCalcCoeff (P ! 0) (P ! 3); l2 = DoCalcCoeff (P ! 1) (P ! 2);
          l3 = DoCalcCoeff (P ! 0) (P ! 1); l4 = DoCalcCoeff (P ! 2) (P ! 3);
          rx = dint (cx (P ! 4)); ry = dint (cy (P ! 4));
          x = dint (uint (touch_x t)); y = dint (uint (touch_y t));
          m = MAX_VALUE div 2 in
      if touch_id t = 0xFF then ok t
      else if too_large active_large t then ok (t\<lparr>unknown_flag := 4\<rparr>)
      else if dle rx x \<and> dle x (Fx l2 y) \<and> dle (Fy l3 x) y \<and> dle y ry
      then set_xy t (dadd (dint m) (scaled rx x (Fx l2 y) m)) (scaled (Fy l3 x) y ry m)
      else if dle (Fx l1 y) x \<and> dle x rx \<and> dle (Fy l3 x) y \<and> dle y ry
      then set_xy t (scaled (Fx l1 y) x rx m) (scaled (Fy l3 x) y ry m)
      else if dle (Fx l1 y) x \<and> dle x rx \<and> dle ry y \<and> dle y (Fy l4 x)
      then set_xy t (scaled (Fx l1 y) x rx m) (dadd (dint m) (scaled ry y (Fy l4 x) m))
      else if dle rx x \<and> dle x (Fx l2 y) \<and> dle ry y \<and> dle y (Fy l4 x)
      then set_xy t (dadd (dint m) (scaled rx x (Fx l2 y) m))
             (dadd (dint m) (scaled ry y (Fy l4 x) m))
      else ok (t\<lparr>unknown_flag := 4\<rparr>))"

definition calibrate_nine ::
  "bool \<Rightarrow> calibration_point list \<Rightarrow> touch_data \<Rightarrow> touch_data exec" where
  "calibrate_nine active_large P t =
     (let left = DoCalcCoeff (P ! 0) (P ! 4); right = DoCalcCoeff (P ! 1) (P ! 3);
          upper = DoCalcCoeff (P ! 0) (P ! 1); lower = DoCalcCoeff (P ! 3) (P ! 4);
          c4 = DoCalcCoeff (P ! 5) (P ! 6); c5 = DoCalcCoeff (P ! 6) (P ! 7);
          c6 = DoCalcCoeff (P ! 7) (P ! 8); c7 = DoCalcCoeff (P ! 8) (P ! 2);
          rx1 = dint (cx (P ! 6)); rx2 = dint (cx (P ! 7)); rx3 = dint (cx (P ! 8));
          x = dint (uint (touch_x t)); y = dint (uint (touch_y t));
          m2 = MAX_VALUE div 2; m4 = MAX_VALUE div 4; m34 = MAX_VALUE * 3 div 4 in
      if touch_id t = 0xFF then ok t
      else if too_large active_large t then ok (t\<lparr>unknown_flag := 4\<rparr>)
      else if dle rx3 x \<and> dle x (Fx right y) \<and> dle (Fy upper x) y \<and> dle y (Fy c7 x)
      then set_xy t (dadd (dint m34) (scaled rx3 x (Fx right y) m4))
             (scaled (Fy upper x) y (Fy c7 x) m2)
      else if dle rx2 x \<and> dle x rx3 \<and> dle (Fy upper x) y \<and> dle y (Fy c6 x)
      then set_xy t (dadd (dint m2) (scaled rx2 x rx3 m4)) (scaled (Fy upper x) y (Fy c6 x) m2)
      else if dle rx1 x \<and> dle x rx2 \<and> dle (Fy upper x) y \<and> dle y (Fy c5 x)
      then set_xy t (dadd (dint m4) (scaled rx1 x rx2 m4)) (scaled (Fy upper x) y (Fy c5 x) m2)
      else if dle (Fx left y) x \<and> dle x rx1 \<and> dle (Fy upper x) y \<and> dle y (Fy c4 x)
      then set_xy t (scaled (Fx left y) x rx1 m4) (scaled (Fy upper x) y (Fy c4 x) m2)
      else if dle (Fx left y) x \<and> dle x rx1 \<and> dle (Fy c4 x) y \<and> dle y (Fy lower x)
      then set_xy t (scaled (Fx left y) x rx1 m4)
             (dadd (dint m2) (scaled (Fy c4 x) y (Fy lower x) m2))
      else if dle rx1 x \<and> dle x rx2 \<and> dle (Fy c5 x) y \<and> dle y (Fy lower x)
      then set_xy t (dadd (dint m4) (scaled rx1 x rx2 m4))
             (dadd (dint m2) (scaled (Fy c5 x) y (Fy lower x) m2))
      else if dle rx2 x \<and> dle x rx3 \<and> dle (Fy c6 x) y \<and> dle y (Fy lower x)
      then set_xy t (dadd (dint m2) (scaled rx2 x rx3 m4))
             (dadd (dint m2) (scaled (Fy c6 x) y (Fy lower x) m2))
      else if dle rx3 x \<and> dle x (Fx right y) \<and> dle (Fy c7 x) y \<and> dle y (Fy lower x)
      then set_xy t (dadd (dint m34) (scaled rx3 x (Fx right y) m4))
             (dadd (dint m2) (scaled (Fy c7 x) y (Fy lower x) m2))
      else ok (t\<lparr>unknown_flag := 4\<rparr>))"

section \<open>A packet\<close>

text \<open>The loop over the touches, in order; the first fault ends it.\<close>

fun each_touch :: "(touch_data \<Rightarrow> touch_data exec) \<Rightarrow> touch_data list \<Rightarrow> touch_data list exec" where
  "each_touch f [] = ok []"
| "each_touch f (t # ts) =
     and_then (f t) (\<lambda>t'. and_then (each_touch f ts) (\<lambda>ts'. ok (t' # ts')))"

definition update_packet ::
  "(touch_data \<Rightarrow> touch_data exec) \<Rightarrow> touch_packet \<Rightarrow> touch_packet exec" where
  "update_packet f b =
     and_then (each_touch f (take SIX_POINTS_IN_PACKET (touches b))) (\<lambda>ts.
       ok (b\<lparr>touches := ts @ drop SIX_POINTS_IN_PACKET (touches b)\<rparr>))"

definition DoFloatingPointCalculationForCalibrationFive ::
  "calibration_point list \<Rightarrow> touch_packet option \<Rightarrow> bool \<Rightarrow> touch_packet option exec" where
  "DoFloatingPointCalculationForCalibrationFive P buffer active_large =
     (case buffer of
        None \<Rightarrow> ok None
      | Some b \<Rightarrow> and_then (update_packet (calibrate_five active_large P) b) (\<lambda>b'. ok (Some b')))"

definition DoFloatingPointCalculationForCalibrationNine ::
  "calibration_point list \<Rightarrow> touch_packet option \<Rightarrow> bool \<Rightarrow> touch_packet option exec" where
  "DoFloatingPointCalculationForCalibrationNine P buffer active_large =
     (case buffer of
        None \<Rightarrow> ok None
      | Some b \<Rightarrow> and_then (update_packet (calibrate_nine active_large P) b) (\<lambda>b'. ok (Some b')))"

definition reset_touch :: "touch_data \<Rightarrow> touch_data exec" where
  "reset_touch t = (if touch_id t = 0xFF then ok t else ok (t\<lparr>unknown_flag := 4\<rparr>))"

definition ResetInputData :: "touch_packet option \<Rightarrow> touch_packet option exec" where
  "ResetInputData buffer =
     (case buffer of
        None \<Rightarrow> ok None
      | Some b \<Rightarrow> and_then (update_packet reset_touch b) (\<lambda>b'. ok (Some b')))"

section \<open>Interpolation stays in its interval\<close>

lemma rnd_pos: "0 < q \<Longrightarrow> 0 < rnd q"
  by (simp add: rnd_def round_pos_positive)

lemma scaled_ok:
  assumes "a \<le> p" "p \<le> b" "a < b" "0 \<le> w" "w < 2 ^ 16"
  shows "\<exists>q. scaled (Num a) (Num p) (Num b) w = Num q \<and> 0 \<le> q \<and> q \<le> of_int w"
proof -
  let ?n = "rnd (p - a)" and ?d = "rnd (b - a)"
  have n: "0 \<le> ?n" using rnd_mono [of 0 "p - a"] assms(1) by simp
  have nd: "?n \<le> ?d" using assms(2) by (intro rnd_mono) simp
  have d: "0 < ?d" using assms(3) by (simp add: rnd_pos)
  let ?r = "rnd (?n / ?d)"
  have "0 \<le> ?n / ?d" "?n / ?d \<le> 1" using n nd d by simp_all
  from rnd_mono [OF this(1)] rnd_mono [OF this(2)] have r: "0 \<le> ?r" "?r \<le> 1"
    using rnd_int [of 1] by simp_all
  have "0 \<le> ?r * of_int w" "?r * of_int w \<le> of_int w"
    using r assms(4) by (simp_all add: mult_left_le_one_le)
  from rnd_mono [OF this(1)] rnd_mono [OF this(2)]
  have "0 \<le> rnd (?r * of_int w)" "rnd (?r * of_int w) \<le> of_int w"
    using assms(4,5) by (simp_all add: rnd_int)
  with d assms(4,5) show ?thesis by (simp add: scaled_def dsub_def)
qed

lemma scaled_nan: "scaled (Num a) (Num a) (Num a) w = NaN"
  by (simp add: scaled_def dsub_def)

text \<open>A coordinate that the driver can store.\<close>

definition stores :: "double \<Rightarrow> bool" where
  "stores x \<longleftrightarrow> (\<exists>v. to_u16 x = ok v \<and> uint v < MAX_VALUE)"

lemma stores_interval:
  assumes "0 \<le> q" "q \<le> of_int k" "k < MAX_VALUE"
  shows "stores (Num q)"
proof -
  have k: "0 \<le> \<lfloor>q\<rfloor>" "\<lfloor>q\<rfloor> \<le> k" using assms by (simp_all add: floor_le_iff)
  have "q < 65536" using assms(2,3) by (simp add: MAX_VALUE_def)
  with assms(1) have "to_u16 (Num q) = ok (word_of_int \<lfloor>q\<rfloor>)" by (intro to_u16_Num)
  moreover have "\<lfloor>q\<rfloor> mod 65536 = \<lfloor>q\<rfloor>"
    using k assms(3) unfolding MAX_VALUE_def by (intro mod_pos_pos_trivial) linarith+
  then have "uint (word_of_int \<lfloor>q\<rfloor> :: u16) = \<lfloor>q\<rfloor>" by (simp add: uint_word_of_int)
  ultimately show ?thesis using k assms(3) by (auto simp: stores_def)
qed

lemma stores_scaled:
  assumes "a \<le> p" "p \<le> b" "a < b" "0 \<le> w" "w < MAX_VALUE"
  shows "stores (scaled (Num a) (Num p) (Num b) w)"
  using scaled_ok [OF assms(1-4)] stores_interval assms(5) by (fastforce simp: MAX_VALUE_def)

lemma stores_offset:
  assumes "a \<le> p" "p \<le> b" "a < b" "0 \<le> w" "0 \<le> base" "base + w < MAX_VALUE"
  shows "stores (dadd (dint base) (scaled (Num a) (Num p) (Num b) w))"
proof -
  obtain q where q: "scaled (Num a) (Num p) (Num b) w = Num q" "0 \<le> q" "q \<le> of_int w"
    using scaled_ok [OF assms(1-4)] assms(5,6) by (auto simp: MAX_VALUE_def)
  have "0 \<le> of_int base + q" "of_int base + q \<le> of_int (base + w)"
    using q(2,3) assms(5) by simp_all
  from rnd_mono [OF this(1)] rnd_mono [OF this(2)]
  have "0 \<le> rnd (of_int base + q)" "rnd (of_int base + q) \<le> of_int (base + w)"
    using rnd_int [of "base + w"] assms(4-6) by (simp_all add: MAX_VALUE_def)
  then have "stores (Num (rnd (of_int base + q)))" by (rule stores_interval [OF _ _ assms(6)])
  moreover have "dint base = Num (of_int base)"
    using assms(4-6) by (intro dint_small) (simp add: MAX_VALUE_def)
  ultimately show ?thesis by (simp add: q(1))
qed

lemma set_xy_stores:
  assumes "stores x" "stores y"
  shows "\<exists>t'. set_xy t x y = ok t' \<and> uint (touch_x t') < MAX_VALUE \<and> uint (touch_y t') < MAX_VALUE"
  using assms by (auto simp: set_xy_def stores_def)

section \<open>Regions\<close>

text \<open>
  Between a line and a column or row of the grid: the line's end of the interval, and that
  the interval is not empty unless the touch sits where the line meets the grid.
\<close>

lemma dle_dint: "small m \<Longrightarrow> small n \<Longrightarrow> dle (dint m) (dint n) \<longleftrightarrow> m \<le> n"
  using small_bound [of m] small_bound [of n] by simp

lemma span_Fx:
  assumes "cy v1 \<noteq> cy v2" "small x" "small y" "small c"
  shows "\<lbrakk>dle (dint c) (dint x); dle (dint x) (Fx (DoCalcCoeff v1 v2) (dint y));
      \<not> (x = c \<and> at_height v1 v2 y = of_int c)\<rbrakk> \<Longrightarrow>
     \<exists>b. Fx (DoCalcCoeff v1 v2) (dint y) = Num b \<and> of_int x \<le> b \<and> (of_int c :: rat) < b"
    and "\<lbrakk>dle (Fx (DoCalcCoeff v1 v2) (dint y)) (dint x); dle (dint x) (dint c);
      \<not> (x = c \<and> at_height v1 v2 y = of_int c)\<rbrakk> \<Longrightarrow>
     \<exists>a. Fx (DoCalcCoeff v1 v2) (dint y) = Num a \<and> a \<le> of_int x \<and> a < (of_int c :: rat)"
proof -
  note cmp = rnd_at_height [OF assms(1) small_bound [OF assms(2)], of y]
    rnd_at_height [OF assms(1) small_bound [OF assms(4)], of y]
  show "\<exists>b. Fx (DoCalcCoeff v1 v2) (dint y) = Num b \<and> of_int x \<le> b \<and> (of_int c :: rat) < b"
    if "dle (dint c) (dint x)" "dle (dint x) (Fx (DoCalcCoeff v1 v2) (dint y))"
      "\<not> (x = c \<and> at_height v1 v2 y = of_int c)"
  proof (intro exI conjI)
    have le: "c \<le> x" "of_int x \<le> at_height v1 v2 y"
      using that(1,2) by (simp_all only: dle_Fx [OF assms(1-3)] dle_dint assms(2-4))
    have "(of_int c :: rat) \<le> of_int x" using le(1) by simp
    then have "(of_int c :: rat) < at_height v1 v2 y"
      using le that(3) by (cases "x = c") auto
    then show "(of_int c :: rat) < rnd (at_height v1 v2 y)" using cmp(3) by linarith
  qed (use that(2) assms in \<open>auto simp: Fx_exact dle_Fx cmp\<close>)
  show "\<exists>a. Fx (DoCalcCoeff v1 v2) (dint y) = Num a \<and> a \<le> of_int x \<and> a < (of_int c :: rat)"
    if "dle (Fx (DoCalcCoeff v1 v2) (dint y)) (dint x)" "dle (dint x) (dint c)"
      "\<not> (x = c \<and> at_height v1 v2 y = of_int c)"
  proof (intro exI conjI)
    have le: "x \<le> c" "at_height v1 v2 y \<le> of_int x"
      using that(1,2) by (simp_all only: dle_Fx [OF assms(1-3)] dle_dint assms(2-4))
    have "(of_int x :: rat) \<le> of_int c" using le(1) by simp
    then have "at_height v1 v2 y < (of_int c :: rat)"
      using le that(3) by (cases "x = c") auto
    then show "rnd (at_height v1 v2 y) < (of_int c :: rat)" using cmp(4) by linarith
  qed (use that(1) assms in \<open>auto simp: Fx_exact dle_Fx cmp\<close>)
qed

lemma span_Fy:
  assumes "cx v1 \<noteq> cx v2" "small x" "small y" "small c"
  shows "\<lbrakk>dle (dint c) (dint y); dle (dint y) (Fy (DoCalcCoeff v1 v2) (dint x));
      \<not> (y = c \<and> at_column v1 v2 x = of_int c)\<rbrakk> \<Longrightarrow>
     \<exists>b. Fy (DoCalcCoeff v1 v2) (dint x) = Num b \<and> of_int y \<le> b \<and> (of_int c :: rat) < b"
    and "\<lbrakk>dle (Fy (DoCalcCoeff v1 v2) (dint x)) (dint y); dle (dint y) (dint c);
      \<not> (y = c \<and> at_column v1 v2 x = of_int c)\<rbrakk> \<Longrightarrow>
     \<exists>a. Fy (DoCalcCoeff v1 v2) (dint x) = Num a \<and> a \<le> of_int y \<and> a < (of_int c :: rat)"
proof -
  note cmp = rnd_at_column [OF assms(1) small_bound [OF assms(3)], of x]
    rnd_at_column [OF assms(1) small_bound [OF assms(4)], of x]
  show "\<exists>b. Fy (DoCalcCoeff v1 v2) (dint x) = Num b \<and> of_int y \<le> b \<and> (of_int c :: rat) < b"
    if "dle (dint c) (dint y)" "dle (dint y) (Fy (DoCalcCoeff v1 v2) (dint x))"
      "\<not> (y = c \<and> at_column v1 v2 x = of_int c)"
  proof (intro exI conjI)
    have le: "c \<le> y" "of_int y \<le> at_column v1 v2 x"
      using that(1,2) by (simp_all only: dle_Fy [OF assms(1-3)] dle_dint assms(2-4))
    have "(of_int c :: rat) \<le> of_int y" using le(1) by simp
    then have "(of_int c :: rat) < at_column v1 v2 x"
      using le that(3) by (cases "y = c") auto
    then show "(of_int c :: rat) < rnd (at_column v1 v2 x)" using cmp(3) by linarith
  qed (use that(2) assms in \<open>auto simp: Fy_exact dle_Fy cmp\<close>)
  show "\<exists>a. Fy (DoCalcCoeff v1 v2) (dint x) = Num a \<and> a \<le> of_int y \<and> a < (of_int c :: rat)"
    if "dle (Fy (DoCalcCoeff v1 v2) (dint x)) (dint y)" "dle (dint y) (dint c)"
      "\<not> (y = c \<and> at_column v1 v2 x = of_int c)"
  proof (intro exI conjI)
    have le: "y \<le> c" "at_column v1 v2 x \<le> of_int y"
      using that(1,2) by (simp_all only: dle_Fy [OF assms(1-3)] dle_dint assms(2-4))
    have "(of_int y :: rat) \<le> of_int c" using le(1) by simp
    then have "at_column v1 v2 x < (of_int c :: rat)"
      using le that(3) by (cases "y = c") auto
    then show "rnd (at_column v1 v2 x) < (of_int c :: rat)" using cmp(4) by linarith
  qed (use that(1) assms in \<open>auto simp: Fy_exact dle_Fy cmp\<close>)
qed

text \<open>
  The places where a region degenerates: the touch lies on the column (row) of an inner
  point just where an edge crosses it.
\<close>

definition pinched_x :: "calibration_point \<Rightarrow> calibration_point \<Rightarrow> int \<Rightarrow> int \<Rightarrow> int \<Rightarrow> bool" where
  "pinched_x v1 v2 c x y \<longleftrightarrow> x = c \<and> at_height v1 v2 y = of_int c"

definition pinched_y :: "calibration_point \<Rightarrow> calibration_point \<Rightarrow> int \<Rightarrow> int \<Rightarrow> int \<Rightarrow> bool" where
  "pinched_y v1 v2 c x y \<longleftrightarrow> y = c \<and> at_column v1 v2 x = of_int c"

definition pinched_five :: "calibration_point list \<Rightarrow> int \<Rightarrow> int \<Rightarrow> bool" where
  "pinched_five P x y \<longleftrightarrow>
     pinched_x (P ! 0) (P ! 3) (cx (P ! 4)) x y \<or> pinched_x (P ! 1) (P ! 2) (cx (P ! 4)) x y \<or>
     pinched_y (P ! 0) (P ! 1) (cy (P ! 4)) x y \<or> pinched_y (P ! 2) (P ! 3) (cy (P ! 4)) x y"

text \<open>The four kinds of coordinate that \<open>calibrate_five\<close> stores.\<close>

lemma stores_Fx:
  assumes "cy v1 \<noteq> cy v2" "small x" "small y" "small c" "\<not> pinched_x v1 v2 c x y"
    and "0 \<le> w" "0 \<le> base" "base + w < MAX_VALUE"
  shows "dle (dint c) (dint x) \<Longrightarrow> dle (dint x) (Fx (DoCalcCoeff v1 v2) (dint y)) \<Longrightarrow>
      stores (dadd (dint base) (scaled (dint c) (dint x) (Fx (DoCalcCoeff v1 v2) (dint y)) w))"
    and "dle (Fx (DoCalcCoeff v1 v2) (dint y)) (dint x) \<Longrightarrow> dle (dint x) (dint c) \<Longrightarrow>
      stores (scaled (Fx (DoCalcCoeff v1 v2) (dint y)) (dint x) (dint c) w)"
proof -
  have num: "dint c = Num (of_int c)" "dint x = Num (of_int x)"
    using small_bound [OF assms(2)] small_bound [OF assms(4)] by simp_all
  note no_pinch = assms(5) [unfolded pinched_x_def]
  show "stores (dadd (dint base) (scaled (dint c) (dint x) (Fx (DoCalcCoeff v1 v2) (dint y)) w))"
    if d: "dle (dint c) (dint x)" "dle (dint x) (Fx (DoCalcCoeff v1 v2) (dint y))"
  proof -
    obtain b where b: "Fx (DoCalcCoeff v1 v2) (dint y) = Num b" "of_int x \<le> b" "of_int c < b"
      using span_Fx(1) [OF assms(1-4) d no_pinch] by blast
    have "(of_int c :: rat) \<le> of_int x" using d(1) assms(2,4) by (simp add: dle_dint)
    from stores_offset [OF this b(2,3) assms(6-8)] show ?thesis by (simp only: b(1) num)
  qed
  show "stores (scaled (Fx (DoCalcCoeff v1 v2) (dint y)) (dint x) (dint c) w)"
    if d: "dle (Fx (DoCalcCoeff v1 v2) (dint y)) (dint x)" "dle (dint x) (dint c)"
  proof -
    obtain a where a: "Fx (DoCalcCoeff v1 v2) (dint y) = Num a" "a \<le> of_int x" "a < of_int c"
      using span_Fx(2) [OF assms(1-4) d no_pinch] by blast
    have "(of_int x :: rat) \<le> of_int c" using d(2) assms(2,4) by (simp add: dle_dint)
    from stores_scaled [OF a(2) this a(3) assms(6)] assms(7,8) show ?thesis
      by (simp only: a(1) num)
  qed
qed

lemma stores_Fy:
  assumes "cx v1 \<noteq> cx v2" "small x" "small y" "small c" "\<not> pinched_y v1 v2 c x y"
    and "0 \<le> w" "0 \<le> base" "base + w < MAX_VALUE"
  shows "dle (dint c) (dint y) \<Longrightarrow> dle (dint y) (Fy (DoCalcCoeff v1 v2) (dint x)) \<Longrightarrow>
      stores (dadd (dint base) (scaled (dint c) (dint y) (Fy (DoCalcCoeff v1 v2) (dint x)) w))"
    and "dle (Fy (DoCalcCoeff v1 v2) (dint x)) (dint y) \<Longrightarrow> dle (dint y) (dint c) \<Longrightarrow>
      stores (scaled (Fy (DoCalcCoeff v1 v2) (dint x)) (dint y) (dint c) w)"
proof -
  have num: "dint c = Num (of_int c)" "dint y = Num (of_int y)"
    using small_bound [OF assms(3)] small_bound [OF assms(4)] by simp_all
  note no_pinch = assms(5) [unfolded pinched_y_def]
  show "stores (dadd (dint base) (scaled (dint c) (dint y) (Fy (DoCalcCoeff v1 v2) (dint x)) w))"
    if d: "dle (dint c) (dint y)" "dle (dint y) (Fy (DoCalcCoeff v1 v2) (dint x))"
  proof -
    obtain b where b: "Fy (DoCalcCoeff v1 v2) (dint x) = Num b" "of_int y \<le> b" "of_int c < b"
      using span_Fy(1) [OF assms(1-4) d no_pinch] by blast
    have "(of_int c :: rat) \<le> of_int y" using d(1) assms(3,4) by (simp add: dle_dint)
    from stores_offset [OF this b(2,3) assms(6-8)] show ?thesis by (simp only: b(1) num)
  qed
  show "stores (scaled (Fy (DoCalcCoeff v1 v2) (dint x)) (dint y) (dint c) w)"
    if d: "dle (Fy (DoCalcCoeff v1 v2) (dint x)) (dint y)" "dle (dint y) (dint c)"
  proof -
    obtain a where a: "Fy (DoCalcCoeff v1 v2) (dint x) = Num a" "a \<le> of_int y" "a < of_int c"
      using span_Fy(2) [OF assms(1-4) d no_pinch] by blast
    have "(of_int y :: rat) \<le> of_int c" using d(2) assms(3,4) by (simp add: dle_dint)
    from stores_scaled [OF a(2) this a(3) assms(6)] assms(7,8) show ?thesis
      by (simp only: a(1) num)
  qed
qed

section \<open>Properties\<close>

definition calibrated :: "touch_data \<Rightarrow> touch_data exec \<Rightarrow> bool" where
  "calibrated t r \<longleftrightarrow>
     (\<exists>t'. r = ok t' \<and>
        (t' = t \<or> t' = t\<lparr>unknown_flag := 4\<rparr> \<or>
         (uint (touch_x t') < MAX_VALUE \<and> uint (touch_y t') < MAX_VALUE \<and>
          t' = t\<lparr>touch_x := touch_x t', touch_y := touch_y t'\<rparr>)))"

lemma calibrated_simps [simp]:
  "calibrated t (ok t)" "calibrated t (ok (t\<lparr>unknown_flag := 4\<rparr>))"
  by (auto simp: calibrated_def)

lemma calibrated_if:
  "(b \<Longrightarrow> calibrated t x) \<Longrightarrow> (\<not> b \<Longrightarrow> calibrated t y) \<Longrightarrow> calibrated t (if b then x else y)"
  by simp

lemma calibrated_set_xy: "stores x \<Longrightarrow> stores y \<Longrightarrow> calibrated t (set_xy t x y)"
  by (auto simp: calibrated_def set_xy_def stores_def)

lemma calibrate_five_correct:
  assumes "CheckPointsLayoutFive P = STATUS_SUCCESS"
    and "\<not> pinched_five P (uint (touch_x t)) (uint (touch_y t))"
  shows "calibrated t (calibrate_five active_large P t)"
proof -
  let ?x = "uint (touch_x t)" and ?y = "uint (touch_y t)"
  from assms(1) have lay: "layout_five P" by (simp only: five_accepts)
  then have ne: "cy (P ! 0) \<noteq> cy (P ! 3)" "cy (P ! 1) \<noteq> cy (P ! 2)" "cx (P ! 0) \<noteq> cx (P ! 1)"
    "cx (P ! 2) \<noteq> cx (P ! 3)"
    by (auto simp: layout_five_def)
  from assms(2) have np: "\<not> pinched_x (P ! 0) (P ! 3) (cx (P ! 4)) ?x ?y"
    "\<not> pinched_x (P ! 1) (P ! 2) (cx (P ! 4)) ?x ?y"
    "\<not> pinched_y (P ! 0) (P ! 1) (cy (P ! 4)) ?x ?y"
    "\<not> pinched_y (P ! 2) (P ! 3) (cy (P ! 4)) ?x ?y"
    by (auto simp: pinched_five_def)
  have m: "0 \<le> MAX_VALUE div 2" "MAX_VALUE div 2 + MAX_VALUE div 2 < MAX_VALUE"
    by (simp_all add: MAX_VALUE_def)
  note sx = stores_Fx [OF _ small_coord small_coord small_coord _ m(1,1,2)]
  note sy = stores_Fy [OF _ small_coord small_coord small_coord _ m(1,1,2)]
  show ?thesis
    unfolding calibrate_five_def Let_def
    by (intro calibrated_if calibrated_set_xy calibrated_simps; elim conjE)
       (assumption | rule sx [OF ne(1) np(1)] sx [OF ne(2) np(2)] sy [OF ne(3) np(3)]
          sy [OF ne(4) np(4)])+
qed

text \<open>Nine points: a touch between two lines, and one between two inner columns.\<close>

definition pinched_lines ::
  "calibration_point \<times> calibration_point \<Rightarrow> calibration_point \<times> calibration_point \<Rightarrow> int \<Rightarrow> int \<Rightarrow> bool"
where
  "pinched_lines u v x y \<longleftrightarrow>
     at_column (fst u) (snd u) x = of_int y \<and> at_column (fst v) (snd v) x = of_int y"

definition pinched_nine :: "calibration_point list \<Rightarrow> int \<Rightarrow> int \<Rightarrow> bool" where
  "pinched_nine P x y \<longleftrightarrow>
     pinched_x (P ! 0) (P ! 4) (cx (P ! 6)) x y \<or> pinched_x (P ! 1) (P ! 3) (cx (P ! 8)) x y \<or>
     (\<exists>c \<in> {(P ! 5, P ! 6), (P ! 6, P ! 7), (P ! 7, P ! 8), (P ! 8, P ! 2)}.
        pinched_lines (P ! 0, P ! 1) c x y \<or> pinched_lines c (P ! 3, P ! 4) x y)"

lemma span_lines:
  assumes "cx u1 \<noteq> cx u2" "cx v1 \<noteq> cx v2" "small x" "small y"
    and "\<not> pinched_lines (u1, u2) (v1, v2) x y"
    and "dle (Fy (DoCalcCoeff u1 u2) (dint x)) (dint y)"
      "dle (dint y) (Fy (DoCalcCoeff v1 v2) (dint x))"
  shows "\<exists>a b. Fy (DoCalcCoeff u1 u2) (dint x) = Num a \<and> Fy (DoCalcCoeff v1 v2) (dint x) = Num b \<and>
    a \<le> of_int y \<and> of_int y \<le> b \<and> a < b"
proof -
  let ?A = "at_column u1 u2 x" and ?B = "at_column v1 v2 x"
  note y = small_bound [OF assms(4)]
  have le: "?A \<le> of_int y" "of_int y \<le> ?B"
    using assms(6,7) by (simp_all only: dle_Fy [OF assms(1,3,4)] dle_Fy [OF assms(2,3,4)])
  then have r: "rnd ?A \<le> of_int y" "of_int y \<le> rnd ?B"
    by (simp_all only: rnd_at_column [OF assms(1) y] rnd_at_column [OF assms(2) y])
  have "rnd ?A \<noteq> rnd ?B"
  proof
    assume "rnd ?A = rnd ?B"
    with r have "of_int y \<le> rnd ?A" "rnd ?B \<le> of_int y" by simp_all
    then have "of_int y \<le> ?A" "?B \<le> of_int y"
      by (simp_all only: rnd_at_column [OF assms(1) y] rnd_at_column [OF assms(2) y])
    with le assms(5) show False by (simp add: pinched_lines_def)
  qed
  with r show ?thesis
    by (intro exI [of _ "rnd ?A"] exI [of _ "rnd ?B"])
       (simp add: Fy_exact [OF assms(1,3)] Fy_exact [OF assms(2,3)] del: dint_small)
qed

lemma stores_lines:
  assumes "cx u1 \<noteq> cx u2" "cx v1 \<noteq> cx v2" "small x" "small y"
    and "\<not> pinched_lines (u1, u2) (v1, v2) x y"
    and "0 \<le> w" "0 \<le> base" "base + w < MAX_VALUE"
    and "dle (Fy (DoCalcCoeff u1 u2) (dint x)) (dint y)"
      "dle (dint y) (Fy (DoCalcCoeff v1 v2) (dint x))"
  shows "stores (scaled (Fy (DoCalcCoeff u1 u2) (dint x)) (dint y) (Fy (DoCalcCoeff v1 v2) (dint x)) w)"
    and "stores (dadd (dint base)
      (scaled (Fy (DoCalcCoeff u1 u2) (dint x)) (dint y) (Fy (DoCalcCoeff v1 v2) (dint x)) w))"
proof -
  obtain a b where ab: "Fy (DoCalcCoeff u1 u2) (dint x) = Num a" "Fy (DoCalcCoeff v1 v2) (dint x) = Num b"
    "a \<le> of_int y" "of_int y \<le> b" "a < b"
    using span_lines [OF assms(1-5,9,10)] by blast
  have y: "dint y = Num (of_int y)" using small_bound [OF assms(4)] by simp
  show "stores (scaled (Fy (DoCalcCoeff u1 u2) (dint x)) (dint y) (Fy (DoCalcCoeff v1 v2) (dint x)) w)"
    using stores_scaled [OF ab(3-5) assms(6)] assms(7,8) by (simp only: ab(1,2) y)
  show "stores (dadd (dint base)
      (scaled (Fy (DoCalcCoeff u1 u2) (dint x)) (dint y) (Fy (DoCalcCoeff v1 v2) (dint x)) w))"
    using stores_offset [OF ab(3-5) assms(6-8)] by (simp only: ab(1,2) y)
qed

lemma stores_columns:
  assumes "c < d" "small x" "small c" "small d"
    and "0 \<le> w" "0 \<le> base" "base + w < MAX_VALUE"
    and "dle (dint c) (dint x)" "dle (dint x) (dint d)"
  shows "stores (dadd (dint base) (scaled (dint c) (dint x) (dint d) w))"
proof -
  have num: "dint c = Num (of_int c)" "dint x = Num (of_int x)" "dint d = Num (of_int d)"
    using small_bound [OF assms(2)] small_bound [OF assms(3)] small_bound [OF assms(4)] by simp_all
  have "(of_int c :: rat) \<le> of_int x" "(of_int x :: rat) \<le> of_int d" "(of_int c :: rat) < of_int d"
    using assms(1-4,8,9) by (simp_all add: dle_dint)
  from stores_offset [OF this assms(5-7)] show ?thesis by (simp only: num)
qed

lemma calibrate_nine_correct:
  assumes "CheckPointsLayoutNine P = STATUS_SUCCESS"
    and "\<not> pinched_nine P (uint (touch_x t)) (uint (touch_y t))"
  shows "calibrated t (calibrate_nine active_large P t)"
proof -
  let ?x = "uint (touch_x t)" and ?y = "uint (touch_y t)"
  from assms(1) have lay: "layout_nine P" by (simp only: nine_accepts)
  then have ne: "cy (P ! 0) \<noteq> cy (P ! 4)" "cy (P ! 1) \<noteq> cy (P ! 3)" "cx (P ! 0) \<noteq> cx (P ! 1)"
    "cx (P ! 3) \<noteq> cx (P ! 4)"
    and c: "cx (P ! 5) \<noteq> cx (P ! 6)" "cx (P ! 6) \<noteq> cx (P ! 7)" "cx (P ! 7) \<noteq> cx (P ! 8)"
    "cx (P ! 8) \<noteq> cx (P ! 2)"
    and lt: "cx (P ! 6) < cx (P ! 7)" "cx (P ! 7) < cx (P ! 8)"
    by (auto simp: layout_nine_def)
  from assms(2) have np: "\<not> pinched_x (P ! 0) (P ! 4) (cx (P ! 6)) ?x ?y"
    "\<not> pinched_x (P ! 1) (P ! 3) (cx (P ! 8)) ?x ?y"
    and up: "\<not> pinched_lines (P ! 0, P ! 1) (P ! 5, P ! 6) ?x ?y"
    "\<not> pinched_lines (P ! 0, P ! 1) (P ! 6, P ! 7) ?x ?y"
    "\<not> pinched_lines (P ! 0, P ! 1) (P ! 7, P ! 8) ?x ?y"
    "\<not> pinched_lines (P ! 0, P ! 1) (P ! 8, P ! 2) ?x ?y"
    and lo: "\<not> pinched_lines (P ! 5, P ! 6) (P ! 3, P ! 4) ?x ?y"
    "\<not> pinched_lines (P ! 6, P ! 7) (P ! 3, P ! 4) ?x ?y"
    "\<not> pinched_lines (P ! 7, P ! 8) (P ! 3, P ! 4) ?x ?y"
    "\<not> pinched_lines (P ! 8, P ! 2) (P ! 3, P ! 4) ?x ?y"
    by (auto simp: pinched_nine_def)
  have m2: "0 \<le> MAX_VALUE div 2" "MAX_VALUE div 2 + MAX_VALUE div 2 < MAX_VALUE"
    and m4: "0 \<le> MAX_VALUE div 4" "MAX_VALUE div 4 + MAX_VALUE div 4 < MAX_VALUE"
    "MAX_VALUE div 2 + MAX_VALUE div 4 < MAX_VALUE" "0 \<le> MAX_VALUE * 3 div 4"
    "MAX_VALUE * 3 div 4 + MAX_VALUE div 4 < MAX_VALUE"
    by (simp_all add: MAX_VALUE_def)
  note sl = stores_lines [OF _ _ small_coord small_coord _ m2(1,1,2)]
  note sx = stores_Fx [OF _ small_coord small_coord small_coord]
  note sc = stores_columns [OF _ small_coord small_coord small_coord m4(1)]
  show ?thesis
    unfolding calibrate_nine_def Let_def
    by (intro calibrated_if calibrated_set_xy calibrated_simps; elim conjE)
       (assumption
        | rule sx(2) [OF ne(1) np(1) m4(1,1,2)] sx(1) [OF ne(2) np(2) m4(1,4,5)]
            sc [OF lt(1) m4(1,2)] sc [OF lt(2) m2(1) m4(3)]
            sl [OF ne(3) c(1) up(1)] sl [OF ne(3) c(2) up(2)] sl [OF ne(3) c(3) up(3)]
            sl [OF ne(3) c(4) up(4)] sl [OF c(1) ne(4) lo(1)] sl [OF c(2) ne(4) lo(2)]
            sl [OF c(3) ne(4) lo(3)] sl [OF c(4) ne(4) lo(4)])+
qed

lemma each_touch_calibrated:
  assumes "\<And>t. t \<in> set ts \<Longrightarrow> calibrated t (f t)"
  shows "\<exists>ts'. each_touch f ts = ok ts' \<and>
    list_all2 (\<lambda>t t'. f t = ok t' \<and> calibrated t (ok t')) ts ts'"
  using assms
proof (induction ts)
  case Nil
  then show ?case by simp
next
  case (Cons t ts)
  then obtain ts' where "each_touch f ts = ok ts'"
    "list_all2 (\<lambda>t t'. f t = ok t' \<and> calibrated t (ok t')) ts ts'"
    by auto
  moreover obtain t' where "f t = ok t'" using Cons.prems [of t] by (auto simp: calibrated_def)
  moreover have "calibrated t (f t)" by (rule Cons.prems) simp
  ultimately show ?case by (intro exI [of _ "t' # ts'"]) simp
qed

text \<open>What a packet may become: its touches one by one, everything else as it was.\<close>

definition packet_calibrated ::
  "(touch_data \<Rightarrow> touch_data exec) \<Rightarrow> touch_packet \<Rightarrow> touch_packet \<Rightarrow> bool" where
  "packet_calibrated f b b' \<longleftrightarrow> b' = b\<lparr>touches := touches b'\<rparr> \<and>
     list_all2 (\<lambda>t t'. f t = ok t' \<and> calibrated t (ok t')) (touches b) (touches b')"

lemma update_packet_calibrated:
  assumes "length (touches b) = SIX_POINTS_IN_PACKET"
    and "\<And>t. t \<in> set (touches b) \<Longrightarrow> calibrated t (f t)"
  shows "\<exists>b'. update_packet f b = ok b' \<and> packet_calibrated f b b'"
proof -
  obtain ts where "each_touch f (touches b) = ok ts"
    "list_all2 (\<lambda>t t'. f t = ok t' \<and> calibrated t (ok t')) (touches b) ts"
    using each_touch_calibrated [OF assms(2)] by blast
  with assms(1) show ?thesis by (simp add: update_packet_def packet_calibrated_def)
qed

text \<open>C1: With five points that the layout check has accepted and a packet of six touches none
  of which sits just where an edge crosses the centre's column or row, the calibration
  meets no undefined conversion. Each touch is left alone, dismissed with flag 4, or moved
  to coordinates from 0 to 32766; all other fields of the packet keep their value.\<close>

theorem calibration_five_correct:
  assumes "CheckPointsLayoutFive P = STATUS_SUCCESS"
    and "length (touches b) = SIX_POINTS_IN_PACKET"
    and "\<And>t. t \<in> set (touches b) \<Longrightarrow> \<not> pinched_five P (uint (touch_x t)) (uint (touch_y t))"
  shows "\<exists>b'. DoFloatingPointCalculationForCalibrationFive P (Some b) active_large = ok (Some b') \<and>
    packet_calibrated (calibrate_five active_large P) b b'"
proof -
  obtain b' where "update_packet (calibrate_five active_large P) b = ok b'"
    "packet_calibrated (calibrate_five active_large P) b b'"
    using update_packet_calibrated [OF assms(2)] calibrate_five_correct [OF assms(1)] assms(3) by metis
  then show ?thesis by (simp add: DoFloatingPointCalculationForCalibrationFive_def)
qed

definition square_points :: "calibration_point list" where
  "square_points =
     [\<lparr>px = 1000, py = 1000\<rparr>, \<lparr>px = 31000, py = 1000\<rparr>, \<lparr>px = 31000, py = 31000\<rparr>,
      \<lparr>px = 1000, py = 31000\<rparr>, \<lparr>px = 16000, py = 16000\<rparr>]"

definition touch_at :: "u16 \<Rightarrow> u16 \<Rightarrow> touch_data" where
  "touch_at x y = \<lparr>unknown_flag = 7, touch_id = 1, touch_x = x, touch_y = y, touch_width = 10,
     touch_height = 10\<rparr>"

definition packet_at :: "u16 \<Rightarrow> u16 \<Rightarrow> touch_packet" where
  "packet_at x y = \<lparr>packet_unknown = 2, touches = replicate 6 (touch_at x y), packet_points = 6\<rparr>"

lemma square_accepted: "CheckPointsLayoutFive square_points = STATUS_SUCCESS"
  by (simp only: five_accepts)
     (simp add: layout_five_def inside_frame_def square_points_def at_height_def at_column_def)

lemma calibration_five_correct_witness:
  "\<exists>b'. DoFloatingPointCalculationForCalibrationFive square_points (Some (packet_at 5000 6000)) True
      = ok (Some b') \<and>
    packet_calibrated (calibrate_five True square_points) (packet_at 5000 6000) b'"
  by (rule calibration_five_correct [OF square_accepted])
     (auto simp: packet_at_def SIX_POINTS_IN_PACKET_def touch_at_def pinched_five_def
       pinched_x_def pinched_y_def square_points_def)

text \<open>C5: The same for nine points and the eight regions round the three inner points.\<close>

theorem calibration_nine_correct:
  assumes "CheckPointsLayoutNine P = STATUS_SUCCESS"
    and "length (touches b) = SIX_POINTS_IN_PACKET"
    and "\<And>t. t \<in> set (touches b) \<Longrightarrow> \<not> pinched_nine P (uint (touch_x t)) (uint (touch_y t))"
  shows "\<exists>b'. DoFloatingPointCalculationForCalibrationNine P (Some b) active_large = ok (Some b') \<and>
    packet_calibrated (calibrate_nine active_large P) b b'"
proof -
  obtain b' where "update_packet (calibrate_nine active_large P) b = ok b'"
    "packet_calibrated (calibrate_nine active_large P) b b'"
    using update_packet_calibrated [OF assms(2)] calibrate_nine_correct [OF assms(1)] assms(3) by metis
  then show ?thesis by (simp add: DoFloatingPointCalculationForCalibrationNine_def)
qed

definition nine_points :: "calibration_point list" where
  "nine_points =
     [\<lparr>px = 1000, py = 1000\<rparr>, \<lparr>px = 31000, py = 1000\<rparr>, \<lparr>px = 31000, py = 16000\<rparr>,
      \<lparr>px = 31000, py = 31000\<rparr>, \<lparr>px = 1000, py = 31000\<rparr>, \<lparr>px = 1000, py = 16000\<rparr>,
      \<lparr>px = 8000, py = 16000\<rparr>, \<lparr>px = 16000, py = 16000\<rparr>, \<lparr>px = 24000, py = 16000\<rparr>]"

lemma nine_accepted: "CheckPointsLayoutNine nine_points = STATUS_SUCCESS"
  by (simp only: nine_accepts)
     (simp add: layout_nine_def inside_frame_def nine_points_def at_height_def at_column_def)

lemma calibration_nine_correct_witness:
  "\<exists>b'. DoFloatingPointCalculationForCalibrationNine nine_points (Some (packet_at 5000 6000)) True
      = ok (Some b') \<and>
    packet_calibrated (calibrate_nine True nine_points) (packet_at 5000 6000) b'"
  by (rule calibration_nine_correct [OF nine_accepted])
     (auto simp: packet_at_def SIX_POINTS_IN_PACKET_def touch_at_def pinched_nine_def
       pinched_x_def pinched_lines_def nine_points_def at_column_def at_height_def)

text \<open>Where the right edge crosses the centre's column, a touch makes the driver divide zero
  by zero and convert the NaN to \<open>UINT16\<close>, whatever the layout check has said: the check
  compares the edges with the centre only at the centre's own height.\<close>

theorem calibrate_five_undefined:
  assumes "cy (P ! 1) \<noteq> cy (P ! 2)" "cx (P ! 0) \<noteq> cx (P ! 1)"
    and "touch_id t \<noteq> 0xFF" "\<not> too_large active_large t"
    and "uint (touch_x t) = cx (P ! 4)"
    and "at_height (P ! 1) (P ! 2) (uint (touch_y t)) = of_int (cx (P ! 4))"
    and "at_column (P ! 0) (P ! 1) (cx (P ! 4)) \<le> of_int (uint (touch_y t))"
    and "touch_y t \<le> py (P ! 4)"
  shows "calibrate_five active_large P t = abort BadConversion"
proof -
  let ?x = "uint (touch_x t)" and ?y = "uint (touch_y t)"
  let ?r = "Fx (DoCalcCoeff (P ! 1) (P ! 2)) (dint ?y)"
  have "?r = Num (rnd (of_int (cx (P ! 4))))"
    by (simp only: Fx_exact [OF assms(1) small_coord] assms(6))
  then have F: "?r = dint ?x" by (simp only: assms(5) dint_def)
  have dx: "dint ?x = Num (of_int (cx (P ! 4)))"
    using small_bound [OF small_coord, of "px (P ! 4)"] by (simp only: assms(5)) simp
  have "dle (dint (cx (P ! 4))) (dint ?x)" "dle (dint ?x) ?r"
    using assms(5) by (simp_all only: F dle_dint small_coord)
  moreover have "dle (Fy (DoCalcCoeff (P ! 0) (P ! 1)) (dint ?x)) (dint ?y)"
    using assms(5,7) by (simp only: dle_Fy [OF assms(2) small_coord small_coord])
  moreover have "dle (dint ?y) (dint (cy (P ! 4)))"
    using assms(8) by (simp only: dle_dint small_coord word_le_def)
  moreover have "scaled (dint (cx (P ! 4))) (dint ?x) ?r (MAX_VALUE div 2) = NaN"
    using dx by (simp only: F assms(5) [symmetric]) (simp only: scaled_nan)
  ultimately show ?thesis
    using assms(3,4)
    by (simp add: calibrate_five_def Let_def set_xy_def to_u16_def MAX_VALUE_def
        del: dint_le One_nat_def)
qed

definition slanted_points :: "calibration_point list" where
  "slanted_points =
     [\<lparr>px = 0, py = 0\<rparr>, \<lparr>px = 10000, py = 0\<rparr>, \<lparr>px = 30000, py = 20000\<rparr>,
      \<lparr>px = 0, py = 20000\<rparr>, \<lparr>px = 15000, py = 10000\<rparr>]"

lemma calibrate_five_undefined_witness:
  "CheckPointsLayoutFive slanted_points = STATUS_SUCCESS \<and>
   calibrate_five True slanted_points (touch_at 15000 5000) = abort BadConversion"
proof
  show "CheckPointsLayoutFive slanted_points = STATUS_SUCCESS"
    by (simp only: five_accepts)
       (simp add: layout_five_def inside_frame_def slanted_points_def at_height_def at_column_def)
  show "calibrate_five True slanted_points (touch_at 15000 5000) = abort BadConversion"
    by (rule calibrate_five_undefined)
       (simp_all add: slanted_points_def touch_at_def too_large_def at_height_def at_column_def)
qed

end
