(* ===== verification/DriverState.thy ===== *)
theory DriverState
  imports Machine Calibration
begin

text \<open>
  The state of the touchscreen filter driver (\<open>WDM_filter_driver/TouchscreenFilterDriver.c\<close>
  and \<open>.h\<close>), the kernel it runs on, and the access to both.

  The driver keeps one device object per touch panel (a FiDO, with a \<open>DEVICE_EXTENSION\<close>) and
  one for its control channel (the EDO, with an \<open>EXTRA_DEVICE_EXTENSION\<close>). Device objects
  live in a map from addresses; using one that was deleted is a fault. The kernel's answers
  (status codes, handles, pool memory, registry contents, what a lower driver returns) are
  the functions of the record \<open>kernel\<close>, applied to the history of calls; each call is an
  event. Pool memory and handles are numbers; \<open>None\<close> is the null pointer, and for a handle a
  variable that was never written. The safe-string routines of \<open>ntstrsafe.h\<close> are parameters
  of the same record.
\<close>

section \<open>Data\<close>

type_synonym dev = nat
type_synonym handle = "nat option"
type_synonym wstr = "u16 list"

definition wide :: "string \<Rightarrow> wstr" where
  "wide s = map of_char s"

record device_extension =
  lower_device :: dev
  pdo :: dev
  active_large_touches :: u8
  device_target :: u8
  device_active :: u8
  id_instance :: u32

record extra_device_extension =
  target_device :: "dev option"
  cpoints :: "calibration_point list"
  number_points :: u16
  check_points :: u8
  start_flag :: u8
  tabcal_in_reg :: u8

datatype extension = Fido device_extension | Extra extra_device_extension

record device_object =
  flag :: u32
  dev_flags :: u32
  characteristics :: u32
  dev_extension :: extension

record driver =
  Edo :: "dev option"
  NumberDevices :: u32
  devices :: "dev \<rightharpoonup> device_object"
  RegistryPathService :: wstr
  path_buffer :: "nat option"

definition FIDO_EXTENSION :: u32 where "FIDO_EXTENSION = 0"
definition EDO_EXTENSION :: u32 where "EDO_EXTENSION = 1"
definition FIVE_CALIBRATION_POINTS :: u16 where "FIVE_CALIBRATION_POINTS = 5"
definition NINE_CALIBRATION_POINTS :: u16 where "NINE_CALIBRATION_POINTS = 9"
definition PAGE_SIZE :: u32 where "PAGE_SIZE = 4096"
definition TMP_BUFFER_SIZE :: u32 where "TMP_BUFFER_SIZE = 0x600"
definition WAITING_TIME :: nat where "WAITING_TIME = 30"

definition STATUS_TIMEOUT :: ntstatus where "STATUS_TIMEOUT = 0x102"
definition STATUS_INVALID_DEVICE_REQUEST :: ntstatus where "STATUS_INVALID_DEVICE_REQUEST = 0xC0000010"
definition STATUS_BUFFER_TOO_SMALL :: ntstatus where "STATUS_BUFFER_TOO_SMALL = 0xC0000023"
definition STATUS_OBJECT_TYPE_MISMATCH :: ntstatus where "STATUS_OBJECT_TYPE_MISMATCH = 0xC0000024"
definition STATUS_OBJECT_NAME_NOT_FOUND :: ntstatus where "STATUS_OBJECT_NAME_NOT_FOUND = 0xC0000034"
definition STATUS_DELETE_PENDING :: ntstatus where "STATUS_DELETE_PENDING = 0xC0000056"
definition STATUS_FLOAT_INVALID_OPERATION :: ntstatus where
  "STATUS_FLOAT_INVALID_OPERATION = 0xC0000090"
definition STATUS_INSUFFICIENT_RESOURCES :: ntstatus where
  "STATUS_INSUFFICIENT_RESOURCES = 0xC000009A"
definition STATUS_INVALID_ADDRESS :: ntstatus where "STATUS_INVALID_ADDRESS = 0xC0000141"
definition STATUS_DEVICE_CONFIGURATION_ERROR :: ntstatus where
  "STATUS_DEVICE_CONFIGURATION_ERROR = 0xC0000182"
definition STATUS_INVALID_DEVICE_STATE :: ntstatus where "STATUS_INVALID_DEVICE_STATE = 0xC0000184"
definition STATUS_INVALID_BUFFER_SIZE :: ntstatus where "STATUS_INVALID_BUFFER_SIZE = 0xC0000206"
definition STATUS_INVALID_VARIANT :: ntstatus where "STATUS_INVALID_VARIANT = 0xC0000232"

lemmas status_defs = STATUS_SUCCESS_def STATUS_INVALID_PARAMETER_def STATUS_TIMEOUT_def
  STATUS_INVALID_DEVICE_REQUEST_def STATUS_BUFFER_TOO_SMALL_def STATUS_OBJECT_TYPE_MISMATCH_def
  STATUS_OBJECT_NAME_NOT_FOUND_def STATUS_DELETE_PENDING_def STATUS_FLOAT_INVALID_OPERATION_def
  STATUS_INSUFFICIENT_RESOURCES_def STATUS_INVALID_ADDRESS_def
  STATUS_DEVICE_CONFIGURATION_ERROR_def STATUS_INVALID_DEVICE_STATE_def
  STATUS_INVALID_BUFFER_SIZE_def STATUS_INVALID_VARIANT_def

lemma nt_success_failures [simp]:
  "\<not> nt_success STATUS_INVALID_DEVICE_REQUEST" "\<not> nt_success STATUS_BUFFER_TOO_SMALL"
  "\<not> nt_success STATUS_OBJECT_TYPE_MISMATCH" "\<not> nt_success STATUS_OBJECT_NAME_NOT_FOUND"
  "\<not> nt_success STATUS_DELETE_PENDING" "\<not> nt_success STATUS_FLOAT_INVALID_OPERATION"
  "\<not> nt_success STATUS_INSUFFICIENT_RESOURCES" "\<not> nt_success STATUS_INVALID_ADDRESS"
  "\<not> nt_success STATUS_DEVICE_CONFIGURATION_ERROR" "\<not> nt_success STATUS_INVALID_DEVICE_STATE"
  "\<not> nt_success STATUS_INVALID_BUFFER_SIZE" "\<not> nt_success STATUS_INVALID_VARIANT"
  "nt_success STATUS_TIMEOUT"
  by (simp_all add: nt_success_def status_defs)

section \<open>The kernel\<close>

datatype kernel_event = SyncEvent | SyncCloseCreateEvent

datatype routine = ReadCompletion | StartCompletion | UsageCompletion

text \<open>A registry value as \<open>ZwQueryValueKey\<close> delivers it, and the facts on a key.\<close>

record value_info =
  value_type :: u32
  data_length :: u32
  value_data :: "u8 list"

record key_info =
  sub_keys :: u32
  max_name_len :: u32

text \<open>The calls, by the part of the kernel they go to.\<close>

datatype irp_event =
    Complete nat ntstatus u32
  | FillBuffer nat wstr
  | MarkPending nat
  | SkipLocation nat
  | CopyLocation nat
  | SetCompletion dev nat routine
  | CallLower dev nat ntstatus
  | StartNextPower nat

datatype lock_event =
    AcquireLock dev "nat option" ntstatus
  | ReleaseLock dev "nat option"
  | ReleaseLockAndWait dev "nat option"
  | InitLock dev

datatype signal_event =
    WaitFor kernel_event ntstatus
  | SetSignal kernel_event
  | ReadSignal kernel_event bool
  | Delay
  | InitSignal kernel_event bool

datatype registry_event =
    OpenKey wstr ntstatus handle
  | CloseKey handle
  | QueryValue handle wstr u32 ntstatus
  | SetValue handle wstr u32 "u8 list" ntstatus
  | DeleteValue handle wstr ntstatus
  | QueryKey handle u32 ntstatus
  | EnumerateKey handle u32

datatype pool_event =
    Alloc string u32 "nat option"
  | Free string nat

datatype cpu_event =
    SaveState ntstatus
  | RestoreState
  | LockPages
  | MapPages bool
  | UnlockPages

datatype device_event =
    GetProperty dev ntstatus
  | CreateDevice ntstatus "dev option"
  | DeleteDevice dev
  | CreateLink ntstatus
  | DeleteLink
  | Attach dev dev ntstatus
  | Detach dev
  | ReferenceTop dev
  | Dereference

datatype event =
    Irp irp_event
  | Lock lock_event
  | Signal signal_event
  | Registry registry_event
  | Pool pool_event
  | Cpu cpu_event
  | Device device_event

record kernel =
  k_lock :: "event list \<Rightarrow> dev \<Rightarrow> ntstatus"
  k_call :: "event list \<Rightarrow> dev \<Rightarrow> ntstatus"
  k_wait :: "event list \<Rightarrow> kernel_event \<Rightarrow> ntstatus"
  k_signal :: "event list \<Rightarrow> kernel_event \<Rightarrow> bool"
  k_open :: "event list \<Rightarrow> wstr \<Rightarrow> ntstatus \<times> nat"
  k_query :: "event list \<Rightarrow> handle \<Rightarrow> wstr \<Rightarrow> u32 \<Rightarrow> ntstatus \<times> value_info \<times> u32"
  k_set :: "event list \<Rightarrow> handle \<Rightarrow> wstr \<Rightarrow> ntstatus"
  k_delete :: "event list \<Rightarrow> handle \<Rightarrow> wstr \<Rightarrow> ntstatus"
  k_query_key :: "event list \<Rightarrow> handle \<Rightarrow> u32 \<Rightarrow> ntstatus \<times> key_info \<times> u32"
  k_enum_key :: "event list \<Rightarrow> handle \<Rightarrow> u32 \<Rightarrow> wstr \<times> u32"
  k_alloc :: "event list \<Rightarrow> string \<Rightarrow> u32 \<Rightarrow> nat option"
  k_save_state :: "event list \<Rightarrow> ntstatus"
  k_map_pages :: "event list \<Rightarrow> touch_packet option"
  k_chain :: "event list \<Rightarrow> dev list"
  k_attached_flags :: "event list \<Rightarrow> dev \<Rightarrow> u32 option"
  k_lower_flags :: "event list \<Rightarrow> dev \<Rightarrow> u32"
  k_lower_characteristics :: "event list \<Rightarrow> dev \<Rightarrow> u32"
  k_property :: "event list \<Rightarrow> dev \<Rightarrow> string \<Rightarrow> ntstatus \<times> wstr \<times> u32"
  k_create_device :: "event list \<Rightarrow> ntstatus \<times> dev"
  k_create_link :: "event list \<Rightarrow> ntstatus"
  k_attach :: "event list \<Rightarrow> dev \<Rightarrow> ntstatus \<times> dev"
  k_device_type :: "event list \<Rightarrow> dev \<Rightarrow> u32 option"
  cb_length :: "wstr \<Rightarrow> ntstatus \<times> u32"
  cb_copy :: "u32 \<Rightarrow> wstr \<Rightarrow> wstr"
  cb_cat :: "u32 \<Rightarrow> wstr \<Rightarrow> wstr \<Rightarrow> ntstatus \<times> wstr"
  cb_printf :: "u32 \<Rightarrow> string \<Rightarrow> u32 list \<Rightarrow> ntstatus \<times> wstr"
  to_integer :: "wstr \<Rightarrow> u32 option"

type_synonym 'a drv = "(event, driver, 'a) prog"

section \<open>Access to the driver's memory\<close>

definition blank_fido :: device_extension where
  "blank_fido = \<lparr>lower_device = 0, pdo = 0, active_large_touches = 0, device_target = 0,
     device_active = 0, id_instance = 0\<rparr>"

definition blank_extra :: extra_device_extension where
  "blank_extra = \<lparr>target_device = None, cpoints = replicate 9 \<lparr>px = 0, py = 0\<rparr>, number_points = 0,
     check_points = 0, start_flag = 0, tabcal_in_reg = 0\<rparr>"

definition blank_device :: device_object where
  "blank_device = \<lparr>flag = 0, dev_flags = 0, characteristics = 0, dev_extension = Fido blank_fido\<rparr>"

definition load_device :: "dev \<Rightarrow> device_object drv" where
  "load_device d = do {
     m \<leftarrow> reads devices;
     case m d of
       None \<Rightarrow> do { crash DanglingPointer; ret blank_device }
     | Some x \<Rightarrow> ret x }"

definition get_fido :: "dev \<Rightarrow> device_extension drv" where
  "get_fido d = do {
     x \<leftarrow> load_device d;
     case dev_extension x of
       Fido p \<Rightarrow> ret p
     | Extra e \<Rightarrow> do { crash TypeConfusion; ret blank_fido } }"

definition get_extra :: "dev \<Rightarrow> extra_device_extension drv" where
  "get_extra d = do {
     x \<leftarrow> load_device d;
     case dev_extension x of
       Extra e \<Rightarrow> ret e
     | Fido p \<Rightarrow> do { crash TypeConfusion; ret blank_extra } }"

text \<open>\<open>(PEXTRA_DEVICE_EXTENSION)Edo->DeviceExtension\<close>: the address of the EDO, checked.\<close>

definition edo_device :: "dev drv" where
  "edo_device = do {
     e \<leftarrow> reads Edo;
     case e of
       None \<Rightarrow> do { crash NullDeref; ret 0 }
     | Some d \<Rightarrow> do { load_device d; ret d } }"

definition put_device :: "dev \<Rightarrow> (device_object \<Rightarrow> device_object) \<Rightarrow> unit drv" where
  "put_device d f = do {
     x \<leftarrow> load_device d;
     modify (\<lambda>s. s\<lparr>devices := (devices s)(d \<mapsto> f x)\<rparr>) }"

definition put_fido :: "dev \<Rightarrow> (device_extension \<Rightarrow> device_extension) \<Rightarrow> unit drv" where
  "put_fido d f = do {
     p \<leftarrow> get_fido d;
     put_device d (\<lambda>x. x\<lparr>dev_extension := Fido (f p)\<rparr>) }"

definition put_extra :: "dev \<Rightarrow> (extra_device_extension \<Rightarrow> extra_device_extension) \<Rightarrow> unit drv" where
  "put_extra d f = do {
     e \<leftarrow> get_extra d;
     put_device d (\<lambda>x. x\<lparr>dev_extension := Extra (f e)\<rparr>) }"

section \<open>Calls\<close>

definition alloc :: "kernel \<Rightarrow> string \<Rightarrow> u32 \<Rightarrow> nat option drv" where
  "alloc K tag n = call (\<lambda>h. k_alloc K h tag n) (\<lambda>p. Pool (Alloc tag n p))"

definition free_pool :: "string \<Rightarrow> nat \<Rightarrow> unit drv" where
  "free_pool tag p = emit (Pool (Free tag p))"

definition open_key :: "kernel \<Rightarrow> wstr \<Rightarrow> (ntstatus \<times> handle) drv" where
  "open_key K path =
     call (\<lambda>h. let (st, n) = k_open K h path in (st, if nt_success st then Some n else None))
       (\<lambda>(st, hk). Registry (OpenKey path st hk))"

definition close_key :: "handle \<Rightarrow> unit drv" where
  "close_key hk = emit (Registry (CloseKey hk))"

definition query_value ::
  "kernel \<Rightarrow> handle \<Rightarrow> wstr \<Rightarrow> u32 \<Rightarrow> (ntstatus \<times> value_info \<times> u32) drv" where
  "query_value K hk name n =
     call (\<lambda>h. k_query K h hk name n) (\<lambda>(st, vi, size). Registry (QueryValue hk name n st))"

definition set_value :: "kernel \<Rightarrow> handle \<Rightarrow> wstr \<Rightarrow> u32 \<Rightarrow> u8 list \<Rightarrow> ntstatus drv" where
  "set_value K hk name ty bytes = call (\<lambda>h. k_set K h hk name) (\<lambda>st. Registry (SetValue hk name ty bytes st))"

definition delete_value :: "kernel \<Rightarrow> handle \<Rightarrow> wstr \<Rightarrow> ntstatus drv" where
  "delete_value K hk name = call (\<lambda>h. k_delete K h hk name) (\<lambda>st. Registry (DeleteValue hk name st))"

definition save_state :: "kernel \<Rightarrow> ntstatus drv" where
  "save_state K = call (k_save_state K) (\<lambda>st. Cpu (SaveState st))"

definition complete_irp :: "nat \<Rightarrow> ntstatus \<Rightarrow> u32 \<Rightarrow> unit drv" where
  "complete_irp irp st info = emit (Irp (Complete irp st info))"

definition acquire_lock :: "kernel \<Rightarrow> dev \<Rightarrow> nat option \<Rightarrow> ntstatus drv" where
  "acquire_lock K d tag = call (\<lambda>h. k_lock K h d) (\<lambda>st. Lock (AcquireLock d tag st))"

definition call_lower :: "kernel \<Rightarrow> dev \<Rightarrow> nat \<Rightarrow> ntstatus drv" where
  "call_lower K d irp = call (\<lambda>h. k_call K h d) (\<lambda>st. Irp (CallLower d irp st))"

definition wait_for :: "kernel \<Rightarrow> kernel_event \<Rightarrow> ntstatus drv" where
  "wait_for K ev = call (\<lambda>h. k_wait K h ev) (\<lambda>st. Signal (WaitFor ev st))"

section \<open>Bytes\<close>

unbundle bit_operations_syntax

definition le32 :: "u32 \<Rightarrow> u8 list" where
  "le32 v = map (\<lambda>i. ucast (drop_bit (8 * i) v)) [0, 1, 2, 3]"

definition le16 :: "u16 \<Rightarrow> u8 list" where
  "le16 v = map (\<lambda>i. ucast (drop_bit (8 * i) v)) [0, 1]"

fun words16 :: "u8 list \<Rightarrow> u16 list" where
  "words16 (a # b # bs) = (ucast a OR push_bit 8 (ucast b)) # words16 bs"
| "words16 _ = []"

definition load_u32 :: "u8 list \<Rightarrow> u32 drv" where
  "load_u32 bs =
     (case bs of
        a # b # c # d # _ \<Rightarrow>
          ret (ucast a OR push_bit 8 (ucast b) OR push_bit 16 (ucast c) OR push_bit 24 (ucast d))
      | _ \<Rightarrow> do { crash BufferOverflow; ret 0 })"

text \<open>
  The data bytes of a value in a buffer of \<open>n\<close> bytes, behind the header of 12 bytes. The
  pool memory is zeroed when it is allocated.
\<close>

definition partial_data :: "u32 \<Rightarrow> value_info \<Rightarrow> u8 list" where
  "partial_data n vi = take (unat n - 12) (value_data vi @ replicate (unat n) 0)"

end
