(* ===== verification/Registry.thy ===== *)
theory Registry
  imports DriverState
begin

text \<open>
  The registry access of the touchscreen filter driver, function by function in the order
  of \<open>WDM_filter_driver/TouchscreenFilterDriver.c\<close>: DWORD values, the \<open>REG_MULTI_SZ\<close> list of
  upper filters, the calibration points, and the walk over the tabcal values of all panels.
  A value read into an output parameter is an option, \<open>None\<close> when nothing was written to it.
\<close>

section \<open>Values\<close>

definition REG_BINARY :: u32 where "REG_BINARY = 3"
definition REG_DWORD :: u32 where "REG_DWORD = 4"
definition REG_MULTI_SZ :: u32 where "REG_MULTI_SZ = 7"

definition GetDwordValueFromRegistry :: "kernel \<Rightarrow> wstr \<Rightarrow> (ntstatus \<times> u32 option) drv" where
  "GetDwordValueFromRegistry K name = do {
     path \<leftarrow> reads RegistryPathService;
     (st, hk) \<leftarrow> open_key K path;
     if \<not> nt_success st then do { close_key hk; ret (st, None) }
     else do {
       (st, vi, size) \<leftarrow> query_value K hk name 0;
       if st = STATUS_OBJECT_NAME_NOT_FOUND \<or> size = 0 then do { close_key hk; ret (st, None) }
       else do {
         inf \<leftarrow> alloc K ''key'' (min size PAGE_SIZE);
         case inf of
           None \<Rightarrow> do { close_key hk; ret (STATUS_INSUFFICIENT_RESOURCES, None) }
         | Some p \<Rightarrow> do {
             (st, vi, size') \<leftarrow> query_value K hk name (min size PAGE_SIZE);
             if \<not> nt_success st then do { close_key hk; free_pool ''key'' p; ret (st, None) }
             else if value_type vi \<noteq> REG_DWORD
             then do { close_key hk; free_pool ''key'' p; ret (STATUS_INVALID_VARIANT, None) }
             else do {
               v \<leftarrow> load_u32 (partial_data (min size PAGE_SIZE) vi);
               close_key hk;
               free_pool ''key'' p;
               ret (st, Some v) } } } } }"

definition SetDwordValueInRegistry :: "kernel \<Rightarrow> u32 \<Rightarrow> wstr \<Rightarrow> ntstatus drv" where
  "SetDwordValueInRegistry K v name = do {
     path \<leftarrow> reads RegistryPathService;
     (st, hk) \<leftarrow> open_key K path;
     if \<not> nt_success st then do { close_key hk; ret st }
     else do {
       st \<leftarrow> set_value K hk name REG_DWORD (le32 v);
       if \<not> nt_success st then do { close_key hk; ret st }
       else do { close_key hk; ret st } } }"

definition DeleteKeyValueInRegistry :: "kernel \<Rightarrow> wstr \<Rightarrow> wstr \<Rightarrow> ntstatus drv" where
  "DeleteKeyValueInRegistry K path name = do {
     (st, hk) \<leftarrow> open_key K path;
     if \<not> nt_success st then do { close_key hk; ret st }
     else do {
       st \<leftarrow> delete_value K hk name;
       close_key hk;
       ret (if st = STATUS_OBJECT_NAME_NOT_FOUND then STATUS_SUCCESS else st) } }"

section \<open>The list of upper filters\<close>

text \<open>A registry path from its parts, each behind a backslash.\<close>

definition key_path :: "string list \<Rightarrow> wstr" where
  "key_path ps = concat (map (\<lambda>p. 0x5C # wide p) ps)"

definition RegistryPathClass :: wstr where
  "RegistryPathClass = key_path [''Registry'', ''Machine'', ''System'', ''CurrentControlSet'',
     ''Control'', ''Class'', ''{745a17a0-74d3-11d0-b6fe-00a0c90f57da}'']"

definition MyDriverName :: wstr where
  "MyDriverName = wide ''TouchscreenFilterDriver''"

text \<open>
  The \<open>while (TRUE)\<close> loop that copies every string but the driver's name, from byte
  \<open>offset\<close> of the list, which is \<open>size\<close> bytes long, to byte \<open>offset_new\<close> of the new list.
  It ends where only the terminating zero of the list is left; beyond the list it would
  read foreign memory. Strings are copied through a buffer of their own (\<open>TmpStr\<close>).
\<close>

definition put_text :: "nat \<Rightarrow> wstr \<Rightarrow> wstr \<Rightarrow> wstr" where
  "put_text off txt dest = take off dest @ txt @ drop (off + length txt) dest"

function filter_strings ::
  "kernel \<Rightarrow> u8 list \<Rightarrow> nat \<times> nat \<times> wstr \<Rightarrow> (nat \<times> wstr) exec" where
  "filter_strings K bytes (offset, offset_new, new_str) =
     (let size = length bytes in
      if offset + 2 = size then ok (offset_new, new_str)
      else if size \<le> offset then abort BufferOverflow
      else
        let here = words16 (drop offset bytes);
            tmp = cb_copy K (of_nat size) here;
            len = unat (snd (cb_length K here));
            keep = filter_strings K bytes (offset + len + 2, offset_new + len + 2,
              put_text (offset_new div 2) (cb_copy K (of_nat (size - offset_new)) tmp) new_str) in
        if len \<noteq> 2 * length MyDriverName then keep
        else if take (len div 2) here \<noteq> MyDriverName then keep
        else filter_strings K bytes (offset + len + 2, offset_new, new_str))"
  by pat_completeness auto
termination
  by (relation "measure (\<lambda>(K, bytes, offset, offset_new, new_str). length bytes - offset)") auto

declare filter_strings.simps [simp del]

definition GetAndDeleteRMSZValueFromRegistry :: "kernel \<Rightarrow> ntstatus drv" where
  "GetAndDeleteRMSZValueFromRegistry K = do {
     let name = wide ''UpperFilters'';
     (st, hk) \<leftarrow> open_key K RegistryPathClass;
     if \<not> nt_success st then do { close_key hk; ret st }
     else do {
       (st, vi, size) \<leftarrow> query_value K hk name 0;
       if st = STATUS_OBJECT_NAME_NOT_FOUND \<or> size = 0 then do { close_key hk; ret st }
       else do {
         inf \<leftarrow> alloc K ''key'' (min size PAGE_SIZE);
         case inf of
           None \<Rightarrow> do { close_key hk; ret STATUS_INSUFFICIENT_RESOURCES }
         | Some p \<Rightarrow> do {
             (st, vi, size') \<leftarrow> query_value K hk name (min size PAGE_SIZE);
             if \<not> nt_success st then do { close_key hk; free_pool ''key'' p; ret st }
             else if value_type vi \<noteq> REG_MULTI_SZ
             then do { close_key hk; free_pool ''key'' p; ret STATUS_INVALID_VARIANT }
             else do {
               new_str \<leftarrow> alloc K ''pmt'' (data_length vi);
               tmp_str \<leftarrow> alloc K ''pmt'' (data_length vi);
               case new_str of
                 None \<Rightarrow> do {
                   (case tmp_str of None \<Rightarrow> skip | Some t \<Rightarrow> free_pool ''pmt'' t);
                   free_pool ''key'' p; close_key hk; ret STATUS_INSUFFICIENT_RESOURCES }
               | Some n \<Rightarrow>
                   (case tmp_str of
                      None \<Rightarrow> do {
                        free_pool ''pmt'' n;
                        free_pool ''key'' p; close_key hk; ret STATUS_INSUFFICIENT_RESOURCES }
                    | Some t \<Rightarrow> do {
                        let bytes = take (unat (data_length vi)) (partial_data (min size PAGE_SIZE) vi);
                        (off, txt) \<leftarrow>
                          (case filter_strings K bytes
                                  (0, 0, replicate (unat (data_length vi) div 2) 0) of
                             Some (Inr r) \<Rightarrow> ret r
                           | _ \<Rightarrow> do { crash BufferOverflow; ret (0, []) });
                        (if off = 0 then do { delete_value K hk name; skip }
                         else do {
                           set_value K hk name REG_MULTI_SZ
                             (concat (map le16 (take ((off + 2) div 2) txt)));
                           skip });
                        close_key hk;
                        free_pool ''pmt'' n;
                        free_pool ''pmt'' t;
                        free_pool ''key'' p;
                        ret st }) } } } } }"

section \<open>The calibration points\<close>

definition point_bytes :: "calibration_point \<Rightarrow> u8 list" where
  "point_bytes p = le16 (px p) @ le16 (py p)"

text \<open>Point \<open>i\<close> of an array of bytes, if the array is long enough.\<close>

definition point_of :: "u8 list \<Rightarrow> nat \<Rightarrow> calibration_point option" where
  "point_of bs i =
     (if length bs < 4 * i + 4 then None
      else (case words16 (take 4 (drop (4 * i) bs)) of
              [x, y] \<Rightarrow> Some \<lparr>px = x, py = y\<rparr> | _ \<Rightarrow> None))"

definition RecordPointsInRegistry :: "kernel \<Rightarrow> wstr \<Rightarrow> u32 \<Rightarrow> ntstatus drv" where
  "RecordPointsInRegistry K name n = do {
     d \<leftarrow> edo_device;
     e \<leftarrow> get_extra d;
     path \<leftarrow> reads RegistryPathService;
     (st, hk) \<leftarrow> open_key K path;
     if \<not> nt_success st then do { close_key hk; ret st }
     else do {
       st \<leftarrow> set_value K hk name REG_BINARY (concat (map point_bytes (take (unat n) (cpoints e))));
       if \<not> nt_success st then do { close_key hk; ret st }
       else do { close_key hk; ret st } } }"

text \<open>The loop that copies points over \<open>CPoints\<close>, an array of nine.\<close>

definition copy_points :: "dev \<Rightarrow> u8 list \<Rightarrow> nat \<Rightarrow> unit drv" where
  "copy_points d bs n =
     for_each [0..<n] (\<lambda>i.
       case point_of bs i of
         None \<Rightarrow> crash BufferOverflow
       | Some p \<Rightarrow> do {
           e \<leftarrow> get_extra d;
           if length (cpoints e) \<le> i then crash BufferOverflow
           else put_extra d (\<lambda>e. e\<lparr>cpoints := (cpoints e)[i := p]\<rparr>) })"

text \<open>
  The \<open>__try\<close> block that saves the processor's floating-point state, runs a check and
  restores the state.
\<close>

definition with_float_state :: "kernel \<Rightarrow> ntstatus drv \<Rightarrow> ntstatus drv" where
  "with_float_state K m = do {
     st \<leftarrow> save_state K;
     if nt_success st then do { st' \<leftarrow> m; emit (Cpu RestoreState); ret st' }
     else ret st }"

definition RetrievePointsFromRegistry :: "kernel \<Rightarrow> wstr \<Rightarrow> ntstatus drv" where
  "RetrievePointsFromRegistry K name = do {
     d \<leftarrow> edo_device;
     path \<leftarrow> reads RegistryPathService;
     (st, hk) \<leftarrow> open_key K path;
     if \<not> nt_success st then do { close_key hk; ret st }
     else do {
       (st, vi, size) \<leftarrow> query_value K hk name 0;
       if st = STATUS_OBJECT_NAME_NOT_FOUND \<or> size = 0 then do { close_key hk; ret st }
       else do {
         inf \<leftarrow> alloc K ''key'' (min size PAGE_SIZE);
         case inf of
           None \<Rightarrow> do { close_key hk; ret STATUS_INSUFFICIENT_RESOURCES }
         | Some p \<Rightarrow> do {
             (st, vi, size') \<leftarrow> query_value K hk name (min size PAGE_SIZE);
             e \<leftarrow> get_extra d;
             if \<not> nt_success st then do { close_key hk; free_pool ''key'' p; ret st }
             else if value_type vi \<noteq> REG_BINARY
             then do { close_key hk; free_pool ''key'' p; ret STATUS_INVALID_VARIANT }
             else if unat size' div 4 < unat (number_points e)
             then do { close_key hk; free_pool ''key'' p; ret STATUS_INVALID_VARIANT }
             else do {
               copy_points d (partial_data (min size PAGE_SIZE) vi) (unat (number_points e));
               st \<leftarrow> with_float_state K (do {
                 e \<leftarrow> get_extra d;
                 if number_points e = FIVE_CALIBRATION_POINTS
                 then do {
                   let st = CheckPointsLayoutFive (cpoints e);
                   if \<not> nt_success st
                   then do { SetDwordValueInRegistry K 0 (wide ''PointsAvailable''); ret st }
                   else ret st }
                 else if number_points e = NINE_CALIBRATION_POINTS
                 then do {
                   let st = CheckPointsLayoutNine (cpoints e);
                   if \<not> nt_success st
                   then do { SetDwordValueInRegistry K 0 (wide ''PointsAvailable''); ret st }
                   else ret st }
                 else ret STATUS_INVALID_PARAMETER });
               close_key hk;
               free_pool ''key'' p;
               ret st } } } } }"

section \<open>The tabcal values\<close>

definition EnumHIDPath :: wstr where
  "EnumHIDPath = key_path [''Registry'', ''Machine'', ''System'', ''CurrentControlSet'',
     ''Enum'', ''HID'']"

definition TabCalValue :: wstr where "TabCalValue = wide ''LinearityData''"
definition EnumId :: wstr where "EnumId = wide ''VID_1FF7&PID_0013''"

text \<open>The size of \<open>KEY_BASIC_INFORMATION\<close> with its first character.\<close>

definition KEY_BASIC_SIZE :: u32 where "KEY_BASIC_SIZE = 24"

definition query_key :: "kernel \<Rightarrow> handle \<Rightarrow> u32 \<Rightarrow> (ntstatus \<times> key_info \<times> u32) drv" where
  "query_key K hk n = call (\<lambda>h. k_query_key K h hk n) (\<lambda>(st, ki, size). Registry (QueryKey hk n st))"

definition enum_key :: "kernel \<Rightarrow> handle \<Rightarrow> u32 \<Rightarrow> (wstr \<times> u32) drv" where
  "enum_key K hk i = call (\<lambda>h. k_enum_key K h hk i) (\<lambda>r. Registry (EnumerateKey hk i))"

text \<open>A string as the kernel reads it: up to its first zero.\<close>

definition c_text :: "wstr \<Rightarrow> wstr" where
  "c_text s = takeWhile (\<lambda>c. c \<noteq> 0) s"

definition GetInformationFromRegistry ::
  "kernel \<Rightarrow> handle \<Rightarrow> string \<Rightarrow> (ntstatus \<times> (nat \<times> key_info) option) drv" where
  "GetInformationFromRegistry K hk tag = do {
     (st0, ki0, size) \<leftarrow> query_key K hk 0;
     inf \<leftarrow> alloc K tag (min size PAGE_SIZE);
     case inf of
       None \<Rightarrow> ret (STATUS_INSUFFICIENT_RESOURCES, None)
     | Some p \<Rightarrow> do {
         (st, ki, size') \<leftarrow> query_key K hk (min size PAGE_SIZE);
         if \<not> nt_success st then do { free_pool tag p; ret (st, Some (p, ki)) }
         else ret (st, Some (p, ki)) } }"

definition StrInStr :: "wstr \<Rightarrow> u32 \<Rightarrow> wstr \<Rightarrow> u32 \<Rightarrow> bool" where
  "StrInStr sub_str sub_size str str_size =
     (if sub_size > str_size then False
      else take (unat sub_size div 2) sub_str = take (unat sub_size div 2) str)"

definition DeleteTabCalValue :: "kernel \<Rightarrow> wstr \<Rightarrow> bool \<Rightarrow> ntstatus drv" where
  "DeleteTabCalValue K name need_delete = do {
     d \<leftarrow> edo_device;
     (st, hk) \<leftarrow> open_key K (c_text name);
     if \<not> nt_success st then do { close_key hk; ret st }
     else do {
       st \<leftarrow>
         (if need_delete then do {
            st \<leftarrow> delete_value K hk TabCalValue;
            put_extra d (\<lambda>e. e\<lparr>tabcal_in_reg := 0\<rparr>);
            ret (if st = STATUS_OBJECT_NAME_NOT_FOUND then STATUS_SUCCESS else st) }
          else do {
            (st, vi, size) \<leftarrow> query_value K hk TabCalValue 0;
            whenever (st \<noteq> STATUS_OBJECT_NAME_NOT_FOUND \<and> size \<noteq> 0)
              (put_extra d (\<lambda>e. e\<lparr>tabcal_in_reg := 1\<rparr>));
            ret st });
       close_key hk;
       ret st } }"

text \<open>The numbers 0 to \<open>n\<close> less 1, the indices of a loop.\<close>

definition indices :: "u32 \<Rightarrow> u32 list" where
  "indices n = map of_nat [0..<unat n]"

definition EnumerateIdDevices :: "kernel \<Rightarrow> wstr \<Rightarrow> bool \<Rightarrow> ntstatus drv" where
  "EnumerateIdDevices K name need_delete = do {
     (st, hk) \<leftarrow> open_key K (c_text name);
     if \<not> nt_success st then do { close_key hk; ret st }
     else do {
       (st, inf) \<leftarrow> GetInformationFromRegistry K hk ''fnI'';
       case (if nt_success st then inf else None) of
         None \<Rightarrow> do { close_key hk; ret st }
       | Some (p_inf, ki) \<Rightarrow> do {
           let max_length = min (max_name_len ki + KEY_BASIC_SIZE) PAGE_SIZE;
           p_basic \<leftarrow> alloc K ''fnI'' max_length;
           case p_basic of
             None \<Rightarrow> do { free_pool ''fnI'' p_inf; close_key hk; ret STATUS_INSUFFICIENT_RESOURCES }
           | Some pb \<Rightarrow> do {
               p_name \<leftarrow> alloc K ''fnI'' TMP_BUFFER_SIZE;
               case p_name of
                 None \<Rightarrow> do {
                   free_pool ''fnI'' pb; free_pool ''fnI'' p_inf; close_key hk;
                   ret STATUS_INSUFFICIENT_RESOURCES }
               | Some pn \<Rightarrow> do {
                   let name2 = snd (cb_cat K TMP_BUFFER_SIZE (cb_copy K TMP_BUFFER_SIZE name) [0x5C, 0]);
                   let len = snd (cb_length K name2);
                   for_each (indices (sub_keys ki)) (\<lambda>i. do {
                     (nm, nlen) \<leftarrow> enum_key K hk i;
                     let s1 = put_text (unat len div 2) (cb_copy K (TMP_BUFFER_SIZE - len) nm) name2;
                     let s2 = put_text (unat (len + nlen) div 2)
                       (cb_copy K (TMP_BUFFER_SIZE - (len + nlen))
                         (0x5C # wide ''Device Parameters'' @ [0])) s1;
                     DeleteTabCalValue K s2 need_delete;
                     skip });
                   close_key hk;
                   free_pool ''fnI'' pn;
                   free_pool ''fnI'' p_inf;
                   ret st } } } } }"

definition EnumerateAndDeleteTabCalValues :: "kernel \<Rightarrow> bool \<Rightarrow> ntstatus drv" where
  "EnumerateAndDeleteTabCalValues K need_delete = do {
     (st, hk) \<leftarrow> open_key K EnumHIDPath;
     if \<not> nt_success st then do { close_key hk; ret st }
     else do {
       (st, inf) \<leftarrow> GetInformationFromRegistry K hk ''fnI'';
       case (if nt_success st then inf else None) of
         None \<Rightarrow> do { close_key hk; ret st }
       | Some (p_inf, ki) \<Rightarrow> do {
           let max_length = min (max_name_len ki + KEY_BASIC_SIZE) PAGE_SIZE;
           p_basic \<leftarrow> alloc K ''fnI'' max_length;
           case p_basic of
             None \<Rightarrow> do { free_pool ''fnI'' p_inf; close_key hk; ret STATUS_INSUFFICIENT_RESOURCES }
           | Some pb \<Rightarrow> do {
               p_name \<leftarrow> alloc K ''fnI'' TMP_BUFFER_SIZE;
               case p_name of
                 None \<Rightarrow> do {
                   free_pool ''fnI'' pb; free_pool ''fnI'' p_inf; close_key hk;
                   ret STATUS_INSUFFICIENT_RESOURCES }
               | Some pn \<Rightarrow> do {
                   let path_bytes = of_nat (2 * length EnumHIDPath);
                   for_each (indices (sub_keys ki)) (\<lambda>i. do {
                     (nm, nlen) \<leftarrow> enum_key K hk i;
                     let s0 = cb_copy K (path_bytes + 2) (EnumHIDPath @ [0]);
                     whenever (StrInStr EnumId (of_nat (2 * length EnumId)) nm nlen) (do {
                       let s1 = snd (cb_cat K (path_bytes + 4) s0 [0x5C, 0]);
                       let s2 = snd (cb_cat K (nlen + path_bytes + 4) s1 nm);
                       EnumerateIdDevices K s2 need_delete;
                       skip }) });
                   close_key hk;
                   free_pool ''fnI'' p_inf;
                   free_pool ''fnI'' pb;
                   free_pool ''fnI'' pn;
                   ret st } } } } }"

end
