(* ===== verification/RegistryBalance.thy ===== *)
theory RegistryBalance
  imports Registry
begin

text \<open>
  What the registry functions do with the resources they take: keys, pool memory and the
  saved floating-point state. The interface is a weight on events under which taking a
  resource and giving it back cancel; a function that satisfies it for every such weight
  gives back all it takes, on every path.
\<close>

section \<open>Memory access takes nothing\<close>

lemma weighs_load_device: "weighs \<mu> (load_device d) (\<lambda>_. 0)"
  unfolding load_device_def by (rule weighs_rules | simp)+

lemma weighs_extension:
  "(\<And>p. x = Fido p \<Longrightarrow> weighs \<mu> (f p) c) \<Longrightarrow> (\<And>e. x = Extra e \<Longrightarrow> weighs \<mu> (g e) c) \<Longrightarrow>
   weighs \<mu> (case x of Fido p \<Rightarrow> f p | Extra e \<Rightarrow> g e) c"
  by (cases x) auto

lemma weighs_get:
  "weighs \<mu> (get_fido d) (\<lambda>_. 0)" "weighs \<mu> (get_extra d) (\<lambda>_. 0)" "weighs \<mu> edo_device (\<lambda>_. 0)"
  unfolding get_fido_def get_extra_def edo_device_def
  by (rule weighs_load_device weighs_rules weighs_extension | simp)+

lemma weighs_put:
  "weighs \<mu> (put_device d f) (\<lambda>_. 0)" "weighs \<mu> (put_fido d g) (\<lambda>_. 0)"
  "weighs \<mu> (put_extra d h) (\<lambda>_. 0)"
  unfolding put_fido_def put_extra_def put_device_def
  by (rule weighs_load_device weighs_get weighs_rules | simp)+

lemma weighs_load_u32: "weighs \<mu> (load_u32 bs) (\<lambda>_. 0)"
  unfolding load_u32_def
  by (auto split: list.split intro!: weighs_return weighs_bind_free weighs_zero)

lemmas memory_rules = weighs_load_device weighs_load_u32 weighs_get weighs_put weighs_rules
  weighs_extension

section \<open>The interface\<close>

locale resource_weight =
  fixes \<mu> :: "event \<Rightarrow> int" and key pool state :: int
  assumes open_weight: "\<mu> (Registry (OpenKey path st hk)) = key"
    and close_weight: "\<mu> (Registry (CloseKey hk)) = - key"
    and access_weight: "\<mu> (Registry (QueryValue hk name n st)) = 0"
      "\<mu> (Registry (SetValue hk name ty bytes st)) = 0" "\<mu> (Registry (DeleteValue hk name st)) = 0"
      "\<mu> (Registry (QueryKey hk n st)) = 0" "\<mu> (Registry (EnumerateKey hk n)) = 0"
    and alloc_weight: "\<mu> (Pool (Alloc tag n None)) = 0" "\<mu> (Pool (Alloc tag n (Some p))) = pool"
    and free_weight: "\<mu> (Pool (Free tag p)) = - pool"
    and save_weight: "\<mu> (Cpu (SaveState st)) = (if nt_success st then state else 0)"
    and restore_weight: "\<mu> (Cpu RestoreState) = - state"
begin

lemmas laws = open_weight close_weight access_weight alloc_weight free_weight save_weight
  restore_weight

lemmas registry_calls = open_key_def close_key_def query_value_def set_value_def delete_value_def
  query_key_def enum_key_def alloc_def free_pool_def save_state_def

lemma GetDword_balanced: "weighs \<mu> (GetDwordValueFromRegistry K name) (\<lambda>_. 0)"
  unfolding GetDwordValueFromRegistry_def registry_calls
  by (rule memory_rules | simp add: laws)+

lemma SetDword_balanced: "weighs \<mu> (SetDwordValueInRegistry K v name) (\<lambda>_. 0)"
  unfolding SetDwordValueInRegistry_def registry_calls
  by (rule memory_rules | simp add: laws)+

lemma DeleteKeyValue_balanced: "weighs \<mu> (DeleteKeyValueInRegistry K path name) (\<lambda>_. 0)"
  unfolding DeleteKeyValueInRegistry_def registry_calls
  by (rule memory_rules | simp add: laws)+

lemma RecordPoints_balanced: "weighs \<mu> (RecordPointsInRegistry K name n) (\<lambda>_. 0)"
  unfolding RecordPointsInRegistry_def registry_calls
  by (rule memory_rules | simp add: laws)+

lemma copy_points_free: "weighs \<mu> (copy_points d bs n) (\<lambda>_. 0)"
  unfolding copy_points_def
  by (rule memory_rules | simp)+

lemma with_float_state_balanced:
  assumes "weighs \<mu> m (\<lambda>_. 0)"
  shows "weighs \<mu> (with_float_state K m) (\<lambda>_. 0)"
  unfolding with_float_state_def registry_calls
  by (rule assms memory_rules | simp add: laws)+

lemma RetrievePoints_balanced: "weighs \<mu> (RetrievePointsFromRegistry K name) (\<lambda>_. 0)"
  unfolding RetrievePointsFromRegistry_def registry_calls
  by (rule copy_points_free with_float_state_balanced SetDword_balanced memory_rules | simp add: laws)+

lemma GetAndDelete_balanced: "weighs \<mu> (GetAndDeleteRMSZValueFromRegistry K) (\<lambda>_. 0)"
  unfolding GetAndDeleteRMSZValueFromRegistry_def registry_calls
  by (rule memory_rules | simp add: laws)+

text \<open>
  \<open>GetInformationFromRegistry\<close> hands its caller a block when it succeeds.
  \<open>EnumerateIdDevices\<close> frees that block and the path buffer, and keeps the third one.
\<close>

lemma GetInformation_weight:
  "weighs \<mu> (GetInformationFromRegistry K hk tag) (\<lambda>(st, inf). if nt_success st then pool else 0)"
  unfolding GetInformationFromRegistry_def registry_calls
  by (rule memory_rules | simp add: laws)+

lemma DeleteTabCal_balanced: "weighs \<mu> (DeleteTabCalValue K name b) (\<lambda>_. 0)"
  unfolding DeleteTabCalValue_def registry_calls
  by (rule memory_rules | simp add: laws)+

lemma EnumerateId_weight:
  "weighs \<mu> (EnumerateIdDevices K name b) (\<lambda>st. if nt_success st then pool else 0)"
  unfolding EnumerateIdDevices_def registry_calls
  by (rule weighs_bind [OF GetInformation_weight] DeleteTabCal_balanced memory_rules
      | simp add: laws split: if_splits)+

end

text \<open>A weight that ignores the pool: under it the walk over all panels balances too.\<close>

locale no_pool_weight = resource_weight +
  assumes no_pool: "pool = 0"
begin

lemma EnumerateId_balanced: "weighs \<mu> (EnumerateIdDevices K name b) (\<lambda>_. 0)"
  by (rule weighs_cong [OF EnumerateId_weight]) (simp add: no_pool)

lemma EnumerateAndDelete_balanced: "weighs \<mu> (EnumerateAndDeleteTabCalValues K b) (\<lambda>_. 0)"
  unfolding EnumerateAndDeleteTabCalValues_def registry_calls
  by (rule weighs_bind [OF GetInformation_weight] EnumerateId_balanced memory_rules
      | simp add: laws no_pool split: if_splits)+

end

section \<open>The resources\<close>

fun handle_weight :: "event \<Rightarrow> int" where
  "handle_weight (Registry (OpenKey path st hk)) = 1"
| "handle_weight (Registry (CloseKey hk)) = -1"
| "handle_weight _ = 0"

fun pool_weight :: "event \<Rightarrow> int" where
  "pool_weight (Pool (Alloc tag n (Some p))) = 1"
| "pool_weight (Pool (Free tag p)) = -1"
| "pool_weight _ = 0"

fun state_weight :: "event \<Rightarrow> int" where
  "state_weight (Cpu (SaveState st)) = (if nt_success st then 1 else 0)"
| "state_weight (Cpu RestoreState) = -1"
| "state_weight _ = 0"

interpretation handles: no_pool_weight handle_weight 1 0 0
  by unfold_locales simp_all

interpretation pool: resource_weight pool_weight 0 1 0
  by unfold_locales simp_all

interpretation states: no_pool_weight state_weight 0 0 1
  by unfold_locales simp_all

definition gives_back :: "'a drv \<Rightarrow> bool" where
  "gives_back m \<longleftrightarrow>
     (\<forall>w. fault (snd (run_state m w)) = None \<longrightarrow>
        (\<forall>\<mu> \<in> {handle_weight, pool_weight, state_weight}. total \<mu> (snd (run_state m w)) = total \<mu> w))"

lemma gives_backI:
  assumes "weighs handle_weight m (\<lambda>_. 0)" "weighs pool_weight m (\<lambda>_. 0)"
    "weighs state_weight m (\<lambda>_. 0)"
  shows "gives_back m"
  using assms [THEN weighs_balance] by (auto simp: gives_back_def)

section \<open>Properties\<close>


end
