(* ===== verification/Dispatch.thy ===== *)
theory Dispatch
  imports RegistryBalance
begin

text \<open>
  The request routines of \<open>WDM_filter_driver/TouchscreenFilterDriver.c\<close> other than device
  control: completion, removal locks, plug and play, power, read with its completion
  routine, create and close, and the walks over the driver's devices. A request (IRP) is
  its number and the fields that the driver reads.
\<close>

section \<open>Requests\<close>

record irp_info =
  irp_id :: nat
  minor_function :: u32
  pending_returned :: bool
  io_status :: ntstatus
  system_buffer :: "u8 list option"
  in_length :: u32
  out_length :: u32
  control_code :: u32

definition IRP_MN_START_DEVICE :: u32 where "IRP_MN_START_DEVICE = 0"
definition IRP_MN_REMOVE_DEVICE :: u32 where "IRP_MN_REMOVE_DEVICE = 2"
definition IRP_MN_DEVICE_USAGE_NOTIFICATION :: u32 where "IRP_MN_DEVICE_USAGE_NOTIFICATION = 0x16"
definition DO_POWER_PAGABLE :: u32 where "DO_POWER_PAGABLE = 0x2000"
definition FILE_REMOVABLE_MEDIA :: u32 where "FILE_REMOVABLE_MEDIA = 1"

definition CompleteRequest :: "nat \<Rightarrow> ntstatus \<Rightarrow> u32 \<Rightarrow> ntstatus drv" where
  "CompleteRequest irp st info = do { complete_irp irp st info; ret st }"

definition IntendedForFiDO :: "dev \<Rightarrow> nat \<Rightarrow> ntstatus drv" where
  "IntendedForFiDO d irp = do {
     x \<leftarrow> load_device d;
     if flag x = EDO_EXTENSION then CompleteRequest irp STATUS_INVALID_PARAMETER 0
     else ret STATUS_SUCCESS }"

definition release_lock :: "dev \<Rightarrow> nat \<Rightarrow> unit drv" where
  "release_lock d irp = emit (Lock (ReleaseLock d (Some irp)))"

definition DispatchAny :: "kernel \<Rightarrow> dev \<Rightarrow> nat \<Rightarrow> ntstatus drv" where
  "DispatchAny K d irp = do {
     st \<leftarrow> IntendedForFiDO d irp;
     if \<not> nt_success st then ret st
     else do {
       st \<leftarrow> acquire_lock K d (Some irp);
       if \<not> nt_success st then CompleteRequest irp st 0
       else do {
         emit (Irp (SkipLocation irp));
         p \<leftarrow> get_fido d;
         st \<leftarrow> call_lower K (lower_device p) irp;
         release_lock d irp;
         ret st } } }"

definition DispatchPower :: "kernel \<Rightarrow> dev \<Rightarrow> nat \<Rightarrow> ntstatus drv" where
  "DispatchPower K d irp = do {
     st \<leftarrow> IntendedForFiDO d irp;
     if \<not> nt_success st then ret st
     else do {
       emit (Irp (StartNextPower irp));
       st \<leftarrow> acquire_lock K d (Some irp);
       if \<not> nt_success st then CompleteRequest irp st 0
       else do {
         emit (Irp (SkipLocation irp));
         p \<leftarrow> get_fido d;
         st \<leftarrow> call_lower K (lower_device p) irp;
         release_lock d irp;
         ret st } } }"

section \<open>Plug and play\<close>

definition delete_device :: "dev \<Rightarrow> unit drv" where
  "delete_device d = do {
     emit (Device (DeleteDevice d));
     modify (\<lambda>s. s\<lparr>devices := (devices s)(d := None)\<rparr>) }"

definition RemoveDevice :: "dev \<Rightarrow> unit drv" where
  "RemoveDevice d = do {
     p \<leftarrow> get_fido d;
     ed \<leftarrow> edo_device;
     e \<leftarrow> get_extra ed;
     whenever (target_device e = Some d) (put_extra ed (\<lambda>e. e\<lparr>target_device := None\<rparr>));
     emit (Device (Detach (lower_device p)));
     delete_device d;
     modify (\<lambda>s. s\<lparr>NumberDevices := NumberDevices s - 1\<rparr>);
     n \<leftarrow> reads NumberDevices;
     whenever (n = 0) (do { emit (Device DeleteLink); delete_device ed }) }"

definition UsageNotificationCompletionRoutine ::
  "kernel \<Rightarrow> dev \<Rightarrow> irp_info \<Rightarrow> dev \<Rightarrow> ntstatus drv" where
  "UsageNotificationCompletionRoutine K d irp pdx = do {
     whenever (pending_returned irp) (emit (Irp (MarkPending (irp_id irp))));
     p \<leftarrow> get_fido pdx;
     fl \<leftarrow> ask (\<lambda>h. k_lower_flags K h (lower_device p));
     whenever (fl AND DO_POWER_PAGABLE = 0)
       (put_device d (\<lambda>x. x\<lparr>dev_flags := dev_flags x AND NOT DO_POWER_PAGABLE\<rparr>));
     release_lock pdx (irp_id irp);
     ret STATUS_SUCCESS }"

definition StartDeviceCompletionRoutine ::
  "kernel \<Rightarrow> dev \<Rightarrow> irp_info \<Rightarrow> dev \<Rightarrow> ntstatus drv" where
  "StartDeviceCompletionRoutine K d irp pdx = do {
     whenever (pending_returned irp) (emit (Irp (MarkPending (irp_id irp))));
     p \<leftarrow> get_fido pdx;
     ch \<leftarrow> ask (\<lambda>h. k_lower_characteristics K h (lower_device p));
     whenever (ch AND FILE_REMOVABLE_MEDIA \<noteq> 0)
       (put_device d (\<lambda>x. x\<lparr>characteristics := characteristics x OR FILE_REMOVABLE_MEDIA\<rparr>));
     release_lock pdx (irp_id irp);
     ret STATUS_SUCCESS }"

definition DispatchPnp :: "kernel \<Rightarrow> dev \<Rightarrow> irp_info \<Rightarrow> ntstatus drv" where
  "DispatchPnp K d irp = do {
     ed \<leftarrow> edo_device;
     st \<leftarrow> IntendedForFiDO d (irp_id irp);
     if \<not> nt_success st then ret st
     else do {
       st \<leftarrow> acquire_lock K d (Some (irp_id irp));
       if \<not> nt_success st then CompleteRequest (irp_id irp) st 0
       else do {
         p \<leftarrow> get_fido d;
         if minor_function irp = IRP_MN_DEVICE_USAGE_NOTIFICATION then do {
           up \<leftarrow> ask (\<lambda>h. k_attached_flags K h d);
           whenever (case up of None \<Rightarrow> True | Some fl \<Rightarrow> fl AND DO_POWER_PAGABLE \<noteq> 0)
             (put_device d (\<lambda>x. x\<lparr>dev_flags := dev_flags x OR DO_POWER_PAGABLE\<rparr>));
           emit (Irp (CopyLocation (irp_id irp)));
           emit (Irp (SetCompletion d (irp_id irp) UsageCompletion));
           call_lower K (lower_device p) (irp_id irp) }
         else if minor_function irp = IRP_MN_START_DEVICE then do {
           emit (Irp (CopyLocation (irp_id irp)));
           emit (Irp (SetCompletion d (irp_id irp) StartCompletion));
           call_lower K (lower_device p) (irp_id irp) }
         else if minor_function irp = IRP_MN_REMOVE_DEVICE then do {
           emit (Irp (SkipLocation (irp_id irp)));
           st \<leftarrow> call_lower K (lower_device p) (irp_id irp);
           emit (Lock (ReleaseLockAndWait d (Some (irp_id irp))));
           n \<leftarrow> reads NumberDevices;
           whenever (n = 1) (do {
             emit (Lock (ReleaseLockAndWait ed None));
             wait_for K SyncCloseCreateEvent;
             skip });
           RemoveDevice d;
           ret st }
         else do {
           emit (Irp (SkipLocation (irp_id irp)));
           st \<leftarrow> call_lower K (lower_device p) (irp_id irp);
           release_lock d (irp_id irp);
           ret st } } } }"

section \<open>Reading\<close>

definition lift_packet :: "touch_packet option exec \<Rightarrow> touch_packet option drv" where
  "lift_packet r =
     (case r of
        Some (Inr b) \<Rightarrow> ret b
      | Some (Inl f) \<Rightarrow> do { crash f; ret None }
      | None \<Rightarrow> do { crash BadConversion; ret None })"

text \<open>The routine returns its status and the packet it leaves in the reader's buffer.\<close>

definition ReadCompletionRoutine ::
  "kernel \<Rightarrow> dev \<Rightarrow> irp_info \<Rightarrow> (ntstatus \<times> touch_packet option) drv" where
  "ReadCompletionRoutine K d irp = do {
     p \<leftarrow> get_fido d;
     ed \<leftarrow> edo_device;
     whenever (pending_returned irp) (emit (Irp (MarkPending (irp_id irp))));
     if \<not> nt_success (io_status irp)
     then do { release_lock d (irp_id irp); ret (io_status irp, None) }
     else do {
       emit (Cpu LockPages);
       buffer \<leftarrow> call (k_map_pages K) (\<lambda>b. Cpu (MapPages (b \<noteq> None)));
       out \<leftarrow>
         (case buffer of
            None \<Rightarrow> ret None
          | Some b \<Rightarrow>
              if device_active p \<noteq> 0 then do {
                st \<leftarrow> save_state K;
                if nt_success st then do {
                  e \<leftarrow> get_extra ed;
                  out \<leftarrow>
                    (if number_points e = FIVE_CALIBRATION_POINTS
                     then lift_packet (DoFloatingPointCalculationForCalibrationFive (cpoints e)
                       (Some b) (active_large_touches p \<noteq> 0))
                     else if number_points e = NINE_CALIBRATION_POINTS
                     then lift_packet (DoFloatingPointCalculationForCalibrationNine (cpoints e)
                       (Some b) (active_large_touches p \<noteq> 0))
                     else ret (Some b));
                  emit (Cpu RestoreState);
                  ret out }
                else ret (Some b) }
              else lift_packet (ResetInputData (Some b)));
       emit (Cpu UnlockPages);
       release_lock d (irp_id irp);
       ret (io_status irp, out) } }"

definition DispatchRead :: "kernel \<Rightarrow> dev \<Rightarrow> nat \<Rightarrow> ntstatus drv" where
  "DispatchRead K d irp = do {
     ed \<leftarrow> edo_device;
     st \<leftarrow> IntendedForFiDO d irp;
     if \<not> nt_success st then ret st
     else do {
       st \<leftarrow> acquire_lock K d (Some irp);
       if \<not> nt_success st then CompleteRequest irp st 0
       else do {
         p \<leftarrow> get_fido d;
         st \<leftarrow> wait_for K SyncEvent;
         whenever (st = STATUS_SUCCESS) (do {
           SetDwordValueInRegistry K (id_instance p) (wide ''TargetSectionDriver'');
           put_fido d (\<lambda>p. p\<lparr>device_target := 1\<rparr>);
           put_extra ed (\<lambda>e. e\<lparr>target_device := Some d\<rparr>) });
         p \<leftarrow> get_fido d;
         e \<leftarrow> get_extra ed;
         if device_target p \<noteq> 0 \<and>
            (device_active p = 0 \<or> (start_flag e \<noteq> 0 \<and> check_points e \<noteq> 0))
         then do {
           emit (Irp (CopyLocation irp));
           emit (Irp (SetCompletion d irp ReadCompletion));
           call_lower K (lower_device p) irp }
         else do {
           emit (Irp (SkipLocation irp));
           st \<leftarrow> call_lower K (lower_device p) irp;
           release_lock d irp;
           ret st } } } }"

section \<open>Create and close\<close>

definition DispatchCreate :: "kernel \<Rightarrow> dev \<Rightarrow> nat \<Rightarrow> ntstatus drv" where
  "DispatchCreate K d irp = do {
     x \<leftarrow> load_device d;
     if flag x = EDO_EXTENSION then do {
       st \<leftarrow> acquire_lock K d (Some irp);
       if \<not> nt_success st then CompleteRequest irp st 0
       else do {
         st \<leftarrow> wait_for K SyncCloseCreateEvent;
         let st = (if st = STATUS_TIMEOUT then STATUS_DELETE_PENDING else st);
         CompleteRequest irp st 0;
         release_lock d irp;
         ret st } }
     else DispatchAny K d irp }"

definition DispatchClose :: "kernel \<Rightarrow> dev \<Rightarrow> nat \<Rightarrow> ntstatus drv" where
  "DispatchClose K d irp = do {
     x \<leftarrow> load_device d;
     if flag x = EDO_EXTENSION then do {
       emit (Signal (SetSignal SyncCloseCreateEvent));
       CompleteRequest irp STATUS_SUCCESS 0;
       ret STATUS_SUCCESS }
     else DispatchAny K d irp }"

section \<open>Walks over the devices\<close>

definition SetAllDeviceActive :: "kernel \<Rightarrow> unit drv" where
  "SetAllDeviceActive K = do {
     ed \<leftarrow> edo_device;
     e \<leftarrow> get_extra ed;
     ds \<leftarrow> ask (k_chain K);
     for_each ds (\<lambda>d. do {
       x \<leftarrow> load_device d;
       whenever (flag x = FIDO_EXTENSION) (put_fido d (\<lambda>p. p\<lparr>device_active := 1\<rparr>)) }) }"

definition ClearAllDeviceTargeting :: "kernel \<Rightarrow> unit drv" where
  "ClearAllDeviceTargeting K = do {
     ed \<leftarrow> edo_device;
     e \<leftarrow> get_extra ed;
     ds \<leftarrow> ask (k_chain K);
     for_each ds (\<lambda>d. do {
       x \<leftarrow> load_device d;
       whenever (flag x = FIDO_EXTENSION) (put_fido d (\<lambda>p. p\<lparr>device_target := 0\<rparr>)) }) }"

fun target_first :: "kernel \<Rightarrow> dev \<Rightarrow> dev list \<Rightarrow> ntstatus drv" where
  "target_first K ed [] = ret STATUS_INVALID_DEVICE_STATE"
| "target_first K ed (d # ds) = do {
     x \<leftarrow> load_device d;
     if flag x = FIDO_EXTENSION then do {
       p \<leftarrow> get_fido d;
       put_fido d (\<lambda>p. p\<lparr>device_target := 1\<rparr>);
       put_extra ed (\<lambda>e. e\<lparr>target_device := Some d\<rparr>);
       SetDwordValueInRegistry K (id_instance p) (wide ''TargetSectionDriver'') }
     else target_first K ed ds }"

definition SetSingleDeviceTarget :: "kernel \<Rightarrow> ntstatus drv" where
  "SetSingleDeviceTarget K = do {
     ed \<leftarrow> edo_device;
     e \<leftarrow> get_extra ed;
     ds \<leftarrow> ask (k_chain K);
     target_first K ed ds }"

end
