(* ===== verification/Ioctl.thy ===== *)
theory Ioctl
  imports Dispatch
begin

text \<open>
  Device control: \<open>DispatchDevCTL\<close> of \<open>WDM_filter_driver/TouchscreenFilterDriver.c\<close>, one
  definition for each control code, with the helpers that check calibration points and
  build the text sent back to the configuration program.

  The local variables \<open>Data\<close> and \<open>TmpStr\<close> are a text and a flag \<open>have\<close> that both buffers were
  allocated. A control code returns the status and the number of bytes reported.
\<close>

section \<open>Calibration points from the caller\<close>

text \<open>
  The loop that copies the points of the system buffer over \<open>CPoints\<close> and stops at the first
  one that is out of range (the range is checked after the store).
\<close>

fun take_points :: "dev \<Rightarrow> u8 list \<Rightarrow> nat list \<Rightarrow> ntstatus drv" where
  "take_points d bs [] = ret STATUS_SUCCESS"
| "take_points d bs (i # is) =
     (case point_of bs i of
        None \<Rightarrow> do { crash BufferOverflow; ret STATUS_INVALID_PARAMETER }
      | Some p \<Rightarrow> do {
          e \<leftarrow> get_extra d;
          (if length (cpoints e) \<le> i then crash BufferOverflow
           else put_extra d (\<lambda>e. e\<lparr>cpoints := (cpoints e)[i := p]\<rparr>));
          if px p > 32767 \<or> py p > 32767 then ret STATUS_INVALID_PARAMETER
          else take_points d bs is })"

definition check_layout :: "dev \<Rightarrow> u32 \<Rightarrow> ntstatus drv" where
  "check_layout d n = do {
     e \<leftarrow> get_extra d;
     if n = ucast FIVE_CALIBRATION_POINTS then ret (CheckPointsLayoutFive (cpoints e))
     else if n = ucast NINE_CALIBRATION_POINTS then ret (CheckPointsLayoutNine (cpoints e))
     else ret STATUS_FLOAT_INVALID_OPERATION }"

definition GetAndCheckCalibrationPoints ::
  "kernel \<Rightarrow> u8 list option \<Rightarrow> u32 \<Rightarrow> u32 \<Rightarrow> ntstatus drv" where
  "GetAndCheckCalibrationPoints K buffer in_len n = do {
     d \<leftarrow> edo_device;
     case buffer of
       None \<Rightarrow> ret STATUS_INVALID_ADDRESS
     | Some bs \<Rightarrow>
         if 4 * unat n \<noteq> unat in_len then ret STATUS_INVALID_BUFFER_SIZE
         else do {
           st \<leftarrow> take_points d bs [0..<unat n];
           if \<not> nt_success st then ret st
           else with_float_state K (check_layout d n) } }"

section \<open>The report\<close>

definition Basis :: wstr where "Basis = wide ''Troubleshoot: ''"

text \<open>
  \<open>SendInformation\<close> fills the caller's buffer and returns the bytes reported: 0, and nothing
  written, when the buffer is too small.
\<close>

definition SendInformation :: "kernel \<Rightarrow> nat \<Rightarrow> wstr \<Rightarrow> u32 \<Rightarrow> (ntstatus \<times> u32) drv" where
  "SendInformation K irp data out_len =
     (let len = unat (snd (cb_length K data)) in
      if unat out_len < len + 2 then ret (STATUS_BUFFER_TOO_SMALL, 0)
      else do {
        emit (Irp (FillBuffer irp (cb_copy K (of_nat (len + 2)) data)));
        ret (STATUS_SUCCESS, of_nat (len + 2)) })"

text \<open>
  The subtraction is done in 64 bits and wraps when the text already fills the buffer; then
  the concatenation is left to refuse.
\<close>

definition AdhereNewDataToData :: "kernel \<Rightarrow> wstr \<Rightarrow> u32 \<Rightarrow> wstr \<Rightarrow> ntstatus \<times> wstr" where
  "AdhereNewDataToData K data buf_size new_data =
     (let (st1, size_new) = cb_length K new_data in
      if \<not> nt_success st1 then (st1, data)
      else
        let (st2, current) = cb_length K data in
        if \<not> nt_success st2 then (st2, data)
        else if (ucast buf_size - ucast current - 2 :: u64) \<ge> ucast size_new
        then cb_cat K buf_size data new_data
        else (st2, data))"

text \<open>The block after each call that may fail: its name and status go into the report.\<close>

definition complain :: "kernel \<Rightarrow> bool \<Rightarrow> u32 \<Rightarrow> string \<Rightarrow> ntstatus \<Rightarrow> wstr \<Rightarrow> wstr" where
  "complain K have out_len fmt st data =
     (if have
      then snd (AdhereNewDataToData K data out_len (snd (cb_printf K TMP_BUFFER_SIZE fmt [st])))
      else data)"

definition complain_failure :: "kernel \<Rightarrow> bool \<Rightarrow> u32 \<Rightarrow> string \<Rightarrow> ntstatus \<Rightarrow> wstr \<Rightarrow> wstr" where
  "complain_failure K have out_len fmt st data =
     (if \<not> nt_success st then complain K have out_len fmt st data else data)"

text \<open>The variables of \<open>DispatchDevCTL\<close> that the control codes use.\<close>

record ctl =
  ctl_irp :: nat
  ctl_have :: bool
  ctl_data :: wstr
  ctl_out :: u32

text \<open>The block at the end of a control code: a report without complaints says so.\<close>

definition finish :: "kernel \<Rightarrow> ctl \<Rightarrow> ntstatus \<Rightarrow> wstr \<Rightarrow> (ntstatus \<times> u32) drv" where
  "finish K c st data =
     (if ctl_have c then do {
        let data = (if unat (snd (cb_length K data)) = 2 * length Basis
          then snd (AdhereNewDataToData K data (ctl_out c)
                 (snd (cb_printf K TMP_BUFFER_SIZE ''Operation is successful'' [])))
          else data);
        (st', info) \<leftarrow> SendInformation K (ctl_irp c) data (ctl_out c);
        ret (st, info) }
      else ret (st, 0))"

section \<open>The control codes\<close>

definition ioctl_send_points ::
  "kernel \<Rightarrow> dev \<Rightarrow> irp_info \<Rightarrow> ctl \<Rightarrow> (ntstatus \<times> u32) drv" where
  "ioctl_send_points K d irp c = do {
     let say = complain_failure K (ctl_have c) (ctl_out c);
     put_extra d (\<lambda>e. e\<lparr>number_points := FIVE_CALIBRATION_POINTS\<rparr>);
     e \<leftarrow> get_extra d;
     st \<leftarrow> GetAndCheckCalibrationPoints K (system_buffer irp) (in_length irp) (ucast (number_points e));
     data \<leftarrow>
       (if nt_success st then do {
          put_extra d (\<lambda>e. e\<lparr>check_points := 1\<rparr>);
          st \<leftarrow> RecordPointsInRegistry K (wide ''CalibrationPoints'') (ucast (number_points e));
          if nt_success st then do {
            st1 \<leftarrow> SetDwordValueInRegistry K 1 (wide ''PointsAvailable'');
            let data = say ''SetDwordValueInRegistry(TRUE, L\"PointsAvailable\") is failed in IOCTL_SEND_CALIBRATION_POINTS with error code: 0x%X; '' st1 (ctl_data c);
            st2 \<leftarrow> SetDwordValueInRegistry K (ucast (number_points e)) (wide ''NumberPoints'');
            ret (say ''SetDwordValueInRegistry(FIVE_CALIBRATION_POINTS, L\"NumberPoints\") is failed in IOCTL_SEND_CALIBRATION_POINTS with error code: 0x%X; '' st2 data) }
          else ret (complain K (ctl_have c) (ctl_out c) ''RecordPointsInRegistry(L\"CalibrationPoints\", Edx->NumberPoints) is failed in IOCTL_SEND_CALIBRATION_POINTS with error code: 0x%X; '' st (ctl_data c)) }
        else do {
          let data = complain K (ctl_have c) (ctl_out c) ''GetAndCheckCalibrationPoints(Buffer, InLength, Edx->NumberPoints) is failed in IOCTL_SEND_CALIBRATION_POINTS with error code: 0x%X; '' st (ctl_data c);
          put_extra d (\<lambda>e. e\<lparr>check_points := 0\<rparr>);
          st \<leftarrow> SetDwordValueInRegistry K 0 (wide ''PointsAvailable'');
          ret (say ''SetDwordValueInRegistry(FALSE, L\"RestrictionPoints\") is failed in IOCTL_SEND_CALIBRATION_POINTS with error code: 0x%X; '' st data) });
     finish K c STATUS_SUCCESS data }"

text \<open>
  The wait for a touch that selects the device: at most 300 times a tenth of a second while
  the event stays signalled (a read resets it, see \<open>DispatchRead\<close>).
\<close>

fun wait_selection :: "kernel \<Rightarrow> nat \<Rightarrow> unit drv" where
  "wait_selection K 0 = skip"
| "wait_selection K (Suc n) = do {
     on \<leftarrow> call (\<lambda>h. k_signal K h SyncEvent) (\<lambda>b. Signal (ReadSignal SyncEvent b));
     if on then do { emit (Signal Delay); wait_selection K n } else skip }"

definition ioctl_identify :: "kernel \<Rightarrow> dev \<Rightarrow> ctl \<Rightarrow> (ntstatus \<times> u32) drv" where
  "ioctl_identify K d c = do {
     let say = complain_failure K (ctl_have c) (ctl_out c);
     ClearAllDeviceTargeting K;
     n \<leftarrow> reads NumberDevices;
     data \<leftarrow>
       (if n = 1 then do {
          st \<leftarrow> SetSingleDeviceTarget K;
          ret (say ''SetSingleDeviceTarget() is failed in IOCTL_IDENTIFY_DEVICE with error code: 0x%X; '' st (ctl_data c)) }
        else if n > 1 then do {
          emit (Signal (SetSignal SyncEvent));
          wait_selection K (10 * WAITING_TIME);
          st \<leftarrow> wait_for K SyncEvent;
          if st = STATUS_SUCCESS then do {
            path \<leftarrow> reads RegistryPathService;
            st \<leftarrow> DeleteKeyValueInRegistry K path (wide ''TargetSectionDriver'');
            let data = say ''DeleteKeyValueInRegistry(&RegistryPathService, L\"TargetSectionDriver\") is failed in IOCTL_IDENTIFY_DEVICE with error code: 0x%X; '' st (ctl_data c);
            put_extra d (\<lambda>e. e\<lparr>target_device := None\<rparr>);
            ret (complain K (ctl_have c) (ctl_out c) ''Device not selected in IOCTL_IDENTIFY_DEVICE error code: 0x%X; '' STATUS_DEVICE_CONFIGURATION_ERROR data) }
          else ret (ctl_data c) }
        else ret (complain K (ctl_have c) (ctl_out c) ''Undefined state in IOCTL_IDENTIFY_DEVICE error code: 0x%X; '' STATUS_INVALID_DEVICE_STATE (ctl_data c)));
     finish K c STATUS_SUCCESS data }"

definition ioctl_stop :: "kernel \<Rightarrow> dev \<Rightarrow> ctl \<Rightarrow> (ntstatus \<times> u32) drv" where
  "ioctl_stop K d c = do {
     put_extra d (\<lambda>e. e\<lparr>start_flag := 0\<rparr>);
     st \<leftarrow> SetDwordValueInRegistry K 0 (wide ''StartFlag'');
     let data = complain_failure K (ctl_have c) (ctl_out c) ''SetDwordValueInRegistry(FALSE, L\"StartFlag\") is failed in IOCTL_STOP_CALIBRATION with error code: 0x%X; '' st (ctl_data c);
     finish K c STATUS_SUCCESS data }"

definition ioctl_start :: "kernel \<Rightarrow> dev \<Rightarrow> ctl \<Rightarrow> (ntstatus \<times> u32) drv" where
  "ioctl_start K d c = do {
     put_extra d (\<lambda>e. e\<lparr>start_flag := 1\<rparr>);
     st \<leftarrow> SetDwordValueInRegistry K 1 (wide ''StartFlag'');
     let data = complain_failure K (ctl_have c) (ctl_out c) ''SetDwordValueInRegistry(TRUE, L\"StartFlag\") is failed in IOCTL_START_CALIBRATION with error code: 0x%X; '' st (ctl_data c);
     finish K c STATUS_SUCCESS data }"

definition ioctl_remove_driver :: "kernel \<Rightarrow> ctl \<Rightarrow> (ntstatus \<times> u32) drv" where
  "ioctl_remove_driver K c = do {
     ClearAllDeviceTargeting K;
     st \<leftarrow> GetAndDeleteRMSZValueFromRegistry K;
     let data = complain_failure K (ctl_have c) (ctl_out c) ''GetAndDeleteRMSZValueFromRegistry() is failed in IOCTL_REMOVE_DRIVER with error code: 0x%X; '' st (ctl_data c);
     finish K c st data }"

text \<open>The format of the report on the state: one JSON field a line.\<close>

definition state_field :: "string \<Rightarrow> string" where
  "state_field name = [CHR 0x09, CHR 0x22] @ name @ [CHR 0x22] @ '': '' @ [CHR 0x22] @ ''%u'' @ [CHR 0x22]"

definition StateInformation :: string where
  "StateInformation = ''{'' @ [CHR 0x0D, CHR 0x0A] @
     concat (map (\<lambda>name. state_field name @ '','' @ [CHR 0x0D, CHR 0x0A])
       [''Number devices'', ''Calibration was started'', ''Points is available'', ''Number calibration points'',
        ''Device is active'', ''Device is selected'', ''Large touches is active'']) @
     state_field ''Tabcal data is installed in the registry'' @ [CHR 0x0D, CHR 0x0A] @ ''}''"

definition ioctl_get_state :: "kernel \<Rightarrow> dev \<Rightarrow> dev \<Rightarrow> bool \<Rightarrow> ntstatus \<Rightarrow> ctl \<Rightarrow> (ntstatus \<times> u32) drv" where
  "ioctl_get_state K d t have_tmp st0 c = do {
     EnumerateAndDeleteTabCalValues K False;
     if have_tmp then do {
       n \<leftarrow> reads NumberDevices;
       e \<leftarrow> get_extra d;
       p \<leftarrow> get_fido t;
       let (st, txt) = cb_printf K TMP_BUFFER_SIZE StateInformation
         [n, ucast (start_flag e), ucast (check_points e), ucast (number_points e),
          ucast (device_active p), ucast (device_target p), ucast (active_large_touches p),
          ucast (tabcal_in_reg e)];
       (st', info) \<leftarrow> SendInformation K (ctl_irp c) txt (ctl_out c);
       ret (st, info) }
     else do {
       (st', info) \<leftarrow> SendInformation K (ctl_irp c)
         (wide ''There are not enough resources to allocate memory for a row with information'' @ [0])
         (ctl_out c);
       ret (STATUS_SUCCESS, info) } }"

definition ioctl_disable_device :: "kernel \<Rightarrow> dev \<Rightarrow> dev \<Rightarrow> ctl \<Rightarrow> (ntstatus \<times> u32) drv" where
  "ioctl_disable_device K d t c = do {
     e \<leftarrow> get_extra d;
     data \<leftarrow>
       (if target_device e \<noteq> None then do {
          SetAllDeviceActive K;
          put_fido t (\<lambda>p. p\<lparr>device_active := 0\<rparr>);
          p \<leftarrow> get_fido t;
          st \<leftarrow> SetDwordValueInRegistry K (id_instance p) (wide ''DisableDeviceId'');
          ret (complain_failure K (ctl_have c) (ctl_out c) ''SetDwordValueInRegistry(Pdx->IdInstance, L\"DisableDeviceId\") is failed in IOCTL_DISABLE_DEVICE with error code: 0x%X; '' st (ctl_data c)) }
        else ret (complain K (ctl_have c) (ctl_out c) ''The device to be disconnected is not selected in IOCTL_DISABLE_DEVICE with error code: 0x%X; '' STATUS_INVALID_DEVICE_REQUEST (ctl_data c)));
     finish K c STATUS_SUCCESS data }"

definition ioctl_activate_device :: "kernel \<Rightarrow> ctl \<Rightarrow> (ntstatus \<times> u32) drv" where
  "ioctl_activate_device K c = do {
     SetAllDeviceActive K;
     path \<leftarrow> reads RegistryPathService;
     st \<leftarrow> DeleteKeyValueInRegistry K path (wide ''DisableDeviceId'');
     let data = complain_failure K (ctl_have c) (ctl_out c) ''DeleteKeyValueInRegistry(&RegistryPathService, L\"DisableDeviceId\") is failed in IOCTL_ACTIVATE_DEVICE with error code: 0x%X; '' st (ctl_data c);
     finish K c STATUS_SUCCESS data }"

definition ioctl_reset_tabcal :: "kernel \<Rightarrow> ctl \<Rightarrow> (ntstatus \<times> u32) drv" where
  "ioctl_reset_tabcal K c = do {
     st \<leftarrow> EnumerateAndDeleteTabCalValues K True;
     let data = complain_failure K (ctl_have c) (ctl_out c) ''EnumerateAndDeleteTabCalValues() is failed in IOCTL_RESET_TABCAL with error code: 0x%X; '' st (ctl_data c);
     finish K c STATUS_SUCCESS data }"

definition ioctl_send_points_hq ::
  "kernel \<Rightarrow> dev \<Rightarrow> irp_info \<Rightarrow> ctl \<Rightarrow> (ntstatus \<times> u32) drv" where
  "ioctl_send_points_hq K d irp c = do {
     let say = complain_failure K (ctl_have c) (ctl_out c);
     put_extra d (\<lambda>e. e\<lparr>number_points := NINE_CALIBRATION_POINTS\<rparr>);
     e \<leftarrow> get_extra d;
     st \<leftarrow> GetAndCheckCalibrationPoints K (system_buffer irp) (in_length irp) (ucast (number_points e));
     data \<leftarrow>
       (if nt_success st then do {
          put_extra d (\<lambda>e. e\<lparr>check_points := 1\<rparr>);
          st \<leftarrow> RecordPointsInRegistry K (wide ''CalibrationPoints'') (ucast (number_points e));
          if nt_success st then do {
            st1 \<leftarrow> SetDwordValueInRegistry K 1 (wide ''PointsAvailable'');
            let data = say ''SetDwordValueInRegistry(TRUE, L\"PointsAvailable\") is failed in IOCTL_SEND_CALIBRATION_POINTS_HQ with error code: 0x%X; '' st1 (ctl_data c);
            st2 \<leftarrow> SetDwordValueInRegistry K (ucast (number_points e)) (wide ''NumberPoints'');
            ret (say ''SetDwordValueInRegistry(FIVE_CALIBRATION_POINTS, L\"NumberPoints\") is failed in IOCTL_SEND_CALIBRATION_POINTS_HQ with error code: 0x%X; '' st2 data) }
          else ret (complain K (ctl_have c) (ctl_out c) ''RecordPointsInRegistry(L\"CalibrationPoints\", Edx->NumberPoints) is failed in IOCTL_SEND_CALIBRATION_POINTS_HQ with error code: 0x%X; '' st (ctl_data c)) }
        else do {
          let data = complain K (ctl_have c) (ctl_out c) ''GetAndCheckCalibrationPoints(Buffer, InLength, Edx->NumberPoints) is failed in IOCTL_SEND_CALIBRATION_POINTS_HQ with error code: 0x%X; '' st (ctl_data c);
          put_extra d (\<lambda>e. e\<lparr>check_points := 0\<rparr>);
          st \<leftarrow> SetDwordValueInRegistry K 0 (wide ''PointsAvailable'');
          ret (say ''SetDwordValueInRegistry(FALSE, L\"RestrictionPoints\") is failed in IOCTL_SEND_CALIBRATION_POINTS_HQ with error code: 0x%X; '' st data) });
     finish K c STATUS_SUCCESS data }"

definition ioctl_disable_large :: "kernel \<Rightarrow> dev \<Rightarrow> bool \<Rightarrow> ctl \<Rightarrow> (ntstatus \<times> u32) drv" where
  "ioctl_disable_large K d have_tmp c = do {
     e \<leftarrow> get_extra d;
     data \<leftarrow>
       (case target_device e of
          Some t \<Rightarrow> do {
            put_fido t (\<lambda>p. p\<lparr>active_large_touches := 0\<rparr>);
            p \<leftarrow> get_fido t;
            whenever (\<not> have_tmp) (crash NullDeref);
            st \<leftarrow> SetDwordValueInRegistry K 0
              (snd (cb_printf K TMP_BUFFER_SIZE ''LargeTouches %u'' [id_instance p]));
            ret (complain_failure K (ctl_have c) (ctl_out c) ''SetDwordValueInRegistry(FALSE, (PCWSTR)TmpStr) is failed in IOCTL_DISABLE_LARGE_TOUCHES with error code: 0x%X; '' st (ctl_data c)) }
        | None \<Rightarrow>
            ret (complain K (ctl_have c) (ctl_out c) ''The device that you need to disable large touches is not selected in IOCTL_DISABLE_LARGE_TOUCHES with error code: 0x%X; '' STATUS_INVALID_DEVICE_REQUEST (ctl_data c)));
     finish K c STATUS_SUCCESS data }"

definition ioctl_activate_large :: "kernel \<Rightarrow> dev \<Rightarrow> bool \<Rightarrow> ctl \<Rightarrow> (ntstatus \<times> u32) drv" where
  "ioctl_activate_large K d have_tmp c = do {
     e \<leftarrow> get_extra d;
     data \<leftarrow>
       (case target_device e of
          Some t \<Rightarrow> do {
            put_fido t (\<lambda>p. p\<lparr>active_large_touches := 1\<rparr>);
            p \<leftarrow> get_fido t;
            whenever (\<not> have_tmp) (crash NullDeref);
            st \<leftarrow> SetDwordValueInRegistry K 1
              (snd (cb_printf K TMP_BUFFER_SIZE ''LargeTouches %u'' [id_instance p]));
            ret (complain_failure K (ctl_have c) (ctl_out c) ''SetDwordValueInRegistry(TRUE, (PCWSTR)TmpStr) is failed in IOCTL_ACTIVATE_LARGE_TOUCHES with error code: 0x%X; '' st (ctl_data c)) }
        | None \<Rightarrow>
            ret (complain K (ctl_have c) (ctl_out c) ''The device that you need to activate large touches is not selected in IOCTL_ACTIVATE_LARGE_TOUCHES with error code: 0x%X; '' STATUS_INVALID_DEVICE_REQUEST (ctl_data c)));
     finish K c STATUS_SUCCESS data }"

section \<open>The routine\<close>

text \<open>\<open>CTL_CODE(FILE_DEVICE_UNKNOWN, n, METHOD_BUFFERED, FILE_ANY_ACCESS)\<close>\<close>

definition ctl_code :: "u32 \<Rightarrow> u32" where
  "ctl_code n = push_bit 16 0x22 OR push_bit 2 n"

definition control ::
  "kernel \<Rightarrow> dev \<Rightarrow> irp_info \<Rightarrow> dev \<Rightarrow> bool \<Rightarrow> ntstatus \<Rightarrow> ctl \<Rightarrow> (ntstatus \<times> u32) drv" where
  "control K d irp t have_tmp st c =
     (let code = control_code irp in
      if code = ctl_code 0x800 then ioctl_send_points K d irp c
      else if code = ctl_code 0x801 then ioctl_identify K d c
      else if code = ctl_code 0x802 then ioctl_stop K d c
      else if code = ctl_code 0x803 then ioctl_start K d c
      else if code = ctl_code 0x804 then ioctl_remove_driver K c
      else if code = ctl_code 0x806 then ioctl_get_state K d t have_tmp st c
      else if code = ctl_code 0x808 then ioctl_disable_device K d t c
      else if code = ctl_code 0x809 then ioctl_activate_device K c
      else if code = ctl_code 0x810 then ioctl_reset_tabcal K c
      else if code = ctl_code 0x811 then ioctl_send_points_hq K d irp c
      else if code = ctl_code 0x812 then ioctl_disable_large K d have_tmp c
      else if code = ctl_code 0x813 then ioctl_activate_large K d have_tmp c
      else ret (STATUS_INVALID_DEVICE_REQUEST, 0))"

text \<open>\<open>NTSTRSAFE_MAX_CCH * sizeof(WCHAR)\<close>: the largest text of the safe-string routines.\<close>

definition MAX_TEXT_BYTES :: u32 where
  "MAX_TEXT_BYTES = 2 * 0x7FFFFFFF"

definition free_if :: "string \<Rightarrow> nat option \<Rightarrow> unit drv" where
  "free_if tag p = (case p of None \<Rightarrow> skip | Some a \<Rightarrow> free_pool tag a)"

definition DispatchDevCTL :: "kernel \<Rightarrow> dev \<Rightarrow> irp_info \<Rightarrow> ntstatus drv" where
  "DispatchDevCTL K d irp = do {
     x \<leftarrow> load_device d;
     if flag x = FIDO_EXTENSION then DispatchAny K d (irp_id irp)
     else do {
       st \<leftarrow> acquire_lock K d (Some (irp_id irp));
       if \<not> nt_success st then CompleteRequest (irp_id irp) st 0
       else do {
         let out = min (out_length irp) MAX_TEXT_BYTES;
         data \<leftarrow> alloc K ''data'' out;
         tmp \<leftarrow> alloc K ''tmp'' TMP_BUFFER_SIZE;
         let have = (data \<noteq> None \<and> tmp \<noteq> None);
         let basis_bytes = of_nat (2 * length Basis + 2);
         let txt = (if have \<and> basis_bytes \<le> out then cb_copy K basis_bytes (Basis @ [0]) else []);
         e \<leftarrow> get_extra d;
         t \<leftarrow>
           (case target_device e of
              None \<Rightarrow> do { crash NullDeref; ret 0 }
            | Some t \<Rightarrow> do { load_device t; ret t });
         (st, info) \<leftarrow> control K d irp t (tmp \<noteq> None) st
           \<lparr>ctl_irp = irp_id irp, ctl_have = have, ctl_data = txt, ctl_out = out\<rparr>;
         free_if ''data'' data;
         free_if ''tmp'' tmp;
         release_lock d (irp_id irp);
         CompleteRequest (irp_id irp) st info } } }"

end
