(* ===== verification/DriverInit.thy ===== *)
theory DriverInit
  imports Ioctl
begin

text \<open>
  How the driver of \<open>WDM_filter_driver/TouchscreenFilterDriver.c\<close> comes and goes: the entry
  and unload routines, the recognition of a touch panel, the control device (EDO) and the
  device object (FiDO) that \<open>AddDevice\<close> puts on each panel.
\<close>

section \<open>Recognising a panel\<close>

definition SoughtHardwareID :: wstr where
  "SoughtHardwareID = wide ''HID'' @ [0x5C] @ wide ''VID_1FF7&PID_0013''"

definition SoughtDeviceDescription :: wstr where
  "SoughtDeviceDescription = wide ''HID-compliant touch screen''"

text \<open>The properties read: the name says which one, the answer is the buffer and its length.\<close>

definition device_property :: "kernel \<Rightarrow> dev \<Rightarrow> string \<Rightarrow> (ntstatus \<times> wstr \<times> u32) drv" where
  "device_property K Pdo name =
     call (\<lambda>h. k_property K h Pdo name) (\<lambda>(st, txt, n). Device (GetProperty Pdo st))"

fun same_prefix :: "wstr \<Rightarrow> wstr \<Rightarrow> bool" where
  "same_prefix [] probe = True"
| "same_prefix (c # cs) [] = False"
| "same_prefix (c # cs) (p # ps) = (p = c \<and> same_prefix cs ps)"

definition has_prefix :: "wstr \<Rightarrow> wstr \<Rightarrow> bool" where
  "has_prefix sought probe = (if length probe < length sought then False else same_prefix sought probe)"

definition CheckDeviceProperty :: "kernel \<Rightarrow> dev \<Rightarrow> bool drv" where
  "CheckDeviceProperty K Pdo = do {
     (st, buffer, n) \<leftarrow> device_property K Pdo ''HardwareID'';
     if \<not> nt_success st then ret False
     else if \<not> has_prefix SoughtHardwareID (c_text buffer) then ret False
     else do {
       (st, buffer, n) \<leftarrow> device_property K Pdo ''DeviceDescription'';
       ret (nt_success st \<and> has_prefix SoughtDeviceDescription (c_text buffer)) } }"

definition FILE_DEVICE_UNKNOWN :: u32 where "FILE_DEVICE_UNKNOWN = 0x22"

definition GetDeviceTypeToUse :: "kernel \<Rightarrow> dev \<Rightarrow> u32 drv" where
  "GetDeviceTypeToUse K Pdo = do {
     tdo \<leftarrow> call (\<lambda>h. k_device_type K h Pdo) (\<lambda>_. Device (ReferenceTop Pdo));
     case tdo of
       None \<Rightarrow> ret FILE_DEVICE_UNKNOWN
     | Some ty \<Rightarrow> do { emit (Device Dereference); ret ty } }"

text \<open>
  \<open>GetIdInstance\<close> reads the number at the end of the panel's driver key: the last five
  characters that were returned, the final zero among them. \<open>None\<close>: the number was not
  written.
\<close>

definition GetIdInstance :: "kernel \<Rightarrow> dev \<Rightarrow> (ntstatus \<times> u32 option) drv" where
  "GetIdInstance K Pdo = do {
     (st, buffer, n) \<leftarrow> device_property K Pdo ''DriverKeyName'';
     if \<not> nt_success st then ret (st, None)
     else if n < 10 then do { crash BufferOverflow; ret (st, None) }
     else ret (st, to_integer K (c_text (drop (unat (n - 10) div 2) buffer))) }"

section \<open>The control device\<close>

definition DO_DEVICE_INITIALIZING :: u32 where "DO_DEVICE_INITIALIZING = 0x80"
definition DO_BUFFERED_IO :: u32 where "DO_BUFFERED_IO = 4"
definition DO_DIRECT_IO :: u32 where "DO_DIRECT_IO = 0x10"

definition create_device :: "kernel \<Rightarrow> extension \<Rightarrow> (ntstatus \<times> dev option) drv" where
  "create_device K x = do {
     (st, d) \<leftarrow> call (\<lambda>h. let (st, d) = k_create_device K h in (st, if nt_success st then Some d else None))
       (\<lambda>(st, d). Device (CreateDevice st d));
     (case d of
        None \<Rightarrow> skip
      | Some a \<Rightarrow> modify (\<lambda>s. s\<lparr>devices := (devices s)(a \<mapsto>
          \<lparr>flag = 0, dev_flags = DO_DEVICE_INITIALIZING, characteristics = 0, dev_extension = x\<rparr>)\<rparr>));
     ret (st, d) }"

definition set_flag :: "dev \<Rightarrow> u32 \<Rightarrow> unit drv" where
  "set_flag d v = put_device d (\<lambda>x. x\<lparr>flag := v\<rparr>)"

definition end_initializing :: "dev \<Rightarrow> unit drv" where
  "end_initializing d = put_device d (\<lambda>x. x\<lparr>dev_flags := dev_flags x AND NOT DO_DEVICE_INITIALIZING\<rparr>)"

text \<open>The settings that the registry keeps over a restart.\<close>

definition load_settings :: "kernel \<Rightarrow> dev \<Rightarrow> unit drv" where
  "load_settings K d = do {
     (st, n) \<leftarrow> GetDwordValueFromRegistry K (wide ''NumberPoints'');
     whenever (nt_success st)
       (put_extra d (\<lambda>e. e\<lparr>number_points := ucast (case n of None \<Rightarrow> 0 | Some v \<Rightarrow> v)\<rparr>));
     (st, n) \<leftarrow> GetDwordValueFromRegistry K (wide ''PointsAvailable'');
     whenever (nt_success st)
       (put_extra d (\<lambda>e. e\<lparr>check_points := ucast (case n of None \<Rightarrow> 0 | Some v \<Rightarrow> v)\<rparr>));
     e \<leftarrow> get_extra d;
     whenever (check_points e \<noteq> 0 \<and> number_points e \<noteq> 0) (do {
       st \<leftarrow> RetrievePointsFromRegistry K (wide ''CalibrationPoints'');
       whenever (\<not> nt_success st) (put_extra d (\<lambda>e. e\<lparr>check_points := 0\<rparr>)) });
     (st, n) \<leftarrow> GetDwordValueFromRegistry K (wide ''StartFlag'');
     whenever (nt_success st)
       (put_extra d (\<lambda>e. e\<lparr>start_flag := ucast (case n of None \<Rightarrow> 0 | Some v \<Rightarrow> v)\<rparr>)) }"

definition CreateEDO :: "kernel \<Rightarrow> ntstatus drv" where
  "CreateEDO K = do {
     (st, edo) \<leftarrow> create_device K (Extra blank_extra);
     case edo of
       None \<Rightarrow> ret st
     | Some d \<Rightarrow> do {
         modify (\<lambda>s. s\<lparr>Edo := Some d\<rparr>);
         st \<leftarrow> call (k_create_link K) (\<lambda>st. Device (CreateLink st));
         if \<not> nt_success st then do { delete_device d; ret st }
         else do {
           emit (Lock (InitLock d));
           st \<leftarrow> acquire_lock K d None;
           if \<not> nt_success st
           then do { emit (Device DeleteLink); delete_device d; ret st }
           else do {
             emit (Signal (InitSignal SyncEvent False));
             emit (Signal (InitSignal SyncCloseCreateEvent True));
             set_flag d EDO_EXTENSION;
             put_extra d (\<lambda>e. e\<lparr>check_points := 0, start_flag := 0, target_device := None,
               number_points := 0, tabcal_in_reg := 0\<rparr>);
             load_settings K d;
             end_initializing d;
             ret STATUS_SUCCESS } } } }"

section \<open>Adding a panel\<close>

text \<open>The block that each failure of \<open>AddDevice\<close> runs on the control device.\<close>

definition drop_edo :: "dev \<Rightarrow> unit drv" where
  "drop_edo ed = do {
     emit (Lock (ReleaseLock ed None));
     emit (Device DeleteLink);
     delete_device ed }"

definition drop_fido :: "dev \<Rightarrow> unit drv" where
  "drop_fido f = do {
     delete_device f;
     modify (\<lambda>s. s\<lparr>NumberDevices := NumberDevices s - 1\<rparr>) }"

text \<open>
  The settings of the panel in the registry; \<open>TmpValue\<close> keeps its value when a read
  succeeds without writing it.
\<close>

definition panel_settings :: "kernel \<Rightarrow> dev \<Rightarrow> dev \<Rightarrow> u32 \<Rightarrow> unit drv" where
  "panel_settings K ed f idn = do {
     tmp \<leftarrow> alloc K ''tmp'' TMP_BUFFER_SIZE;
     v \<leftarrow>
       (case tmp of
          None \<Rightarrow> ret 0
        | Some p \<Rightarrow> do {
            (st, v) \<leftarrow> GetDwordValueFromRegistry K
              (snd (cb_printf K TMP_BUFFER_SIZE ''LargeTouches %u'' [idn]));
            let v = (case v of None \<Rightarrow> 0 | Some v \<Rightarrow> v);
            whenever (nt_success st) (put_fido f (\<lambda>p. p\<lparr>active_large_touches := ucast v\<rparr>));
            free_pool ''tmp'' p;
            ret v });
     (st, w) \<leftarrow> GetDwordValueFromRegistry K (wide ''DisableDeviceId'');
     let v = (case w of None \<Rightarrow> v | Some w \<Rightarrow> w);
     whenever (nt_success st \<and> idn = v) (put_fido f (\<lambda>p. p\<lparr>device_active := 0\<rparr>));
     (st, w) \<leftarrow> GetDwordValueFromRegistry K (wide ''TargetSectionDriver'');
     let v = (case w of None \<Rightarrow> v | Some w \<Rightarrow> w);
     whenever (nt_success st \<and> idn = v) (do {
       put_fido f (\<lambda>p. p\<lparr>device_target := 1\<rparr>);
       put_extra ed (\<lambda>e. e\<lparr>target_device := Some f\<rparr>) }) }"

definition add_panel :: "kernel \<Rightarrow> dev \<Rightarrow> ntstatus drv" where
  "add_panel K Pdo = do {
     ed \<leftarrow> edo_device;
     GetDeviceTypeToUse K Pdo;
     (st, fido) \<leftarrow> create_device K (Fido blank_fido);
     case fido of
       None \<Rightarrow> do { drop_edo ed; ret st }
     | Some f \<Rightarrow> do {
         modify (\<lambda>s. s\<lparr>NumberDevices := NumberDevices s + 1\<rparr>);
         emit (Lock (InitLock f));
         set_flag f FIDO_EXTENSION;
         put_fido f (\<lambda>p. p\<lparr>pdo := Pdo, device_target := 0, device_active := 1,
           active_large_touches := 1\<rparr>);
         (st, idn) \<leftarrow> GetIdInstance K Pdo;
         if \<not> nt_success st then do { drop_edo ed; drop_fido f; ret st }
         else do {
           let idn = (case idn of None \<Rightarrow> 0 | Some i \<Rightarrow> i);
           put_fido f (\<lambda>p. p\<lparr>id_instance := idn\<rparr>);
           panel_settings K ed f idn;
           (st, low) \<leftarrow> call (\<lambda>h. k_attach K h f) (\<lambda>(st, low). Device (Attach f low st));
           if \<not> nt_success st then do { drop_edo ed; drop_fido f; ret st }
           else do {
             put_fido f (\<lambda>p. p\<lparr>lower_device := low\<rparr>);
             fl \<leftarrow> ask (\<lambda>h. k_lower_flags K h low);
             put_device f (\<lambda>x. x\<lparr>dev_flags := dev_flags x OR
               (fl AND (DO_DIRECT_IO OR DO_BUFFERED_IO OR DO_POWER_PAGABLE))\<rparr>);
             end_initializing f;
             ret STATUS_SUCCESS } } } }"

definition AddDevice :: "kernel \<Rightarrow> dev \<Rightarrow> ntstatus drv" where
  "AddDevice K Pdo = do {
     good \<leftarrow> CheckDeviceProperty K Pdo;
     if \<not> good then ret STATUS_OBJECT_TYPE_MISMATCH
     else do {
       edo \<leftarrow> reads Edo;
       case edo of
         Some d \<Rightarrow> add_panel K Pdo
       | None \<Rightarrow> do {
           st \<leftarrow> CreateEDO K;
           if \<not> nt_success st then ret st
           else do {
             edo \<leftarrow> reads Edo;
             case edo of
               None \<Rightarrow> ret STATUS_INSUFFICIENT_RESOURCES
             | Some d \<Rightarrow> add_panel K Pdo } } } }"

section \<open>Entry and unload\<close>

datatype major_routine = OnAny | OnRead | OnCreate | OnClose | OnPnp | OnPower | OnDevCTL

definition IRP_MJ_CREATE :: nat where "IRP_MJ_CREATE = 0"
definition IRP_MJ_CLOSE :: nat where "IRP_MJ_CLOSE = 2"
definition IRP_MJ_READ :: nat where "IRP_MJ_READ = 3"
definition IRP_MJ_DEVICE_CONTROL :: nat where "IRP_MJ_DEVICE_CONTROL = 0xe"
definition IRP_MJ_POWER :: nat where "IRP_MJ_POWER = 0x16"
definition IRP_MJ_PNP :: nat where "IRP_MJ_PNP = 0x1b"
definition IRP_MJ_MAXIMUM_FUNCTION :: nat where "IRP_MJ_MAXIMUM_FUNCTION = 0x1b"

text \<open>The array \<open>MajorFunction\<close>; \<open>None\<close> is an entry that the driver leaves as it was.\<close>

definition major_functions :: "nat \<Rightarrow> major_routine option" where
  "major_functions =
     (\<lambda>i. if i < IRP_MJ_MAXIMUM_FUNCTION then Some OnAny else None)
       (IRP_MJ_READ \<mapsto> OnRead, IRP_MJ_CREATE \<mapsto> OnCreate, IRP_MJ_CLOSE \<mapsto> OnClose,
        IRP_MJ_PNP \<mapsto> OnPnp, IRP_MJ_POWER \<mapsto> OnPower, IRP_MJ_DEVICE_CONTROL \<mapsto> OnDevCTL)"

definition DriverEntry :: "kernel \<Rightarrow> wstr \<Rightarrow> (ntstatus \<times> (nat \<Rightarrow> major_routine option)) drv" where
  "DriverEntry K path = do {
     let n = of_nat (2 * length path + 2);
     buffer \<leftarrow> alloc K ''ger'' n;
     case buffer of
       None \<Rightarrow> ret (STATUS_INSUFFICIENT_RESOURCES, Map.empty)
     | Some p \<Rightarrow> do {
         modify (\<lambda>s. s\<lparr>RegistryPathService := c_text (cb_copy K n (path @ [0])), path_buffer := Some p\<rparr>);
         ret (STATUS_SUCCESS, major_functions) } }"

text \<open>The routine that the I/O manager calls for a request of the function code \<open>mj\<close>.\<close>

definition run_major :: "kernel \<Rightarrow> major_routine \<Rightarrow> dev \<Rightarrow> irp_info \<Rightarrow> ntstatus drv" where
  "run_major K r d irp =
     (case r of
        OnAny \<Rightarrow> DispatchAny K d (irp_id irp)
      | OnRead \<Rightarrow> DispatchRead K d (irp_id irp)
      | OnCreate \<Rightarrow> DispatchCreate K d (irp_id irp)
      | OnClose \<Rightarrow> DispatchClose K d (irp_id irp)
      | OnPnp \<Rightarrow> DispatchPnp K d irp
      | OnPower \<Rightarrow> DispatchPower K d (irp_id irp)
      | OnDevCTL \<Rightarrow> DispatchDevCTL K d irp)"

definition DriverUnload :: "unit drv" where
  "DriverUnload = do {
     p \<leftarrow> reads path_buffer;
     (case p of None \<Rightarrow> skip | Some a \<Rightarrow> free_pool ''ger'' a);
     modify (\<lambda>s. s\<lparr>RegistryPathService := [], path_buffer := None\<rparr>) }"

end
