(* ===== verification/RequestBalance.thy ===== *)
theory RequestBalance
  imports DriverInit
begin

text \<open>
  What the request routines owe the I/O manager: each request is answered once, by
  completing it or by passing it to the lower driver, and the removal lock taken for a
  request is released once, by the routine or by the completion routine it installs. Both
  are weights of one interface, which extends the one for resources (under it the registry
  weighs nothing).
\<close>

section \<open>The interface\<close>

locale request_weight = no_pool_weight \<mu> 0 0 0 for \<mu> :: "event \<Rightarrow> int" +
  fixes lock :: "dev \<Rightarrow> nat \<Rightarrow> int" and answer :: "nat \<Rightarrow> int"
  assumes acquire_weight: "\<mu> (Lock (AcquireLock d (Some i) st)) = (if nt_success st then lock d i else 0)"
    and release_weight: "\<mu> (Lock (ReleaseLock d (Some i))) = - lock d i"
      "\<mu> (Lock (ReleaseLockAndWait d (Some i))) = - lock d i"
    and inherit_weight: "\<mu> (Irp (SetCompletion d i r)) = - lock d i"
    and untagged_weight: "\<mu> (Lock (ReleaseLockAndWait d None)) = 0"
    and answer_weight: "\<mu> (Irp (Complete i st info)) = answer i" "\<mu> (Irp (CallLower d i st)) = answer i"
    and other_weight: "\<mu> (Irp (MarkPending i)) = 0" "\<mu> (Irp (SkipLocation i)) = 0"
      "\<mu> (Irp (CopyLocation i)) = 0" "\<mu> (Irp (StartNextPower i)) = 0" "\<mu> (Irp (FillBuffer i txt)) = 0"
      "\<mu> (Signal sg) = 0" "\<mu> (Device dv) = 0" "\<mu> (Cpu cp) = 0"
begin

lemmas request_laws = acquire_weight release_weight inherit_weight untagged_weight answer_weight
  other_weight

lemmas complete_parts = acquire_lock_def release_lock_def wait_for_def

lemmas request_calls = complete_parts CompleteRequest_def complete_irp_def call_lower_def
  delete_device_def alloc_def free_pool_def save_state_def free_if_def

lemma Complete_weight: "weighs \<mu> (CompleteRequest i st info) (\<lambda>_. answer i)"
  unfolding request_calls by (rule memory_rules | simp add: request_laws)+

lemma Intended_weight:
  "weighs \<mu> (IntendedForFiDO d i) (\<lambda>st. if nt_success st then 0 else answer i)"
  unfolding IntendedForFiDO_def request_calls
  by (rule memory_rules | simp add: request_laws nt_success_def STATUS_INVALID_PARAMETER_def
      STATUS_SUCCESS_def)+

lemma Any_weight: "weighs \<mu> (DispatchAny K d i) (\<lambda>_. answer i)"
  unfolding DispatchAny_def request_calls
  by (rule weighs_bind [OF Intended_weight] memory_rules | simp add: request_laws)+

lemma Power_weight: "weighs \<mu> (DispatchPower K d i) (\<lambda>_. answer i)"
  unfolding DispatchPower_def request_calls
  by (rule weighs_bind [OF Intended_weight] memory_rules | simp add: request_laws)+

lemma RemoveDevice_weight: "weighs \<mu> (RemoveDevice d) (\<lambda>_. 0)"
  unfolding RemoveDevice_def request_calls by (rule memory_rules | simp add: request_laws)+

lemma Pnp_weight: "weighs \<mu> (DispatchPnp K d irp) (\<lambda>_. answer (irp_id irp))"
  unfolding DispatchPnp_def request_calls
  by (rule weighs_bind [OF Intended_weight] RemoveDevice_weight memory_rules | simp add: request_laws)+

lemma Read_weight: "weighs \<mu> (DispatchRead K d i) (\<lambda>_. answer i)"
  unfolding DispatchRead_def request_calls
  by (rule weighs_bind [OF Intended_weight] SetDword_balanced memory_rules | simp add: request_laws)+

lemma Create_weight: "weighs \<mu> (DispatchCreate K d i) (\<lambda>_. answer i)"
  unfolding DispatchCreate_def complete_parts
  by (rule weighs_bind [OF Complete_weight] Complete_weight Any_weight memory_rules | simp add: request_laws)+

lemma Close_weight: "weighs \<mu> (DispatchClose K d i) (\<lambda>_. answer i)"
  unfolding DispatchClose_def complete_parts
  by (rule weighs_bind [OF Complete_weight] Complete_weight Any_weight memory_rules | simp add: request_laws)+

text \<open>The completion routines release the lock they inherit.\<close>

lemma lift_packet_free: "weighs \<mu> (lift_packet r) (\<lambda>_. 0)"
  unfolding lift_packet_def
  by (auto split: option.split sum.split intro!: weighs_return weighs_bind_free weighs_zero)

lemma Usage_weight:
  "weighs \<mu> (UsageNotificationCompletionRoutine K d irp p) (\<lambda>_. - lock p (irp_id irp))"
  unfolding UsageNotificationCompletionRoutine_def request_calls
  by (rule memory_rules | simp add: request_laws)+

lemma Start_weight:
  "weighs \<mu> (StartDeviceCompletionRoutine K d irp p) (\<lambda>_. - lock p (irp_id irp))"
  unfolding StartDeviceCompletionRoutine_def request_calls
  by (rule memory_rules | simp add: request_laws)+

lemma ReadCompletion_weight:
  "weighs \<mu> (ReadCompletionRoutine K d irp) (\<lambda>_. - lock d (irp_id irp))"
  unfolding ReadCompletionRoutine_def request_calls
  by (rule lift_packet_free memory_rules | simp add: request_laws)+

section \<open>Device control\<close>

lemma SendInformation_weight: "weighs \<mu> (SendInformation K i data n) (\<lambda>_. 0)"
  unfolding SendInformation_def by (rule memory_rules | simp add: request_laws)+

lemma finish_weight: "weighs \<mu> (finish K c st data) (\<lambda>_. 0)"
  unfolding finish_def by (rule SendInformation_weight memory_rules | simp)+

lemma walks_weight:
  "weighs \<mu> (SetAllDeviceActive K) (\<lambda>_. 0)" "weighs \<mu> (ClearAllDeviceTargeting K) (\<lambda>_. 0)"
  unfolding SetAllDeviceActive_def ClearAllDeviceTargeting_def by (rule memory_rules | simp)+

lemma target_first_weight: "weighs \<mu> (target_first K ed ds) (\<lambda>_. 0)"
  by (induction ds) (simp_all, (rule SetDword_balanced memory_rules | simp | assumption)+)

lemma SetSingle_weight: "weighs \<mu> (SetSingleDeviceTarget K) (\<lambda>_. 0)"
  unfolding SetSingleDeviceTarget_def by (rule target_first_weight memory_rules | simp)+

lemma take_points_weight: "weighs \<mu> (take_points d bs is) (\<lambda>_. 0)"
  by (induction "is") (simp_all, (rule memory_rules | simp | assumption)+)

lemma GetAndCheck_weight: "weighs \<mu> (GetAndCheckCalibrationPoints K b n m) (\<lambda>_. 0)"
  unfolding GetAndCheckCalibrationPoints_def check_layout_def
  by (rule take_points_weight with_float_state_balanced memory_rules | simp)+

lemma wait_selection_weight: "weighs \<mu> (wait_selection K n) (\<lambda>_. 0)"
  by (induction n) (simp_all, (rule memory_rules | simp add: request_laws | assumption)+)

lemmas control_parts = finish_weight walks_weight SetSingle_weight GetAndCheck_weight
  wait_selection_weight SetDword_balanced RecordPoints_balanced DeleteKeyValue_balanced
  GetAndDelete_balanced EnumerateAndDelete_balanced SendInformation_weight

lemma points_codes_weight:
  "weighs \<mu> (ioctl_send_points K d irp c) (\<lambda>_. 0)" "weighs \<mu> (ioctl_send_points_hq K d irp c) (\<lambda>_. 0)"
  unfolding ioctl_send_points_def ioctl_send_points_hq_def by (rule control_parts memory_rules | simp)+

lemma identify_weight: "weighs \<mu> (ioctl_identify K d c) (\<lambda>_. 0)"
  unfolding ioctl_identify_def request_calls
  by (rule control_parts memory_rules | simp add: request_laws)+

lemma flag_codes_weight:
  "weighs \<mu> (ioctl_stop K d c) (\<lambda>_. 0)" "weighs \<mu> (ioctl_start K d c) (\<lambda>_. 0)"
  "weighs \<mu> (ioctl_remove_driver K c) (\<lambda>_. 0)" "weighs \<mu> (ioctl_get_state K d t b st c) (\<lambda>_. 0)"
  "weighs \<mu> (ioctl_reset_tabcal K c) (\<lambda>_. 0)"
  unfolding ioctl_stop_def ioctl_start_def ioctl_remove_driver_def ioctl_get_state_def
    ioctl_reset_tabcal_def
  by (rule control_parts memory_rules | simp)+

lemma device_codes_weight:
  "weighs \<mu> (ioctl_disable_device K d t c) (\<lambda>_. 0)" "weighs \<mu> (ioctl_activate_device K c) (\<lambda>_. 0)"
  "weighs \<mu> (ioctl_disable_large K d b c) (\<lambda>_. 0)" "weighs \<mu> (ioctl_activate_large K d b c) (\<lambda>_. 0)"
  unfolding ioctl_disable_device_def ioctl_activate_device_def ioctl_disable_large_def
    ioctl_activate_large_def
  by (rule control_parts memory_rules | simp)+

lemma control_weight: "weighs \<mu> (control K d irp t b st c) (\<lambda>_. 0)"
  unfolding control_def Let_def
  by (rule points_codes_weight identify_weight flag_codes_weight device_codes_weight memory_rules
      | simp)+

lemma DevCTL_weight: "weighs \<mu> (DispatchDevCTL K d irp) (\<lambda>_. answer (irp_id irp))"
  unfolding DispatchDevCTL_def request_calls
  by (rule Any_weight weighs_bind_free [OF control_weight] memory_rules
      | simp add: request_laws laws)+

lemma run_major_weight: "weighs \<mu> (run_major K r d irp) (\<lambda>_. answer (irp_id irp))"
  by (cases r) (simp_all add: run_major_def Any_weight Read_weight Create_weight Close_weight
      Pnp_weight Power_weight DevCTL_weight)

end

end
