(* ===== verification/DriverSafe.thy ===== *)
theory DriverSafe
  imports RequestBalance
begin

text \<open>
  The invariant of the driver's device objects, and the routines that keep it. The EDO and
  the FiDOs exist, each with the extension that its flag announces; the EDO's target is one
  of the FiDOs or none. On such a state the routines use no missing object and read no
  extension as the wrong type.
\<close>

section \<open>The invariant\<close>

type_synonym calib = "u16 \<times> u8 \<times> calibration_point list"

definition calib_of :: "extra_device_extension \<Rightarrow> calib" where
  "calib_of e = (number_points e, check_points e, cpoints e)"

definition is_fido :: "driver \<Rightarrow> dev \<Rightarrow> bool" where
  "is_fido s d \<longleftrightarrow> (\<exists>x p. devices s d = Some x \<and> flag x = FIDO_EXTENSION \<and> dev_extension x = Fido p)"

text \<open>
  \<open>F\<close>: the FiDOs; \<open>T\<close>: the targets that are possible; \<open>ed\<close>: the EDO; \<open>v\<close>: the calibration data.
\<close>

definition driver_ok :: "dev set \<Rightarrow> dev option set \<Rightarrow> dev \<Rightarrow> calib \<Rightarrow> driver \<Rightarrow> bool" where
  "driver_ok F T ed v s \<longleftrightarrow>
     Edo s = Some ed \<and> T \<subseteq> insert None (Some ` F) \<and>
     (\<exists>x e. devices s ed = Some x \<and> flag x = EDO_EXTENSION \<and> dev_extension x = Extra e \<and>
        calib_of e = v \<and> target_device e \<in> T) \<and>
     (\<forall>d \<in> F. is_fido s d)"

abbreviation any_target :: "dev set \<Rightarrow> dev option set" where
  "any_target F \<equiv> insert None (Some ` F)"

definition layout_ok :: "u16 \<Rightarrow> calibration_point list \<Rightarrow> bool" where
  "layout_ok n ps \<longleftrightarrow>
     n = FIVE_CALIBRATION_POINTS \<and> nt_success (CheckPointsLayoutFive ps) \<or>
     n = NINE_CALIBRATION_POINTS \<and> nt_success (CheckPointsLayoutNine ps)"

text \<open>Points that are marked as checked have a layout that was accepted.\<close>

fun accepted :: "calib \<Rightarrow> bool" where
  "accepted (n, c, ps) \<longleftrightarrow> length ps = 9 \<and> (c \<noteq> 0 \<longrightarrow> n = 0 \<or> layout_ok n ps)"

lemma driver_ok_widen: "driver_ok F T ed v s \<Longrightarrow> driver_ok F (any_target F) ed v s"
  by (auto simp: driver_ok_def)

lemma extension_flags [simp]: "EDO_EXTENSION \<noteq> FIDO_EXTENSION" "FIDO_EXTENSION \<noteq> EDO_EXTENSION"
  by (simp_all add: EDO_EXTENSION_def FIDO_EXTENSION_def)

lemma driver_ok_edo: "driver_ok F T ed v s \<Longrightarrow> ed \<notin> F"
  by (auto simp: driver_ok_def is_fido_def)

section \<open>Access\<close>

lemma run_load_device:
  "devices (vars w) d = Some x \<Longrightarrow> run_state (load_device d) w = (x, w)"
  by (simp add: load_device_def)

lemma load_fido:
  "d \<in> F \<Longrightarrow> safe (driver_ok F T ed v) (load_device d)
     (\<lambda>x. flag x = FIDO_EXTENSION \<and> (\<exists>p. dev_extension x = Fido p))"
  unfolding safe_def triple_def
  by (auto simp: load_device_def driver_ok_def is_fido_def split: option.splits dest!: bspec)

lemma load_edo:
  "safe (driver_ok F T ed v) (load_device ed)
     (\<lambda>x. flag x = EDO_EXTENSION \<and> (\<exists>e. dev_extension x = Extra e \<and> calib_of e = v \<and> target_device e \<in> T))"
  unfolding safe_def triple_def
  by (auto simp: load_device_def driver_ok_def split: option.splits)

lemma load_any:
  "d \<in> insert ed F \<Longrightarrow> safe (driver_ok F T ed v) (load_device d) 
     (\<lambda>x. flag x = FIDO_EXTENSION \<longrightarrow> d \<in> F)"
  using load_fido [of d F T ed v] load_edo [of F T ed v]
  by (auto simp: safe_def triple_def driver_ok_def)

lemma safe_get_fido: "d \<in> F \<Longrightarrow> safe (driver_ok F T ed v) (get_fido d) (\<lambda>_. True)"
  unfolding safe_def get_fido_def
  by (rule triple_bind_safe [OF load_fido]) (auto intro: triple_return)

lemma safe_get_extra:
  "safe (driver_ok F T ed v) (get_extra ed) (\<lambda>e. calib_of e = v \<and> target_device e \<in> T)"
  unfolding safe_def get_extra_def
  by (rule triple_bind_safe [OF load_edo]) (auto intro: triple_return)

lemma safe_edo_device: "safe (driver_ok F T ed v) edo_device (\<lambda>d. d = ed)"
  unfolding safe_def edo_device_def
  by (rule triple_bind_primitive)
    (auto simp: driver_ok_def [of _ _ _ _ s for s] intro!: triple_bind_safe [OF load_edo] triple_return)

lemma fido_not_edo: "d \<in> F \<Longrightarrow> driver_ok F T ed v s \<Longrightarrow> d \<noteq> ed"
  using driver_ok_edo by blast

lemma safe_put_device:
  assumes "d \<in> F" "\<And>x. flag (f x) = flag x" "\<And>x. dev_extension (f x) = dev_extension x"
  shows "safe (driver_ok F T ed v) (put_device d f) (\<lambda>_. True)"
  unfolding safe_def put_device_def
proof (rule triple_bind_safe [OF load_fido [OF assms(1)]], rule triple_primitive)
  fix x :: device_object and s
  assume x: "flag x = FIDO_EXTENSION \<and> (\<exists>p. dev_extension x = Fido p)" and s: "driver_ok F T ed v s"
  show "driver_ok F T ed v (s\<lparr>devices := (devices s)(d \<mapsto> f x)\<rparr>) \<and> True"
    using s x assms fido_not_edo [OF assms(1) s] by (auto simp: driver_ok_def is_fido_def)
qed

lemma safe_put_fido:
  assumes "d \<in> F"
  shows "safe (driver_ok F T ed v) (put_fido d f) (\<lambda>_. True)"
  unfolding safe_def put_fido_def put_device_def
proof (rule triple_bind_safe [OF safe_get_fido [OF assms]],
    rule triple_bind_safe [OF load_fido [OF assms]], rule triple_primitive)
  fix x :: device_object and s p
  assume x: "flag x = FIDO_EXTENSION \<and> (\<exists>p. dev_extension x = Fido p)" and s: "driver_ok F T ed v s"
  show "driver_ok F T ed v (s\<lparr>devices := (devices s)(d \<mapsto> x\<lparr>dev_extension := Fido (f p)\<rparr>)\<rparr>) \<and> True"
    using s x fido_not_edo [OF assms s] by (auto simp: driver_ok_def is_fido_def)
qed

lemma triple_put_extra:
  assumes "\<And>e. calib_of e = v \<Longrightarrow> target_device e \<in> T \<Longrightarrow> calib_of (f e) = v' \<and> target_device (f e) \<in> T'"
    and "T' \<subseteq> any_target F"
  shows "triple (driver_ok F T ed v) (put_extra ed f) (\<lambda>_. driver_ok F T' ed v')"
  unfolding put_extra_def put_device_def
proof (rule triple_bind_safe [OF safe_get_extra], rule triple_bind_safe [OF load_edo],
    rule triple_primitive)
  fix x :: device_object and s and e :: extra_device_extension
  assume e: "calib_of e = v \<and> target_device e \<in> T"
    and x: "flag x = EDO_EXTENSION \<and> (\<exists>e. dev_extension x = Extra e \<and> calib_of e = v \<and> target_device e \<in> T)"
    and s: "driver_ok F T ed v s"
  show "driver_ok F T' ed v' (s\<lparr>devices := (devices s)(ed \<mapsto> x\<lparr>dev_extension := Extra (f e)\<rparr>)\<rparr>)"
    using s x assms(1) [of e] e assms(2) driver_ok_edo [OF s] by (auto simp: driver_ok_def is_fido_def)
qed

lemma safe_put_extra:
  assumes "\<And>e. calib_of e = v \<Longrightarrow> target_device e \<in> T \<Longrightarrow> calib_of (f e) = v \<and> target_device (f e) \<in> T"
    and "T \<subseteq> any_target F"
  shows "safe (driver_ok F T ed v) (put_extra ed f) (\<lambda>_. True)"
  unfolding safe_def using triple_put_extra [OF assms, where ed = ed] by simp

text \<open>The rules that the proofs of the routines share.\<close>

lemmas ok_rules = triple_bind_safe [OF safe_get_extra] triple_bind_safe [OF safe_edo_device]
  triple_bind_safe [OF safe_get_fido] triple_bind_safe [OF safe_put_fido]
  triple_bind_safe [OF safe_put_device] triple_bind_safe [OF safe_put_extra]
  triple_post [OF safe_put_fido] triple_post [OF safe_put_device] triple_post [OF safe_put_extra]
  triple_bind_free triple_control triple_return triple_primitive

end
