(* ===== verification/RequestSafe.thy ===== *)
theory RequestSafe
  imports DriverSafe
begin

text \<open>
  The request routines keep the invariant of the device objects (\<open>driver_ok\<close>) and meet no
  fault: reads, power, plug and play other than removal, create and close on any device,
  and device control once a panel is selected.
\<close>

section \<open>The registry\<close>

lemmas plain_calls = open_key_def close_key_def query_value_def set_value_def delete_value_def
  query_key_def enum_key_def alloc_def free_pool_def save_state_def complete_irp_def acquire_lock_def
  release_lock_def call_lower_def wait_for_def free_if_def

lemma SetDword_safe: "safe P (SetDwordValueInRegistry K v name) (\<lambda>_. True)"
  unfolding safe_def SetDwordValueInRegistry_def plain_calls
  by (hypsubst | rule triple_rules | simp)+

lemma DeleteKeyValue_safe: "safe P (DeleteKeyValueInRegistry K path name) (\<lambda>_. True)"
  unfolding safe_def DeleteKeyValueInRegistry_def plain_calls
  by (hypsubst | rule triple_rules | simp)+

lemma RecordPoints_safe: "safe (driver_ok F T ed v) (RecordPointsInRegistry K name n) (\<lambda>_. True)"
  unfolding safe_def RecordPointsInRegistry_def plain_calls
  by (hypsubst | rule ok_rules | simp)+

lemma GetInformation_safe:
  "safe P (GetInformationFromRegistry K hk tag) (\<lambda>_. True)"
  unfolding safe_def GetInformationFromRegistry_def plain_calls
  by (hypsubst | rule triple_rules | simp)+

lemma DeleteTabCal_safe:
  "T \<subseteq> any_target F \<Longrightarrow> safe (driver_ok F T ed v) (DeleteTabCalValue K name b) (\<lambda>_. True)"
  unfolding safe_def DeleteTabCalValue_def plain_calls
  by (hypsubst | rule ok_rules triple_bind_keep | simp add: calib_of_def)+

lemma EnumerateId_safe:
  "T \<subseteq> any_target F \<Longrightarrow> safe (driver_ok F T ed v) (EnumerateIdDevices K name b) (\<lambda>_. True)"
  unfolding safe_def EnumerateIdDevices_def plain_calls
  by (hypsubst | rule triple_bind_safe [OF GetInformation_safe] triple_bind_safe [OF DeleteTabCal_safe]
      ok_rules triple_for_each triple_bind_keep | simp)+

lemma EnumerateAndDelete_safe:
  "T \<subseteq> any_target F \<Longrightarrow> safe (driver_ok F T ed v) (EnumerateAndDeleteTabCalValues K b) (\<lambda>_. True)"
  unfolding safe_def EnumerateAndDeleteTabCalValues_def plain_calls
  by (hypsubst | rule triple_bind_safe [OF GetInformation_safe] triple_bind_safe [OF EnumerateId_safe]
      ok_rules triple_for_each triple_bind_keep | simp)+

section \<open>Requests on any device\<close>

lemma Complete_safe: "safe P (CompleteRequest i st info) (\<lambda>_. True)"
  unfolding safe_def CompleteRequest_def plain_calls by (rule triple_rules | simp)+

text \<open>Where \<open>IntendedForFiDO\<close> succeeds, the device is a FiDO.\<close>

lemma Intended_safe:
  assumes "d \<in> insert ed F"
  shows "safe (driver_ok F T ed v) (IntendedForFiDO d i) (\<lambda>st. nt_success st \<longrightarrow> d \<in> F)"
proof (cases "d \<in> F")
  case True
  then show ?thesis
    unfolding safe_def IntendedForFiDO_def
    by (auto intro!: triple_bind_safe [OF load_fido] triple_return)
next
  case False
  with assms have "d = ed" by simp
  then show ?thesis
    unfolding safe_def IntendedForFiDO_def CompleteRequest_def plain_calls
    by (auto intro!: triple_bind_safe [OF load_edo] triple_bind_primitive triple_return
        simp: nt_success_def STATUS_INVALID_PARAMETER_def)
qed

lemmas request_rules = triple_bind_safe [OF Intended_safe] triple_bind_safe [OF load_any]
  triple_bind_safe [OF Complete_safe] triple_post [OF Complete_safe]
  triple_bind_safe [OF SetDword_safe] ok_rules triple_bind_keep

lemma Any_safe:
  "d \<in> insert ed F \<Longrightarrow> safe (driver_ok F T ed v) (DispatchAny K d i) (\<lambda>_. True)"
  unfolding safe_def DispatchAny_def plain_calls
  by (hypsubst | rule request_rules | assumption | simp)+

lemma Power_safe:
  "d \<in> insert ed F \<Longrightarrow> safe (driver_ok F T ed v) (DispatchPower K d i) (\<lambda>_. True)"
  unfolding safe_def DispatchPower_def plain_calls
  by (hypsubst | rule request_rules | assumption | simp)+

lemma Read_safe:
  "d \<in> insert ed F \<Longrightarrow> safe (driver_ok F (any_target F) ed v) (DispatchRead K d i) (\<lambda>_. True)"
  unfolding safe_def DispatchRead_def plain_calls
  by (hypsubst | rule request_rules | assumption | simp add: calib_of_def)+

lemma Pnp_safe:
  "d \<in> insert ed F \<Longrightarrow> minor_function irp \<noteq> IRP_MN_REMOVE_DEVICE \<Longrightarrow>
   safe (driver_ok F T ed v) (DispatchPnp K d irp) (\<lambda>_. True)"
  unfolding safe_def DispatchPnp_def plain_calls
  by (hypsubst | rule request_rules | assumption | simp)+

lemma Create_safe:
  "d \<in> insert ed F \<Longrightarrow> safe (driver_ok F T ed v) (DispatchCreate K d i) (\<lambda>_. True)"
  unfolding safe_def DispatchCreate_def plain_calls
  by (hypsubst | rule triple_post [OF Any_safe] request_rules | assumption | simp)+

lemma Close_safe:
  "d \<in> insert ed F \<Longrightarrow> safe (driver_ok F T ed v) (DispatchClose K d i) (\<lambda>_. True)"
  unfolding safe_def DispatchClose_def plain_calls
  by (hypsubst | rule triple_post [OF Any_safe] request_rules | assumption | simp)+

end
