(* ===== verification/ControlSafe.thy ===== *)
theory ControlSafe
  imports RequestSafe
begin

text \<open>
  Device control on a driver with a selected panel. Each control code keeps the invariant of
  the device objects; the two codes that take calibration points leave them either unmarked
  or with an accepted layout. The code that removes the driver from the list of filters is
  left aside here: it reads a \<open>REG_MULTI_SZ\<close> value whose form the driver trusts.
\<close>

section \<open>The parts of a control code\<close>

lemma SendInformation_safe: "safe P (SendInformation K i data n) (\<lambda>_. True)"
  unfolding safe_def SendInformation_def
  by (hypsubst | rule triple_rules | simp)+

lemma finish_safe: "safe P (finish K c st data) (\<lambda>_. True)"
  unfolding safe_def finish_def
  by (hypsubst | rule triple_bind_safe [OF SendInformation_safe] triple_rules | simp)+

text \<open>The driver's device list holds the EDO and the FiDOs.\<close>

definition known_chain :: "kernel \<Rightarrow> dev \<Rightarrow> dev set \<Rightarrow> bool" where
  "known_chain K ed F \<longleftrightarrow> (\<forall>h. set (k_chain K h) \<subseteq> insert ed F)"

lemma walk_step_safe:
  assumes "d \<in> insert ed F"
  shows "triple (driver_ok F T ed v)
     (do { x \<leftarrow> load_device d; whenever (flag x = FIDO_EXTENSION) (put_fido d f) })
     (\<lambda>_. driver_ok F T ed v)"
  by (hypsubst | rule triple_bind_safe [OF load_any [OF assms]] ok_rules | simp)+

lemma walks_safe:
  assumes "known_chain K ed F"
  shows "safe (driver_ok F T ed v) (SetAllDeviceActive K) (\<lambda>_. True)"
    "safe (driver_ok F T ed v) (ClearAllDeviceTargeting K) (\<lambda>_. True)"
  unfolding safe_def SetAllDeviceActive_def ClearAllDeviceTargeting_def
  by (hypsubst | rule triple_bind_safe [OF safe_edo_device] triple_bind_safe [OF safe_get_extra]
      triple_bind_primitive triple_for_each walk_step_safe
    | use assms in \<open>force simp: known_chain_def\<close>)+

lemma target_first_safe:
  "set ds \<subseteq> insert ed F \<Longrightarrow>
   safe (driver_ok F (any_target F) ed v) (target_first K ed ds) (\<lambda>_. True)"
proof (induction ds)
  case Nil
  then show ?case by (simp add: safe_def triple_return)
next
  case (Cons d ds)
  then have d: "d \<in> insert ed F" and
    tail: "triple (driver_ok F (any_target F) ed v) (target_first K ed ds)
      (\<lambda>a s. driver_ok F (any_target F) ed v s \<and> True)"
    by (simp_all add: safe_def)
  show ?case
    unfolding safe_def target_first.simps
    by (hypsubst | rule tail triple_bind_safe [OF load_any [OF d]] triple_post [OF SetDword_safe]
        ok_rules | simp add: calib_of_def)+
qed

lemma SetSingle_safe:
  assumes "known_chain K ed F"
  shows "safe (driver_ok F (any_target F) ed v) (SetSingleDeviceTarget K) (\<lambda>_. True)"
  unfolding safe_def SetSingleDeviceTarget_def
  by (hypsubst | rule triple_bind_safe [OF safe_edo_device] triple_bind_safe [OF safe_get_extra]
      triple_bind_primitive triple_post [OF target_first_safe]
    | use assms in \<open>force simp: known_chain_def\<close>)+

lemma wait_selection_safe: "safe P (wait_selection K n) (\<lambda>_. True)"
  unfolding safe_def
proof (induction n)
  case 0
  then show ?case by (simp add: triple_primitive)
next
  case (Suc n)
  show ?case
    unfolding wait_selection.simps
    by (rule triple_bind_free(4) triple_control(1) triple_bind_free(1) Suc.IH triple_primitive(6)
        | simp)+
qed

section \<open>Taking calibration points\<close>

lemma length_four: "length xs = 4 \<Longrightarrow> \<exists>a b c d. xs = [a, b, c, d]"
  by (auto simp: length_Suc_conv numeral_eq_Suc)

lemma point_of_Some: "4 * i + 4 \<le> length bs \<Longrightarrow> \<exists>p. point_of bs i = Some p"
proof -
  assume "4 * i + 4 \<le> length bs"
  then have "length (take 4 (drop (4 * i) bs)) = 4" by simp
  then obtain a b c d where "take 4 (drop (4 * i) bs) = [a, b, c, d]"
    using length_four by blast
  then show ?thesis using \<open>4 * i + 4 \<le> length bs\<close> by (simp add: point_of_def)
qed

lemma unat_ucast_u16_u32: "unat (ucast (n :: u16) :: u32) = unat n"
  by (simp add: unsigned_ucast_eq unsigned_take_bit_eq take_bit_nat_eq_self unsigned_less
      order.strict_trans2 [OF unsigned_less])

lemma ucast_u16_inj: "(ucast (n :: u16) :: u32) = ucast k \<longleftrightarrow> n = k"
  by (metis unat_ucast_u16_u32 word_unat_eq_iff)

text \<open>The state while points are copied: nine points, of any value.\<close>

definition some_points :: "dev set \<Rightarrow> dev option set \<Rightarrow> dev \<Rightarrow> u16 \<Rightarrow> u8 \<Rightarrow> driver \<Rightarrow> bool" where
  "some_points F T ed n c s \<longleftrightarrow> (\<exists>ps. length ps = 9 \<and> driver_ok F T ed (n, c, ps) s)"

lemma triple_some_points:
  "(\<And>ps. length ps = 9 \<Longrightarrow> triple (driver_ok F T ed (n, c, ps)) m Q) \<Longrightarrow>
   triple (some_points F T ed n c) m Q"
  by (auto simp: triple_def some_points_def)

lemma some_pointsI: "length ps = 9 \<Longrightarrow> driver_ok F T ed (n, c, ps) s \<Longrightarrow> some_points F T ed n c s"
  by (auto simp: some_points_def)

lemma take_points_ok:
  assumes "T \<subseteq> any_target F"
  shows "\<forall>i \<in> set is. i < 9 \<and> 4 * i + 4 \<le> length bs \<Longrightarrow>
    triple (some_points F T ed n c) (take_points ed bs is) (\<lambda>_. some_points F T ed n c)"
proof (induction "is")
  case Nil
  then show ?case by (simp add: triple_return)
next
  case (Cons i "is")
  then obtain p where p: "point_of bs i = Some p" and i: "i < 9"
    using point_of_Some by fastforce
  show ?case
  proof (rule triple_some_points)
    fix ps :: "calibration_point list" assume ps: "length ps = 9"
    have put: "triple (driver_ok F T ed (n, c, ps))
        (if length (cpoints e) \<le> i then crash BufferOverflow
         else put_extra ed (\<lambda>e. e\<lparr>cpoints := (cpoints e)[i := p]\<rparr>))
        (\<lambda>_. some_points F T ed n c)" if "calib_of e = (n, c, ps) \<and> target_device e \<in> T" for e
    proof -
      have "triple (driver_ok F T ed (n, c, ps)) (put_extra ed (\<lambda>e. e\<lparr>cpoints := (cpoints e)[i := p]\<rparr>))
          (\<lambda>_. driver_ok F T ed (n, c, ps[i := p]))"
        by (rule triple_put_extra) (auto simp: calib_of_def assms)
      then have "triple (driver_ok F T ed (n, c, ps))
          (put_extra ed (\<lambda>e. e\<lparr>cpoints := (cpoints e)[i := p]\<rparr>)) (\<lambda>_. some_points F T ed n c)"
        by (rule triple_mono) (use ps in \<open>auto intro: some_pointsI [of "ps[i := p]"]\<close>)
      then show ?thesis using that i ps by (auto simp: calib_of_def)
    qed
    show "triple (driver_ok F T ed (n, c, ps)) (take_points ed bs (i # is)) (\<lambda>_. some_points F T ed n c)"
      unfolding take_points.simps p option.case
      by (rule triple_bind_safe [OF safe_get_extra], rule triple_bind [OF put], assumption)
        (use Cons in \<open>auto intro: triple_return\<close>)
  qed
qed

lemma check_layout_ok:
  assumes "length ps = 9" "m = ucast n"
  shows "triple (driver_ok F T ed (n, c, ps)) (check_layout ed m)
     (\<lambda>st s. driver_ok F T ed (n, c, ps) s \<and> (nt_success st \<longrightarrow> layout_ok n ps))"
  unfolding check_layout_def assms(2) ucast_u16_inj
  by (rule triple_bind_safe [OF safe_get_extra])
    (auto simp: calib_of_def layout_ok_def nt_success_def STATUS_FLOAT_INVALID_OPERATION_def
      intro!: triple_return)


lemma with_float_state_ok:
  assumes "triple P m Q" "\<And>st s. P s \<Longrightarrow> \<not> nt_success st \<Longrightarrow> Q st s"
  shows "triple P (with_float_state K m) Q"
  unfolding with_float_state_def save_state_def
proof (rule triple_bind_free(4), rule triple_control(1))
  show "triple P (State_Monad.bind m (\<lambda>st'. State_Monad.bind (emit (Cpu RestoreState)) (\<lambda>_. ret st'))) Q"
    by (rule triple_bind [OF assms(1)]) (rule triple_bind_free(1), rule triple_return)
  show "triple P (ret st) Q" if "\<not> nt_success st" for st
    by (rule triple_return) (rule assms(2) [OF _ that])
qed

text \<open>\<open>GetAndCheckCalibrationPoints\<close> succeeds only with points of an accepted layout.\<close>

definition checked_points ::
  "dev set \<Rightarrow> dev option set \<Rightarrow> dev \<Rightarrow> u16 \<Rightarrow> u8 \<Rightarrow> bool \<Rightarrow> driver \<Rightarrow> bool" where
  "checked_points F T ed n c good s \<longleftrightarrow>
     (\<exists>ps. length ps = 9 \<and> driver_ok F T ed (n, c, ps) s \<and> (good \<longrightarrow> layout_ok n ps))"

lemma checked_failure:
  "some_points F T ed n c s \<Longrightarrow> \<not> nt_success st \<Longrightarrow> checked_points F T ed n c (nt_success st) s"
  by (auto simp: some_points_def checked_points_def)

lemma check_taken_ok:
  assumes "T \<subseteq> any_target F" "n \<le> 9" "length bs = 4 * unat (ucast n :: u32)" "length ps = 9"
  shows "triple (driver_ok F T ed (n, c, ps)) (do {
      st \<leftarrow> take_points ed bs [0..<unat (ucast n :: u32)];
      if \<not> nt_success st then ret st
      else with_float_state K (check_layout ed (ucast n)) })
    (\<lambda>st. checked_points F T ed n c (nt_success st))"
proof (rule triple_bind)
  have n: "unat (ucast n :: u32) \<le> 9"
    using assms(2) by (simp add: unat_ucast_u16_u32 word_le_nat_alt)
  show "triple (driver_ok F T ed (n, c, ps)) (take_points ed bs [0..<unat (ucast n :: u32)])
      (\<lambda>_. some_points F T ed n c)"
    by (rule triple_mono [OF take_points_ok [OF assms(1)]])
      (use assms(3,4) n in \<open>auto intro: some_pointsI\<close>)
  show "triple (some_points F T ed n c)
      (if \<not> nt_success st then ret st else with_float_state K (check_layout ed (ucast n)))
      (\<lambda>st. checked_points F T ed n c (nt_success st))" for st
  proof (rule triple_control(1))
    show "triple (some_points F T ed n c) (ret st) (\<lambda>st. checked_points F T ed n c (nt_success st))"
      if "\<not> nt_success st" using that by (auto intro: triple_return checked_failure)
    show "triple (some_points F T ed n c) (with_float_state K (check_layout ed (ucast n)))
        (\<lambda>st. checked_points F T ed n c (nt_success st))"
    proof (rule with_float_state_ok, rule triple_some_points)
      show "triple (driver_ok F T ed (n, c, qs)) (check_layout ed (ucast n))
          (\<lambda>st. checked_points F T ed n c (nt_success st))" if "length qs = 9" for qs
        by (rule triple_mono [OF check_layout_ok]) (use that in \<open>auto simp: checked_points_def\<close>)
    qed (rule checked_failure)
  qed
qed

lemma GetAndCheck_ok:
  assumes "T \<subseteq> any_target F" "n \<le> 9" "case buffer of None \<Rightarrow> True | Some bs \<Rightarrow> length bs = unat in_len"
  shows "triple (some_points F T ed n c) (GetAndCheckCalibrationPoints K buffer in_len (ucast n))
     (\<lambda>st. checked_points F T ed n c (nt_success st))"
proof (rule triple_some_points)
  fix ps :: "calibration_point list" assume ps: "length ps = 9"
  have fail: "triple (driver_ok F T ed (n, c, ps)) (ret st)
      (\<lambda>st. checked_points F T ed n c (nt_success st))" if "\<not> nt_success st" for st
    using that ps by (auto intro!: triple_return checked_failure some_pointsI)
  show "triple (driver_ok F T ed (n, c, ps)) (GetAndCheckCalibrationPoints K buffer in_len (ucast n))
     (\<lambda>st. checked_points F T ed n c (nt_success st))"
    unfolding GetAndCheckCalibrationPoints_def
  proof (rule triple_bind_safe [OF safe_edo_device], hypsubst)
    show "triple (driver_ok F T ed (n, c, ps)) (case buffer of None \<Rightarrow> ret STATUS_INVALID_ADDRESS
      | Some bs \<Rightarrow>
         if 4 * unat (ucast n :: u32) \<noteq> unat in_len then ret STATUS_INVALID_BUFFER_SIZE
         else do {
           st \<leftarrow> take_points ed bs [0..<unat (ucast n :: u32)];
           if \<not> nt_success st then ret st
           else with_float_state K (check_layout ed (ucast n)) })
      (\<lambda>st. checked_points F T ed n c (nt_success st))"
      using assms(3) check_taken_ok [OF assms(1,2) _ ps]
      by (auto simp: fail intro!: triple_control(1) triple_control(3))
  qed
qed

section \<open>The control codes\<close>

definition driver_fine :: "dev set \<Rightarrow> dev option set \<Rightarrow> dev \<Rightarrow> driver \<Rightarrow> bool" where
  "driver_fine F T ed s \<longleftrightarrow> (\<exists>v. accepted v \<and> driver_ok F T ed v s)"

lemma triple_fine:
  "(\<And>v. accepted v \<Longrightarrow> triple (driver_ok F T ed v) m Q) \<Longrightarrow> triple (driver_fine F T ed) m Q"
  unfolding triple_def driver_fine_def by blast

lemma safe_fine:
  assumes "\<And>v. safe (driver_ok F T ed v) m R"
  shows "safe (driver_fine F T ed) m R"
  unfolding safe_def
proof (rule triple_fine)
  fix v assume "accepted v"
  then show "triple (driver_ok F T ed v) m (\<lambda>a s. driver_fine F T ed s \<and> R a)"
    unfolding driver_fine_def by (blast intro: triple_post [OF assms [of v]])
qed

lemma mark_points:
  assumes "T \<subseteq> any_target F" "length ps = 9" "c \<noteq> 0 \<longrightarrow> layout_ok n ps"
  shows "triple (driver_ok F T ed (n, b, ps)) (put_extra ed (\<lambda>e. e\<lparr>check_points := c\<rparr>))
     (\<lambda>_. driver_fine F T ed)"
  by (rule triple_mono [OF triple_put_extra [where v = "(n, b, ps)" and v' = "(n, c, ps)" and T = T and T' = T]])
    (use assms in \<open>auto simp: calib_of_def driver_fine_def intro!: exI [of _ "(n, c, ps)"]\<close>)

lemma mark_checked:
  "T \<subseteq> any_target F \<Longrightarrow> triple (checked_points F T ed n b True)
     (put_extra ed (\<lambda>e. e\<lparr>check_points := 1\<rparr>)) (\<lambda>_. driver_fine F T ed)"
  "T \<subseteq> any_target F \<Longrightarrow> triple (checked_points F T ed n b False)
     (put_extra ed (\<lambda>e. e\<lparr>check_points := 0\<rparr>)) (\<lambda>_. driver_fine F T ed)"
proof -
  have ex: "triple (checked_points F T ed n b g) m Q"
    if "\<And>ps. length ps = 9 \<Longrightarrow> (g \<longrightarrow> layout_ok n ps) \<Longrightarrow> triple (driver_ok F T ed (n, b, ps)) m Q" for g m Q
    using that unfolding checked_points_def triple_def by blast
  show "T \<subseteq> any_target F \<Longrightarrow> triple (checked_points F T ed n b True)
     (put_extra ed (\<lambda>e. e\<lparr>check_points := 1\<rparr>)) (\<lambda>_. driver_fine F T ed)"
    by (rule ex, rule mark_points) auto
  show "T \<subseteq> any_target F \<Longrightarrow> triple (checked_points F T ed n b False)
     (put_extra ed (\<lambda>e. e\<lparr>check_points := 0\<rparr>)) (\<lambda>_. driver_fine F T ed)"
    by (rule ex, rule mark_points) auto
qed

lemma set_number:
  assumes "T \<subseteq> any_target F" "length ps = 9"
  shows "triple (driver_ok F T ed (k, c, ps)) (put_extra ed (\<lambda>e. e\<lparr>number_points := n\<rparr>))
     (\<lambda>_. some_points F T ed n c)"
  by (rule triple_mono [OF triple_put_extra [where v = "(k, c, ps)" and v' = "(n, c, ps)" and T = T and T' = T]])
    (use assms in \<open>auto simp: calib_of_def intro: some_pointsI\<close>)

lemma get_some_points:
  "safe (some_points F T ed n c) (get_extra ed) (\<lambda>e. number_points e = n)"
  unfolding safe_def
  by (rule triple_some_points, rule triple_post [OF safe_get_extra])
    (auto simp: calib_of_def intro: some_pointsI)

lemmas fine_rules = triple_bind_safe [OF safe_fine [OF RecordPoints_safe]]
  triple_bind_safe [OF SetDword_safe] triple_bind_safe [OF finish_safe] triple_post [OF finish_safe]
  triple_rules

text \<open>The two codes that take points, with the number of points \<open>n\<close> that they ask for.\<close>

lemma points_code_ok:
  assumes "T \<subseteq> any_target F" "n \<le> 9"
    and "case system_buffer irp of None \<Rightarrow> True | Some bs \<Rightarrow> length bs = unat (in_length irp)"
    and good: "\<And>e. triple (driver_fine F T ed) (good e) (\<lambda>_. driver_fine F T ed)"
    and bad: "\<And>st. triple (driver_fine F T ed) (bad st) (\<lambda>_. driver_fine F T ed)"
    and rest: "\<And>data. triple (driver_fine F T ed) (rest data) (\<lambda>_. driver_fine F T ed)"
  shows "triple (driver_fine F T ed) (do {
       put_extra ed (\<lambda>e. e\<lparr>number_points := n\<rparr>);
       e \<leftarrow> get_extra ed;
       st \<leftarrow> GetAndCheckCalibrationPoints K (system_buffer irp) (in_length irp) (ucast (number_points e));
       data \<leftarrow> (if nt_success st then do { put_extra ed (\<lambda>e. e\<lparr>check_points := 1\<rparr>); good e }
          else do { put_extra ed (\<lambda>e. e\<lparr>check_points := 0\<rparr>); bad st });
       rest data }) (\<lambda>_. driver_fine F T ed)"
proof (rule triple_fine)
  fix v assume "accepted v"
  obtain k c ps where v: "v = (k, c, ps)" by (cases v)
  then have ps: "length ps = 9" using \<open>accepted v\<close> by simp
  show "triple (driver_ok F T ed v) (do {
       put_extra ed (\<lambda>e. e\<lparr>number_points := n\<rparr>);
       e \<leftarrow> get_extra ed;
       st \<leftarrow> GetAndCheckCalibrationPoints K (system_buffer irp) (in_length irp) (ucast (number_points e));
       data \<leftarrow> (if nt_success st then do { put_extra ed (\<lambda>e. e\<lparr>check_points := 1\<rparr>); good e }
          else do { put_extra ed (\<lambda>e. e\<lparr>check_points := 0\<rparr>); bad st });
       rest data }) (\<lambda>_. driver_fine F T ed)"
    unfolding v
  proof (rule triple_bind [OF set_number [OF assms(1) ps]],
      rule triple_bind_safe [OF get_some_points], simp only:,
      rule triple_bind [OF GetAndCheck_ok [OF assms(1,2,3)]],
      rule triple_bind [where R = "\<lambda>_. driver_fine F T ed"])
    show "triple (checked_points F T ed n c (nt_success st))
        (if nt_success st then do { put_extra ed (\<lambda>e. e\<lparr>check_points := 1\<rparr>); good e }
         else do { put_extra ed (\<lambda>e. e\<lparr>check_points := 0\<rparr>); bad st }) (\<lambda>_. driver_fine F T ed)"
      for st e
      by (cases "nt_success st") (auto intro: triple_bind [OF mark_checked(1) [OF assms(1)] good]
          triple_bind [OF mark_checked(2) [OF assms(1)] bad])
  qed (rule rest)
qed

lemma send_points_ok:
  assumes "T \<subseteq> any_target F"
    and "case system_buffer irp of None \<Rightarrow> True | Some bs \<Rightarrow> length bs = unat (in_length irp)"
  shows "triple (driver_fine F T ed) (ioctl_send_points K ed irp c) (\<lambda>_. driver_fine F T ed)"
    "triple (driver_fine F T ed) (ioctl_send_points_hq K ed irp c) (\<lambda>_. driver_fine F T ed)"
  unfolding ioctl_send_points_def ioctl_send_points_hq_def Let_def
  by (rule points_code_ok assms fine_rules
      | simp add: FIVE_CALIBRATION_POINTS_def NINE_CALIBRATION_POINTS_def)+

lemmas control_rules = triple_bind_safe [OF finish_safe] triple_post [OF finish_safe]
  triple_bind_safe [OF SendInformation_safe] triple_post [OF SendInformation_safe]
  triple_bind_safe [OF SetDword_safe] triple_bind_safe [OF DeleteKeyValue_safe]
  triple_bind_safe [OF wait_selection_safe] triple_bind_safe [OF EnumerateAndDelete_safe]
  triple_bind_safe [OF SetSingle_safe] triple_bind_safe [OF walks_safe(1)]
  triple_bind_safe [OF walks_safe(2)] ok_rules

lemma identify_safe:
  assumes "known_chain K ed F"
  shows "safe (driver_ok F (any_target F) ed v) (ioctl_identify K ed c) (\<lambda>_. True)"
  unfolding safe_def ioctl_identify_def wait_for_def
  by (hypsubst | rule assms control_rules triple_bind_keep | simp add: calib_of_def)+

lemma flag_codes_safe:
  assumes "T \<subseteq> any_target F"
  shows "safe (driver_ok F T ed v) (ioctl_stop K ed c) (\<lambda>_. True)"
    "safe (driver_ok F T ed v) (ioctl_start K ed c) (\<lambda>_. True)"
    "safe (driver_ok F T ed v) (ioctl_reset_tabcal K c) (\<lambda>_. True)"
  unfolding safe_def ioctl_stop_def ioctl_start_def ioctl_reset_tabcal_def
  by (hypsubst | rule assms control_rules | simp add: calib_of_def)+

lemma get_state_safe:
  assumes "T \<subseteq> any_target F" "t \<in> F"
  shows "safe (driver_ok F T ed v) (ioctl_get_state K ed t b st c) (\<lambda>_. True)"
  unfolding safe_def ioctl_get_state_def
  by (hypsubst | rule assms control_rules | simp)+

lemma device_codes_safe:
  assumes "known_chain K ed F" "t \<in> F"
  shows "safe (driver_ok F T ed v) (ioctl_disable_device K ed t c) (\<lambda>_. True)"
    "safe (driver_ok F T ed v) (ioctl_activate_device K c) (\<lambda>_. True)"
  unfolding safe_def ioctl_disable_device_def ioctl_activate_device_def
  by (hypsubst | rule assms control_rules triple_bind_keep | simp)+

lemma large_codes_safe:
  assumes "T \<subseteq> any_target F"
  shows "safe (driver_ok F T ed v) (ioctl_disable_large K ed True c) (\<lambda>_. True)"
    "safe (driver_ok F T ed v) (ioctl_activate_large K ed True c) (\<lambda>_. True)"
  unfolding safe_def ioctl_disable_large_def ioctl_activate_large_def
  by (hypsubst | rule assms control_rules triple_bind_keep | use assms in \<open>simp; blast\<close>)+

section \<open>The routine\<close>

definition good_request :: "irp_info \<Rightarrow> bool" where
  "good_request irp \<longleftrightarrow> control_code irp \<noteq> ctl_code 0x804 \<and>
     (case system_buffer irp of None \<Rightarrow> True | Some bs \<Rightarrow> length bs = unat (in_length irp))"

lemma fine_post: "safe (driver_fine F T ed) m R \<Longrightarrow> triple (driver_fine F T ed) m (\<lambda>_. driver_fine F T ed)"
  by (erule triple_post)

lemma control_ok:
  assumes "known_chain K ed F" "t \<in> F" "good_request irp"
  shows "triple (driver_fine F (any_target F) ed) (control K ed irp t True st c)
     (\<lambda>_. driver_fine F (any_target F) ed)"
proof -
  have buffer: "case system_buffer irp of None \<Rightarrow> True | Some bs \<Rightarrow> length bs = unat (in_length irp)"
    and "control_code irp \<noteq> ctl_code 0x804" using assms(3) by (simp_all add: good_request_def)
  then show ?thesis
    unfolding control_def Let_def
    using send_points_ok [OF order_refl buffer, of F ed K c]
      fine_post [OF safe_fine [OF identify_safe [OF assms(1)]], of c]
      fine_post [OF safe_fine [OF flag_codes_safe(1) [OF order_refl]], of F ed K c]
      fine_post [OF safe_fine [OF flag_codes_safe(2) [OF order_refl]], of F ed K c]
      fine_post [OF safe_fine [OF flag_codes_safe(3) [OF order_refl]], of F ed K c]
      fine_post [OF safe_fine [OF get_state_safe [OF order_refl assms(2)]], of ed K True st c]
      fine_post [OF safe_fine [OF device_codes_safe(1) [OF assms(1,2)]], of "any_target F" c]
      fine_post [OF safe_fine [OF device_codes_safe(2) [OF assms(1,2)]], of "any_target F" c]
      fine_post [OF safe_fine [OF large_codes_safe(1) [OF order_refl]], of F ed K c]
      fine_post [OF safe_fine [OF large_codes_safe(2) [OF order_refl]], of F ed K c]
    by (simp only: if_False split: if_split) (simp add: triple_return)
qed

text \<open>\<open>TmpStr\<close> is always allocated.\<close>

definition has_tmp :: "kernel \<Rightarrow> bool" where
  "has_tmp K \<longleftrightarrow> (\<forall>h. k_alloc K h ''tmp'' TMP_BUFFER_SIZE \<noteq> None)"

lemma fine_widen: "driver_fine F T ed s \<Longrightarrow> driver_fine F (any_target F) ed s"
  unfolding driver_fine_def using driver_ok_widen by blast

text \<open>From the choice of the control code to the completion.\<close>

lemma control_rest_ok:
  assumes "known_chain K ed F" "good_request irp" "t \<in> F"
  shows "triple (driver_fine F (any_target F) ed) (do {
      (st, info) \<leftarrow> control K ed irp t True st c;
      free_if ''data'' data;
      free_if ''tmp'' tmp;
      release_lock ed (irp_id irp);
      CompleteRequest (irp_id irp) st info }) (\<lambda>_. driver_fine F (any_target F) ed)"
  unfolding free_if_def free_pool_def release_lock_def
  by (rule triple_bind [OF control_ok [OF assms(1,3,2)]]
      triple_bind_keep triple_post [OF Complete_safe] triple_rules | simp)+

lemma driver_ok_fine: "accepted v \<Longrightarrow> driver_ok F (Some ` F) ed v s \<Longrightarrow> driver_fine F (any_target F) ed s"
  using driver_ok_widen unfolding driver_fine_def by blast

lemma DevCTL_on_edo:
  assumes "known_chain K ed F" "good_request irp" "has_tmp K" "accepted v"
  shows "triple (driver_ok F (Some ` F) ed v) (DispatchDevCTL K ed irp)
     (\<lambda>_. driver_fine F (any_target F) ed)"
proof -
  let ?P = "driver_ok F (Some ` F) ed v" and ?Q = "driver_fine F (any_target F) ed"
  have tmp: "\<exists>x. p = Some x" if "p \<in> range (\<lambda>h. k_alloc K h ''tmp'' TMP_BUFFER_SIZE)" for p
    using that assms(3) by (auto simp: has_tmp_def)
  note widen = driver_ok_fine [OF assms(4)] and rest = control_rest_ok [OF assms(1,2)]
  show ?thesis
    unfolding DispatchDevCTL_def Let_def acquire_lock_def alloc_def
    by (rule triple_bind_safe [OF load_edo], rule triple_control(1), simp,
        rule triple_bind_primitive(4), rule triple_control(1),
        rule triple_post [OF Complete_safe], erule widen,
        rule triple_bind_primitive(4), rule triple_bind_primitive(4), rule triple_bind_safe [OF safe_get_extra],
        auto dest!: tmp intro!: triple_bind_safe [OF load_fido] triple_bind_primitive triple_mono [OF rest] widen)
qed

lemma DevCTL_ok:
  assumes "known_chain K ed F" "good_request irp" "has_tmp K" "d \<in> insert ed F"
  shows "triple (driver_fine F (Some ` F) ed) (DispatchDevCTL K d irp)
     (\<lambda>_. driver_fine F (any_target F) ed)"
proof (rule triple_fine)
  fix v assume v: "accepted v"
  show "triple (driver_ok F (Some ` F) ed v) (DispatchDevCTL K d irp) (\<lambda>_. driver_fine F (any_target F) ed)"
  proof (cases "d \<in> F")
    case True
    show ?thesis
      unfolding DispatchDevCTL_def
      by (rule triple_bind_safe [OF load_fido [OF True]])
        (use driver_ok_fine [OF v] in \<open>auto intro!: triple_post [OF Any_safe [OF assms(4)]]\<close>)
  next
    case False
    then have "d = ed" using assms(4) by simp
    then show ?thesis using DevCTL_on_edo [OF assms(1-3) v] by simp
  qed
qed

end
