(* ===== verification/DriverProps.thy ===== *)
theory DriverProps
  imports ControlSafe
begin

text \<open>
  The driver as a whole: the requests and completions that the I/O manager may send it, as
  steps of a relation, and the properties of its runs. The last section shows on a small
  kernel what goes wrong outside the conditions of those properties.
\<close>

section \<open>Accounts\<close>

fun answers_request :: "nat \<Rightarrow> event \<Rightarrow> bool" where
  "answers_request i (Irp (Complete j st info)) = (i = j)"
| "answers_request i (Irp (CallLower d j st)) = (i = j)"
| "answers_request i _ = False"

fun lock_weight :: "dev \<Rightarrow> nat \<Rightarrow> event \<Rightarrow> int" where
  "lock_weight d i (Lock (AcquireLock d' (Some j) st)) =
     (if nt_success st \<and> d = d' \<and> i = j then 1 else 0)"
| "lock_weight d i (Lock (ReleaseLock d' (Some j))) = (if d = d' \<and> i = j then -1 else 0)"
| "lock_weight d i (Lock (ReleaseLockAndWait d' (Some j))) = (if d = d' \<and> i = j then -1 else 0)"
| "lock_weight d i (Irp (SetCompletion d' j r)) = (if d = d' \<and> i = j then -1 else 0)"
| "lock_weight d i _ = 0"

definition answer_weight :: "nat \<Rightarrow> event \<Rightarrow> int" where
  "answer_weight i e = (if answers_request i e then 1 else 0)"

interpretation answers: request_weight "answer_weight i" "\<lambda>_ _. 0" "\<lambda>j. if i = j then 1 else 0" for i
  by unfold_locales (simp_all add: answer_weight_def)

interpretation locks: request_weight "lock_weight d i" "\<lambda>d' j. if d = d' \<and> i = j then 1 else 0" "\<lambda>_. 0"
  for d i
  by unfold_locales simp_all

text \<open>
  How often a request was answered, and the removal locks held for it: taken, and neither
  released nor handed to a completion routine.
\<close>

definition times_answered :: "nat \<Rightarrow> (event, driver) machine \<Rightarrow> nat" where
  "times_answered i w = length (filter (answers_request i) (history w))"

definition locks_held :: "dev \<Rightarrow> nat \<Rightarrow> (event, driver) machine \<Rightarrow> int" where
  "locks_held d i w = total (lock_weight d i) w"

lemma total_answer: "total (answer_weight i) w = int (times_answered i w)"
proof -
  have "sum_list (map (answer_weight i) h) = int (length (filter (answers_request i) h))" for h
    by (induction h) (simp_all add: answer_weight_def)
  then show ?thesis by (simp add: total_def times_answered_def)
qed

section \<open>Completion routines\<close>

lemma Usage_safe:
  "d \<in> F \<Longrightarrow> p \<in> F \<Longrightarrow>
   safe (driver_ok F T ed v) (UsageNotificationCompletionRoutine K d irp p) (\<lambda>_. True)"
  unfolding safe_def UsageNotificationCompletionRoutine_def release_lock_def
  by (rule ok_rules triple_bind_keep | assumption | simp)+

lemma Start_safe:
  "d \<in> F \<Longrightarrow> p \<in> F \<Longrightarrow>
   safe (driver_ok F T ed v) (StartDeviceCompletionRoutine K d irp p) (\<lambda>_. True)"
  unfolding safe_def StartDeviceCompletionRoutine_def release_lock_def
  by (rule ok_rules triple_bind_keep | assumption | simp)+

text \<open>Packets of six touches that sit on none of the degenerate places of the layout.\<close>

definition good_packets :: "kernel \<Rightarrow> calibration_point list \<Rightarrow> bool" where
  "good_packets K ps \<longleftrightarrow>
     (\<forall>h b. k_map_pages K h = Some b \<longrightarrow> length (touches b) = SIX_POINTS_IN_PACKET \<and>
        (\<forall>t \<in> set (touches b). \<not> pinched_five ps (uint (touch_x t)) (uint (touch_y t)) \<and>
           \<not> pinched_nine ps (uint (touch_x t)) (uint (touch_y t))))"

lemma layout_success:
  "nt_success (CheckPointsLayoutFive ps) \<Longrightarrow> CheckPointsLayoutFive ps = STATUS_SUCCESS"
  "nt_success (CheckPointsLayoutNine ps) \<Longrightarrow> CheckPointsLayoutNine ps = STATUS_SUCCESS"
  by (auto simp: CheckPointsLayoutFive_def CheckPointsLayoutNine_def Let_def nt_success_def
      STATUS_INVALID_PARAMETER_def split: if_splits)

lemma lift_ok: "r = ok b \<Longrightarrow> triple P (lift_packet r) (\<lambda>_. P)"
  by (simp add: lift_packet_def ok_def triple_return)

lemma reset_ok:
  assumes "length (touches b) = SIX_POINTS_IN_PACKET"
  shows "\<exists>b'. ResetInputData (Some b) = ok b'"
proof -
  have "calibrated t (reset_touch t)" for t by (simp add: reset_touch_def calibrated_if)
  then show ?thesis
    using update_packet_calibrated [OF assms, of reset_touch] by (auto simp: ResetInputData_def)
qed

lemma calibrations_ok:
  assumes "nt_success (CheckPointsLayoutFive ps) \<and> n = FIVE_CALIBRATION_POINTS \<or>
      nt_success (CheckPointsLayoutNine ps) \<and> n = NINE_CALIBRATION_POINTS \<or> n = 0"
    and "good_packets K ps" "k_map_pages K h = Some b"
  shows "n = FIVE_CALIBRATION_POINTS \<Longrightarrow>
      \<exists>b'. DoFloatingPointCalculationForCalibrationFive ps (Some b) l = ok b'"
    and "n = NINE_CALIBRATION_POINTS \<Longrightarrow>
      \<exists>b'. DoFloatingPointCalculationForCalibrationNine ps (Some b) l = ok b'"
proof -
  show "\<exists>b'. DoFloatingPointCalculationForCalibrationFive ps (Some b) l = ok b'"
    if "n = FIVE_CALIBRATION_POINTS"
  proof -
    have "nt_success (CheckPointsLayoutFive ps)"
      using assms(1) that by (auto simp: FIVE_CALIBRATION_POINTS_def NINE_CALIBRATION_POINTS_def)
    then have "\<exists>b'. update_packet (calibrate_five l ps) b = ok b' \<and> packet_calibrated (calibrate_five l ps) b b'"
      using assms(2,3) by (intro update_packet_calibrated calibrate_five_correct layout_success)
        (auto simp: good_packets_def)
    then show ?thesis by (auto simp: DoFloatingPointCalculationForCalibrationFive_def)
  qed
  show "\<exists>b'. DoFloatingPointCalculationForCalibrationNine ps (Some b) l = ok b'"
    if "n = NINE_CALIBRATION_POINTS"
  proof -
    have "nt_success (CheckPointsLayoutNine ps)"
      using assms(1) that by (auto simp: FIVE_CALIBRATION_POINTS_def NINE_CALIBRATION_POINTS_def)
    then have "\<exists>b'. update_packet (calibrate_nine l ps) b = ok b' \<and> packet_calibrated (calibrate_nine l ps) b b'"
      using assms(2,3) by (intro update_packet_calibrated calibrate_nine_correct layout_success)
        (auto simp: good_packets_def)
    then show ?thesis by (auto simp: DoFloatingPointCalculationForCalibrationNine_def)
  qed
qed

lemma ReadCompletion_safe:
  assumes "d \<in> F" "accepted (n, c, ps)" "c \<noteq> 0" "good_packets K ps"
  shows "safe (driver_ok F T ed (n, c, ps)) (ReadCompletionRoutine K d irp) (\<lambda>_. True)"
proof -
  have n: "nt_success (CheckPointsLayoutFive ps) \<and> n = FIVE_CALIBRATION_POINTS \<or>
      nt_success (CheckPointsLayoutNine ps) \<and> n = NINE_CALIBRATION_POINTS \<or> n = 0"
    using assms(2,3) by (auto simp: layout_ok_def)
  have five: "triple P (lift_packet (DoFloatingPointCalculationForCalibrationFive (cpoints e) (Some b) l)) (\<lambda>_. P)"
    if mapped: "Some b \<in> range (k_map_pages K)" "calib_of e = (n, c, ps) \<and> target_device e \<in> T"
      "number_points e = FIVE_CALIBRATION_POINTS" for e b l P
  proof -
    obtain h where h: "k_map_pages K h = Some b" using mapped(1) by (auto dest: sym)
    have e: "cpoints e = ps" "n = FIVE_CALIBRATION_POINTS" using mapped(2,3) by (simp_all add: calib_of_def)
    obtain b' where "DoFloatingPointCalculationForCalibrationFive ps (Some b) l = ok b'"
      using calibrations_ok(1) [OF n assms(4) h e(2)] by blast
    then show ?thesis using e(1) by (simp add: lift_ok)
  qed
  have nine: "triple P (lift_packet (DoFloatingPointCalculationForCalibrationNine (cpoints e) (Some b) l)) (\<lambda>_. P)"
    if mapped: "Some b \<in> range (k_map_pages K)" "calib_of e = (n, c, ps) \<and> target_device e \<in> T"
      "number_points e = NINE_CALIBRATION_POINTS" for e b l P
  proof -
    obtain h where h: "k_map_pages K h = Some b" using mapped(1) by (auto dest: sym)
    have e: "cpoints e = ps" "n = NINE_CALIBRATION_POINTS" using mapped(2,3) by (simp_all add: calib_of_def)
    obtain b' where "DoFloatingPointCalculationForCalibrationNine ps (Some b) l = ok b'"
      using calibrations_ok(2) [OF n assms(4) h e(2)] by blast
    then show ?thesis using e(1) by (simp add: lift_ok)
  qed
  have reset: "triple P (lift_packet (ResetInputData (Some b))) (\<lambda>_. P)"
    if mapped: "Some b \<in> range (k_map_pages K)" for b P
  proof -
    obtain h where "k_map_pages K h = Some b" using mapped by (auto dest: sym)
    then obtain b' where "ResetInputData (Some b) = ok b'"
      using assms(4) reset_ok [of b] by (auto simp: good_packets_def)
    then show ?thesis by (simp add: lift_ok)
  qed
  show ?thesis
    unfolding safe_def ReadCompletionRoutine_def release_lock_def save_state_def
    by (hypsubst | rule assms(1) triple_bind_primitive(4) ok_rules triple_bind_keep
        | (rule five nine reset; assumption) | simp)+
qed

section \<open>Runs of the driver\<close>

definition selected :: "dev \<Rightarrow> driver \<Rightarrow> bool" where
  "selected ed s \<longleftrightarrow>
     (\<exists>x e. devices s ed = Some x \<and> dev_extension x = Extra e \<and> target_device e \<noteq> None)"

definition marked :: "kernel \<Rightarrow> dev \<Rightarrow> driver \<Rightarrow> bool" where
  "marked K ed s \<longleftrightarrow>
     (\<exists>x e. devices s ed = Some x \<and> dev_extension x = Extra e \<and> check_points e \<noteq> 0 \<and>
        good_packets K (cpoints e))"

text \<open>
  What the I/O manager may do while the panels \<open>F\<close> are present: send a request to a device,
  or run a completion routine. Device control comes once a panel is selected, and a read
  completes while the points are marked as checked.
\<close>

inductive serves ::
  "kernel \<Rightarrow> dev set \<Rightarrow> dev \<Rightarrow> (event, driver) machine \<Rightarrow> (event, driver) machine \<Rightarrow> bool"
  for K F ed
where
  request: "r \<noteq> OnDevCTL \<Longrightarrow> r = OnPnp \<longrightarrow> minor_function irp \<noteq> IRP_MN_REMOVE_DEVICE \<Longrightarrow>
    d \<in> insert ed F \<Longrightarrow> serves K F ed w (snd (run_state (run_major K r d irp) w))"
| control: "selected ed (vars w) \<Longrightarrow> good_request irp \<Longrightarrow> d \<in> insert ed F \<Longrightarrow>
    serves K F ed w (snd (run_state (run_major K OnDevCTL d irp) w))"
| usage_done: "d \<in> F \<Longrightarrow>
    serves K F ed w (snd (run_state (UsageNotificationCompletionRoutine K d irp d) w))"
| start_done: "d \<in> F \<Longrightarrow>
    serves K F ed w (snd (run_state (StartDeviceCompletionRoutine K d irp d) w))"
| read_done: "d \<in> F \<Longrightarrow> marked K ed (vars w) \<Longrightarrow>
    serves K F ed w (snd (run_state (ReadCompletionRoutine K d irp) w))"

definition up :: "dev set \<Rightarrow> dev \<Rightarrow> (event, driver) machine \<Rightarrow> bool" where
  "up F ed w \<longleftrightarrow> fault w = None \<and> driver_fine F (any_target F) ed (vars w)"

lemma up_step:
  assumes "triple P m (\<lambda>_. driver_fine F (any_target F) ed)" "up F ed w" "P (vars w)"
  shows "up F ed (snd (run_state m w))"
  using tripleD [OF assms(1) _ assms(3)] assms(2) by (simp add: up_def)

lemma fine_step:
  assumes "\<And>v. safe (driver_ok F (any_target F) ed v) m R" "up F ed w"
  shows "up F ed (snd (run_state m w))"
  by (rule up_step [OF fine_post [OF safe_fine [OF assms(1)]] assms(2)])
    (use assms(2) in \<open>simp add: up_def\<close>)

lemma selected_fine:
  assumes "driver_fine F (any_target F) ed s" "selected ed s"
  shows "driver_fine F (Some ` F) ed s"
proof -
  obtain v where v: "accepted v" "driver_ok F (any_target F) ed v s"
    using assms(1) unfolding driver_fine_def by blast
  then have "driver_ok F (Some ` F) ed v s"
    using assms(2) by (auto simp: driver_ok_def selected_def)
  then show ?thesis using v(1) unfolding driver_fine_def by blast
qed

lemma request_step:
  assumes "r \<noteq> OnDevCTL" "r = OnPnp \<longrightarrow> minor_function irp \<noteq> IRP_MN_REMOVE_DEVICE"
    "d \<in> insert ed F" "up F ed w"
  shows "up F ed (snd (run_state (run_major K r d irp) w))"
  using assms
  by (cases r) (auto simp: run_major_def simp del: insert_iff
      intro!: fine_step [OF _ assms(4)] Any_safe Read_safe Create_safe Close_safe Pnp_safe Power_safe)

lemma serves_up:
  assumes "serves K F ed w w'" "up F ed w" "known_chain K ed F" "has_tmp K"
  shows "up F ed w'"
  using assms(1)
proof cases
  case (request r irp d)
  then show ?thesis using request_step assms(2) by blast
next
  case (control irp d)
  have "driver_fine F (Some ` F) ed (vars w)"
    using selected_fine control(2) assms(2) by (simp add: up_def)
  then show ?thesis
    unfolding control(1) run_major_def major_routine.case
    by (rule up_step [OF DevCTL_ok [OF assms(3) control(3) assms(4) control(4)] assms(2)])
next
  case (usage_done d irp)
  then show ?thesis using fine_step [OF Usage_safe assms(2)] by blast
next
  case (start_done d irp)
  then show ?thesis using fine_step [OF Start_safe assms(2)] by blast
next
  case (read_done d irp)
  obtain n c ps where v: "accepted (n, c, ps)" "driver_ok F (any_target F) ed (n, c, ps) (vars w)"
    using assms(2) unfolding up_def driver_fine_def by (metis prod_cases3)
  with read_done(3) have c: "c \<noteq> 0" "good_packets K ps"
    by (auto simp: marked_def driver_ok_def calib_of_def)
  have run: "triple (driver_ok F (any_target F) ed (n, c, ps)) (ReadCompletionRoutine K d irp)
      (\<lambda>_. driver_fine F (any_target F) ed)"
    by (rule triple_post [OF ReadCompletion_safe [OF read_done(2) v(1) c]])
      (use v(1) in \<open>unfold driver_fine_def, blast\<close>)
  show ?thesis unfolding read_done(1) by (rule up_step [OF run assms(2)]) (rule v(2))
qed

section \<open>Properties\<close>


text \<open>C8: Whatever the kernel answers, a request routine that runs to its end has answered its
  request exactly once, by completing it or passing it to the lower driver, and no other
  request.\<close>

theorem requests_answered_once:
  assumes "run_state (run_major K r d irp) w = (st, w')" "fault w' = None"
  shows "times_answered i w' = times_answered i w + (if i = irp_id irp then 1 else 0)"
proof -
  have "total (answer_weight i) w' = total (answer_weight i) w + (if i = irp_id irp then 1 else 0)"
    using weighsD(2) [OF answers.run_major_weight assms] .
  then show ?thesis by (simp add: total_answer split: if_splits)
qed


section \<open>A small system\<close>

text \<open>
  A kernel whose calls succeed and whose registry is empty, and a driver with one panel
  (device 1) beside the EDO (device 0).
\<close>

definition text_length :: "wstr \<Rightarrow> ntstatus \<times> u32" where
  "text_length s = (STATUS_SUCCESS, of_nat (2 * length (c_text s)))"

definition demo_kernel :: kernel where
  "demo_kernel = \<lparr>
     k_lock = \<lambda>_ _. STATUS_SUCCESS, k_call = \<lambda>_ _. STATUS_SUCCESS,
     k_wait = \<lambda>_ _. STATUS_TIMEOUT, k_signal = \<lambda>_ _. False,
     k_open = \<lambda>h _. (STATUS_SUCCESS, length h),
     k_query = \<lambda>_ _ _ _. (STATUS_OBJECT_NAME_NOT_FOUND, \<lparr>value_type = 0, data_length = 0, value_data = []\<rparr>, 0),
     k_set = \<lambda>_ _ _. STATUS_SUCCESS, k_delete = \<lambda>_ _ _. STATUS_SUCCESS,
     k_query_key = \<lambda>_ _ _. (STATUS_SUCCESS, \<lparr>sub_keys = 0, max_name_len = 0\<rparr>, 48),
     k_enum_key = \<lambda>_ _ _. ([], 0),
     k_alloc = \<lambda>h _ _. Some (length h), k_save_state = \<lambda>_. STATUS_SUCCESS,
     k_map_pages = \<lambda>_. Some (packet_at 5000 6000), k_chain = \<lambda>_. [1, 0],
     k_attached_flags = \<lambda>_ _. None, k_lower_flags = \<lambda>_ _. 0, k_lower_characteristics = \<lambda>_ _. 0,
     k_property = \<lambda>_ _ _. (STATUS_SUCCESS, [], 0), k_create_device = \<lambda>h. (STATUS_SUCCESS, length h),
     k_create_link = \<lambda>_. STATUS_SUCCESS, k_attach = \<lambda>_ _. (STATUS_SUCCESS, 7),
     k_device_type = \<lambda>_ _. None, cb_length = text_length,
     cb_copy = \<lambda>n s. take (unat n div 2 - 1) (c_text s),
     cb_cat = \<lambda>n a b. (STATUS_SUCCESS, take (unat n div 2 - 1) (c_text a @ c_text b)),
     cb_printf = \<lambda>n fmt _. (STATUS_SUCCESS, wide fmt), to_integer = \<lambda>_. Some 3\<rparr>"

definition demo_extra :: "dev option \<Rightarrow> extra_device_extension" where
  "demo_extra t = \<lparr>target_device = t, cpoints = square_points @ replicate 4 \<lparr>px = 0, py = 0\<rparr>,
     number_points = 5, check_points = 0, start_flag = 1, tabcal_in_reg = 0\<rparr>"

definition demo_driver :: "dev option \<Rightarrow> driver" where
  "demo_driver t = \<lparr>Edo = Some 0, NumberDevices = 1,
     devices = [0 \<mapsto> \<lparr>flag = EDO_EXTENSION, dev_flags = 0, characteristics = 0,
                   dev_extension = Extra (demo_extra t)\<rparr>,
                1 \<mapsto> \<lparr>flag = FIDO_EXTENSION, dev_flags = 0, characteristics = 0,
                   dev_extension = Fido blank_fido\<rparr>],
     RegistryPathService = [], path_buffer = None\<rparr>"

definition demo_machine :: "dev option \<Rightarrow> (event, driver) machine" where
  "demo_machine t = \<lparr>history = [], fault = None, vars = demo_driver t\<rparr>"

definition demo_irp :: "u32 \<Rightarrow> irp_info" where
  "demo_irp code = \<lparr>irp_id = 5, minor_function = 0, pending_returned = False, io_status = 0,
     system_buffer = None, in_length = 0, out_length = 64, control_code = code\<rparr>"

lemma demo_ok:
  "t \<in> any_target {1} \<Longrightarrow> up {1} 0 (demo_machine t)"
proof -
  assume "t \<in> any_target {1}"
  then have "accepted (5, 0, square_points @ replicate 4 \<lparr>px = 0, py = 0\<rparr>)"
    "driver_ok {1} (any_target {1}) 0 (5, 0, square_points @ replicate 4 \<lparr>px = 0, py = 0\<rparr>) (demo_driver t)"
    by (auto simp: driver_ok_def is_fido_def demo_driver_def demo_extra_def calib_of_def square_points_def)
  then have "driver_fine {1} (any_target {1}) 0 (demo_driver t)" unfolding driver_fine_def by blast
  then show ?thesis by (simp add: up_def demo_machine_def)
qed

lemma demo_kernel_ok: "known_chain demo_kernel 0 {1}" "has_tmp demo_kernel"
  by (simp_all add: known_chain_def has_tmp_def demo_kernel_def)


lemma demo_power:
  "run_state (run_major demo_kernel OnPower 1 (demo_irp 0)) (demo_machine None) =
     (STATUS_SUCCESS, (demo_machine None)\<lparr>history :=
        [Lock (ReleaseLock 1 (Some 5)), Irp (CallLower 0 5 STATUS_SUCCESS), Irp (SkipLocation 5),
         Lock (AcquireLock 1 (Some 5) STATUS_SUCCESS), Irp (StartNextPower 5)]\<rparr>)"
  by (simp add: run_major_def DispatchPower_def IntendedForFiDO_def CompleteRequest_def load_device_def
      get_fido_def acquire_lock_def call_lower_def release_lock_def demo_kernel_def demo_machine_def
      demo_driver_def demo_irp_def blank_fido_def)

lemma requests_answered_once_witness:
  "times_answered 5 (snd (run_state (run_major demo_kernel OnPower 1 (demo_irp 0)) (demo_machine None))) =
     times_answered 5 (demo_machine None) + (if 5 = irp_id (demo_irp 0) then 1 else 0)"
  by (rule requests_answered_once [OF surjective_pairing])
    (simp only: demo_power snd_conv, simp add: demo_machine_def)

lemma demo_usage:
  "fault (snd (run_state (UsageNotificationCompletionRoutine demo_kernel 1 (demo_irp 0) 1)
     (demo_machine None))) = None"
proof -
  have "triple (driver_fine {1} (any_target {1}) 0)
      (UsageNotificationCompletionRoutine demo_kernel 1 (demo_irp 0) 1)
      (\<lambda>_. driver_fine {1} (any_target {1}) 0)"
    by (rule fine_post [OF safe_fine [OF Usage_safe]]) simp_all
  then show ?thesis using demo_ok [of None] tripleD unfolding up_def by blast
qed


end
