(* ===== verification/DriverFaults.thy ===== *)
theory DriverFaults
  imports DriverProps
begin

text \<open>
  What the driver's routines report, and what happens outside the conditions of
  \<open>driver_never_faults\<close>: device control before a panel is selected, and a panel that fails to be
  added while another one is in use.
\<close>

section \<open>What device control reports\<close>

text \<open>\<open>yields R m\<close>: whatever the start, the value and the final machine of \<open>m\<close> satisfy \<open>R\<close>.\<close>

definition yields :: "('a \<Rightarrow> (event, driver) machine \<Rightarrow> bool) \<Rightarrow> 'a drv \<Rightarrow> bool" where
  "yields R m \<longleftrightarrow> (\<forall>w. R (fst (run_state m w)) (snd (run_state m w)))"

lemma yields_bind:
  assumes "yields A m" "\<And>a w. A a w \<Longrightarrow> yields R (k a)"
  shows "yields R (State_Monad.bind m k)"
  unfolding yields_def
proof
  fix w
  obtain a w1 where m: "run_state m w = (a, w1)" by (cases "run_state m w")
  have "A a w1" using assms(1) m unfolding yields_def by (metis fst_conv snd_conv)
  then show "R (fst (run_state (State_Monad.bind m k) w)) (snd (run_state (State_Monad.bind m k) w))"
    using assms(2) m by (simp add: yields_def)
qed

lemma yields_rules:
  "(\<And>a. yields R1 (k1 a)) \<Longrightarrow> yields R1 (State_Monad.bind m1 k1)"
  "(\<And>w. R2 a w) \<Longrightarrow> yields R2 (ret a)"
  "(b3 \<Longrightarrow> yields R3 m3) \<Longrightarrow> (\<not> b3 \<Longrightarrow> yields R3 n3) \<Longrightarrow> yields R3 (if b3 then m3 else n3)"
  "(\<And>x y. p4 = (x, y) \<Longrightarrow> yields R4 (k4 x y)) \<Longrightarrow> yields R4 (case p4 of (x, y) \<Rightarrow> k4 x y)"
  "yields R5 (k5 v5) \<Longrightarrow> yields R5 (Let v5 k5)"
  by (auto simp: yields_def split: prod.split)

definition fits :: "u32 \<Rightarrow> ntstatus \<times> u32 \<Rightarrow> (event, driver) machine \<Rightarrow> bool" where
  "fits n r w \<longleftrightarrow> snd r \<le> n"

lemma of_nat_fits: "m \<le> unat (n :: u32) \<Longrightarrow> of_nat m \<le> n"
  by (simp add: word_le_nat_alt unat_of_nat order_trans [OF mod_less_eq_dividend])

lemma SendInformation_fits: "yields (fits n) (SendInformation K i data n)"
  unfolding SendInformation_def Let_def fits_def
  by (rule yields_rules | (simp only: snd_conv, rule of_nat_fits, simp; fail) | simp)+

lemma finish_fits: "yields (fits (ctl_out c)) (finish K c st data)"
  unfolding finish_def
  by (rule yields_bind [OF SendInformation_fits] yields_rules | simp add: fits_def split_def)+

lemma control_fits: "yields (fits (ctl_out c)) (control K d irp t b st c)"
  unfolding control_def ioctl_send_points_def ioctl_send_points_hq_def ioctl_identify_def
    ioctl_stop_def ioctl_start_def ioctl_remove_driver_def ioctl_get_state_def
    ioctl_disable_device_def ioctl_activate_device_def ioctl_reset_tabcal_def
    ioctl_disable_large_def ioctl_activate_large_def
  by (rule finish_fits yields_bind [OF SendInformation_fits] yields_rules
      | simp add: fits_def split_def)+

definition reports :: "nat \<Rightarrow> u32 \<Rightarrow> ntstatus \<Rightarrow> (event, driver) machine \<Rightarrow> bool" where
  "reports i n st w \<longleftrightarrow>
     (fault w = None \<longrightarrow> (\<exists>info rest. history w = Irp (Complete i st info) # rest \<and> info \<le> n))"

lemma Complete_reports: "info \<le> n \<Longrightarrow> yields (reports i n) (CompleteRequest i st info)"
  by (auto simp: yields_def reports_def CompleteRequest_def complete_irp_def)

text \<open>What device control does on a device that is not a panel.\<close>

definition control_part :: "kernel \<Rightarrow> dev \<Rightarrow> irp_info \<Rightarrow> ntstatus drv" where
  "control_part K d irp = do {
     st \<leftarrow> acquire_lock K d (Some (irp_id irp));
     if \<not> nt_success st then CompleteRequest (irp_id irp) st 0
     else do {
       let out = min (out_length irp) MAX_TEXT_BYTES;
       data \<leftarrow> alloc K ''data'' out;
       tmp \<leftarrow> alloc K ''tmp'' TMP_BUFFER_SIZE;
       let have = (data \<noteq> None \<and> tmp \<noteq> None);
       let basis_bytes = of_nat (2 * length Basis + 2);
       let txt = (if have \<and> basis_bytes \<le> out then cb_copy K basis_bytes (Basis @ [0]) else []);
       e \<leftarrow> get_extra d;
       t \<leftarrow>
         (case target_device e of
            None \<Rightarrow> do { crash NullDeref; ret 0 }
          | Some t \<Rightarrow> do { load_device t; ret t });
       (st, info) \<leftarrow> control K d irp t (tmp \<noteq> None) st
         \<lparr>ctl_irp = irp_id irp, ctl_have = have, ctl_data = txt, ctl_out = out\<rparr>;
       free_if ''data'' data;
       free_if ''tmp'' tmp;
       release_lock d (irp_id irp);
       CompleteRequest (irp_id irp) st info } }"

lemma DevCTL_control_part:
  "devices (vars w) d = Some x \<Longrightarrow> flag x \<noteq> FIDO_EXTENSION \<Longrightarrow>
   run_state (DispatchDevCTL K d irp) w = run_state (control_part K d irp) w"
  by (simp add: DispatchDevCTL_def control_part_def run_load_device del: run_emit run_call)

lemma control_fits_out:
  "c = \<lparr>ctl_irp = i, ctl_have = h, ctl_data = t, ctl_out = min n m\<rparr> \<Longrightarrow>
   yields (fits n) (control K d irp tg b st c)"
  using control_fits [of c K d irp tg b st] by (auto simp: yields_def fits_def)

lemma control_part_reports: "yields (reports (irp_id irp) (out_length irp)) (control_part K d irp)"
  unfolding control_part_def
  by (rule Complete_reports yields_bind [OF control_fits_out [OF refl]] yields_rules
      | simp add: fits_def)+

section \<open>Properties\<close>

text \<open>C35: A control request on the EDO that runs to its end is completed last, with the status
  that the routine returns and a byte count that fits in the caller's buffer.\<close>

theorem control_reports:
  assumes "devices (vars w) d = Some x" "flag x \<noteq> FIDO_EXTENSION"
    and "run_state (DispatchDevCTL K d irp) w = (st, w')" "fault w' = None"
  shows "\<exists>info rest. history w' = Irp (Complete (irp_id irp) st info) # rest \<and> info \<le> out_length irp"
  using control_part_reports [of irp K d] assms(3,4) DevCTL_control_part [OF assms(1,2)]
  unfolding yields_def reports_def by (metis fst_conv snd_conv)

definition demo_edo :: "dev option \<Rightarrow> device_object" where
  "demo_edo t = \<lparr>flag = EDO_EXTENSION, dev_flags = 0, characteristics = 0,
     dev_extension = Extra (demo_extra t)\<rparr>"

lemma control_reports_witness:
  "\<exists>info rest. history (snd (run_state (DispatchDevCTL demo_kernel 0 (demo_irp (ctl_code 0x803)))
       (demo_machine (Some 1)))) =
     Irp (Complete (irp_id (demo_irp (ctl_code 0x803)))
       (fst (run_state (DispatchDevCTL demo_kernel 0 (demo_irp (ctl_code 0x803))) (demo_machine (Some 1)))) info)
       # rest \<and> info \<le> out_length (demo_irp (ctl_code 0x803))"
proof (rule control_reports [OF _ _ surjective_pairing, where x = "demo_edo (Some 1)"])
  have "serves demo_kernel {1} 0 (demo_machine (Some 1))
      (snd (run_state (run_major demo_kernel OnDevCTL 0 (demo_irp (ctl_code 0x803))) (demo_machine (Some 1))))"
    by (rule serves.control)
      (simp_all add: selected_def demo_machine_def demo_driver_def demo_extra_def good_request_def
        demo_irp_def ctl_code_def)
  from serves_up [OF this demo_ok demo_kernel_ok]
  show "fault (snd (run_state (DispatchDevCTL demo_kernel 0 (demo_irp (ctl_code 0x803)))
      (demo_machine (Some 1)))) = None"
    by (simp add: up_def run_major_def)
qed (simp_all add: demo_machine_def demo_driver_def demo_edo_def)

section \<open>Runs that end in a fault\<close>

text \<open>
  \<open>faults P m f\<close>: from variables that satisfy \<open>P\<close>, \<open>m\<close> meets the fault \<open>f\<close>. What follows a fault
  leaves the machine as it is, which the weight that is 0 everywhere expresses.
\<close>

interpretation nothing: request_weight "\<lambda>_. 0" "\<lambda>_ _. 0" "\<lambda>_. 0"
  by unfold_locales simp_all

definition faults :: "(driver \<Rightarrow> bool) \<Rightarrow> 'a drv \<Rightarrow> fault \<Rightarrow> bool" where
  "faults P m f \<longleftrightarrow>
     (\<forall>w. fault w = None \<longrightarrow> P (vars w) \<longrightarrow> fault (snd (run_state m w)) = Some f)"

lemma stuck: "weighs \<mu> m n \<Longrightarrow> fault w \<noteq> None \<Longrightarrow> snd (run_state m w) = w"
  by (metis prod.collapse weighsD(1))

lemma faults_bind:
  assumes "faults P m f" "\<And>a. weighs (\<lambda>_. 0) (k a) (\<lambda>_. 0)"
  shows "faults P (State_Monad.bind m k) f"
  unfolding faults_def
proof (intro allI impI)
  fix w :: "(event, driver) machine" assume "fault w = None" "P (vars w)"
  with assms(1) have f: "fault (snd (run_state m w)) = Some f" by (simp add: faults_def)
  obtain a w1 where m: "run_state m w = (a, w1)" by (cases "run_state m w")
  then show "fault (snd (run_state (State_Monad.bind m k) w)) = Some f"
    using f stuck [OF assms(2) [of a], of w1] by simp
qed

lemma faults_after:
  assumes "safe P m R" "\<And>a. R a \<Longrightarrow> faults P (k a) f"
  shows "faults P (State_Monad.bind m k) f"
  unfolding faults_def
proof (intro allI impI)
  fix w :: "(event, driver) machine" assume "fault w = None" "P (vars w)"
  moreover obtain a w1 where m: "run_state m w = (a, w1)" by (cases "run_state m w")
  ultimately have "fault w1 = None" "P (vars w1)" "R a"
    using tripleD [OF assms(1) [unfolded safe_def], of w] by simp_all
  then show "fault (snd (run_state (State_Monad.bind m k) w)) = Some f"
    using assms(2) [of a] m by (simp add: faults_def)
qed

lemma faults_crash: "faults P (crash f) f"
  by (simp add: faults_def)

lemma faults_after_call:
  "(\<And>a. a \<in> range q \<Longrightarrow> faults P (k a) f) \<Longrightarrow> faults P (State_Monad.bind (call q ev) k) f"
  by (rule faults_after [where R = "\<lambda>a. a \<in> range q"]) (auto simp: safe_def intro!: triple_primitive)

lemma faults_else: "\<not> b \<Longrightarrow> faults P n f \<Longrightarrow> faults P (if b then m else n) f"
  by simp

lemma control_rest:
  "weighs (\<lambda>_. 0) (do {
      (st, info) \<leftarrow> control K d irp t b st c;
      free_if ''data'' data;
      free_if ''tmp'' tmp;
      release_lock d (irp_id irp);
      CompleteRequest (irp_id irp) st info }) (\<lambda>_. 0)"
  unfolding free_if_def free_pool_def release_lock_def
  by (rule weighs_bind_free [OF nothing.control_weight] nothing.Complete_weight memory_rules | simp)+

lemma faults_edo:
  "faults (\<lambda>s. Edo s = Some ed \<and> devices s ed = None) edo_device DanglingPointer"
  by (simp add: faults_def edo_device_def load_device_def)

text \<open>C38: Before a panel is selected, every control request on the EDO dereferences a null
  pointer, whatever its code: the routine reads through \<open>TargetDevice\<close> before it looks at the
  code, and so does the request that would select a panel.\<close>

theorem control_needs_selection:
  assumes "fault w = None" "driver_ok F {None} ed v (vars w)" "\<And>h. nt_success (k_lock K h ed)"
  shows "fault (snd (run_state (DispatchDevCTL K ed irp) w)) = Some NullDeref"
proof -
  let ?P = "driver_ok F {None} ed v"
  have part: "faults ?P (control_part K ed irp) NullDeref"
    unfolding control_part_def acquire_lock_def alloc_def Let_def
  proof (rule faults_after_call, rule faults_else, use assms(3) in force,
      (rule faults_after_call)+, rule faults_after [OF safe_get_extra], rule faults_bind)
    show "faults ?P (case target_device e of None \<Rightarrow> State_Monad.bind (crash NullDeref) (\<lambda>_. ret 0)
        | Some t \<Rightarrow> State_Monad.bind (load_device t) (\<lambda>_. ret t)) NullDeref"
      if "calib_of e = v \<and> target_device e \<in> {None}" for e
      using that by (auto intro!: faults_bind faults_crash weighs_return)
  qed (rule control_rest)
  obtain x where x: "devices (vars w) ed = Some x" "flag x \<noteq> FIDO_EXTENSION"
    using assms(2) by (auto simp: driver_ok_def)
  show ?thesis
    using part assms(1,2) unfolding DevCTL_control_part [OF x] by (simp add: faults_def)
qed

lemma control_needs_selection_witness:
  "fault (snd (run_state (DispatchDevCTL demo_kernel 0 (demo_irp (ctl_code 0x801))) (demo_machine None))) =
     Some NullDeref"
  by (rule control_needs_selection [where F = "{1}"])
    (auto simp: demo_machine_def demo_driver_def demo_extra_def demo_kernel_def driver_ok_def is_fido_def)

section \<open>Adding a panel\<close>

text \<open>C37: When the device object of a further panel cannot be created, the driver deletes the EDO
  that the present panels use and keeps its address: the next plug and play request, on any
  device, goes through a dangling pointer.\<close>

theorem failed_panel_dangles:
  assumes "fault w = None" "driver_ok F T ed v (vars w)"
    and "\<And>h. \<not> nt_success (fst (k_create_device K h))"
    and "run_state (add_panel K Pdo) w = (st, w')"
  shows "\<not> nt_success st \<and> fault w' = None \<and> Edo (vars w') = Some ed \<and>
    devices (vars w') ed = None \<and>
    fault (snd (run_state (DispatchPnp K' d irp) w')) = Some DanglingPointer"
proof -
  obtain x where x: "devices (vars w) ed = Some x" "Edo (vars w) = Some ed"
    using assms(2) by (auto simp: driver_ok_def)
  obtain ty h where type: "run_state (GetDeviceTypeToUse K Pdo) w = (ty, w\<lparr>history := h\<rparr>)"
    using assms(1) by (cases "k_device_type K (history w) Pdo") (auto simp: GetDeviceTypeToUse_def)
  obtain st' e where create:
    "run_state (create_device K (Fido blank_fido)) (w\<lparr>history := h\<rparr>) = ((st', None), w\<lparr>history := e # h\<rparr>)"
    "\<not> nt_success st'"
    using assms(1) assms(3) [of h] by (cases "k_create_device K h") (auto simp: create_device_def)
  have "\<not> nt_success st \<and> fault w' = None \<and> Edo (vars w') = Some ed \<and> devices (vars w') ed = None"
    using assms(1,4) x create(2)
    by (auto simp: add_panel_def edo_device_def load_device_def type create(1) drop_edo_def
        delete_device_def)
  moreover have intended: "weighs (\<lambda>_. 0) (IntendedForFiDO d i) (\<lambda>_. 0)" for i
    by (rule weighs_cong [OF nothing.Intended_weight]) simp
  moreover have "faults (\<lambda>s. Edo s = Some ed \<and> devices s ed = None) (DispatchPnp K' d irp) DanglingPointer"
    unfolding DispatchPnp_def nothing.request_calls
    by (rule faults_bind [OF faults_edo] intended nothing.RemoveDevice_weight memory_rules
        | simp)+
  ultimately show ?thesis by (simp add: faults_def)
qed

definition poor_kernel :: kernel where
  "poor_kernel = demo_kernel\<lparr>k_create_device := \<lambda>_. (STATUS_INSUFFICIENT_RESOURCES, 0)\<rparr>"

lemma failed_panel_dangles_witness:
  "\<not> nt_success (fst (run_state (add_panel poor_kernel 9) (demo_machine None))) \<and>
   fault (snd (run_state (add_panel poor_kernel 9) (demo_machine None))) = None \<and>
   Edo (vars (snd (run_state (add_panel poor_kernel 9) (demo_machine None)))) = Some 0 \<and>
   devices (vars (snd (run_state (add_panel poor_kernel 9) (demo_machine None)))) 0 = None \<and>
   fault (snd (run_state (DispatchPnp demo_kernel 1 (demo_irp 0))
     (snd (run_state (add_panel poor_kernel 9) (demo_machine None))))) = Some DanglingPointer"
  by (rule failed_panel_dangles [where F = "{1}" and T = "{None}", OF _ _ _ surjective_pairing])
    (auto simp: demo_machine_def demo_driver_def demo_extra_def driver_ok_def is_fido_def poor_kernel_def)

section \<open>Tabcal values\<close>

definition blocks_held :: "(event, driver) machine \<Rightarrow> int" where
  "blocks_held w = total pool_weight w"

text \<open>The walk over the devices of a panel type keeps one block of pool memory whenever it
  succeeds, and none when it fails.\<close>

theorem enumerate_leaks:
  assumes "run_state (EnumerateIdDevices K name b) w = (st, w')" "fault w' = None"
  shows "blocks_held w' = blocks_held w + (if nt_success st then 1 else 0)"
  using weighsD(2) [OF pool.EnumerateId_weight assms] by (simp add: blocks_held_def)

lemma enumerate_leaks_witness:
  "blocks_held (snd (run_state (EnumerateIdDevices demo_kernel [] True) (demo_machine None))) =
     blocks_held (demo_machine None) +
     (if nt_success (fst (run_state (EnumerateIdDevices demo_kernel [] True) (demo_machine None))) then 1 else 0)"
proof (rule enumerate_leaks [OF surjective_pairing])
  have "triple (driver_fine {1} (any_target {1}) 0) (EnumerateIdDevices demo_kernel [] True)
      (\<lambda>_. driver_fine {1} (any_target {1}) 0)"
    by (rule fine_post [OF safe_fine [OF EnumerateId_safe]]) simp
  then show "fault (snd (run_state (EnumerateIdDevices demo_kernel [] True) (demo_machine None))) = None"
    using demo_ok [of None] tripleD unfolding up_def by blast
qed

section \<open>Handles\<close>

text \<open>When a key cannot be opened, the registry functions close the handle all the same,
  which no call has written.\<close>

theorem failed_open_is_closed:
  assumes "fault w = None" "\<And>h path. \<not> nt_success (fst (k_open K h path))"
    and "w' \<in> {snd (run_state (GetDwordValueFromRegistry K name) w),
      snd (run_state (SetDwordValueInRegistry K v name) w),
      snd (run_state (DeleteKeyValueInRegistry K path name) w),
      snd (run_state (EnumerateAndDeleteTabCalValues K b) w)}"
  shows "\<exists>key st. history w' = Registry (CloseKey None) # Registry (OpenKey key st None) # history w"
proof -
  have open_fails: "\<exists>st. run_state (open_key K key) w =
      ((st, None), w\<lparr>history := Registry (OpenKey key st None) # history w\<rparr>) \<and> \<not> nt_success st" for key
    using assms(1) assms(2) [of "history w" key] by (cases "k_open K (history w) key") (auto simp: open_key_def)
  show ?thesis
    using assms(1,3) open_fails [of "RegistryPathService (vars w)"] open_fails [of path]
      open_fails [of EnumHIDPath]
    by (auto simp: GetDwordValueFromRegistry_def SetDwordValueInRegistry_def DeleteKeyValueInRegistry_def
        EnumerateAndDeleteTabCalValues_def close_key_def)
qed

lemma failed_open_is_closed_witness:
  "\<exists>key st. history (snd (run_state (SetDwordValueInRegistry
       (demo_kernel\<lparr>k_open := \<lambda>_ _. (STATUS_INSUFFICIENT_RESOURCES, 0)\<rparr>) 1 []) (demo_machine None))) =
     Registry (CloseKey None) # Registry (OpenKey key st None) # history (demo_machine None)"
  by (rule failed_open_is_closed) (auto simp: demo_machine_def)

end
