(* ===== verification/DriverBytes.thy ===== *)
theory DriverBytes
  imports DriverFaults
begin

text \<open>
  Bytes of the registry: what the driver writes it reads back, and the list of filters that
  \<open>GetAndDeleteRMSZValueFromRegistry\<close> leaves.
\<close>

section \<open>Words\<close>

unbundle bit_operations_syntax

lemma le16_words: "words16 (le16 v @ bs) = v # words16 bs"
proof -
  have "(ucast (ucast v :: u8) OR push_bit 8 (ucast (ucast (drop_bit 8 v) :: u8)) :: u16) = v"
    by (rule bit_word_eqI) (auto simp: bit_simps)
  then show ?thesis by (simp add: le16_def)
qed

lemma words16_le16: "words16 (concat (map le16 ws)) = ws"
  by (induction ws) (simp_all add: le16_words)

lemma load_le32: "load_u32 (le32 v) = ret v"
proof -
  have "(ucast (ucast v :: u8) OR push_bit 8 (ucast (ucast (drop_bit 8 v) :: u8)) OR
      push_bit 16 (ucast (ucast (drop_bit 16 v) :: u8)) OR
      push_bit 24 (ucast (ucast (drop_bit 24 v) :: u8)) :: u32) = v"
    (is "?w = v")
  proof (rule bit_word_eqI)
    fix n assume "n < LENGTH(32)"
    then consider "n < 8" | "8 \<le> n" "n < 16" | "16 \<le> n" "n < 24" | "24 \<le> n" "n < 32" by fastforce
    then show "bit ?w n \<longleftrightarrow> bit v n" by cases (auto simp: bit_simps)
  qed
  then show ?thesis by (simp add: load_u32_def le32_def)
qed

lemma length_point_bytes [simp]: "length (point_bytes p) = 4"
  by (simp add: point_bytes_def le16_def)

lemma points_at:
  "i < length ps \<Longrightarrow> take 4 (drop (4 * i) (concat (map point_bytes ps))) = point_bytes (ps ! i)"
proof (induction ps arbitrary: i)
  case (Cons p ps)
  then show ?case by (cases i) simp_all
qed simp

lemma length_points: "length (concat (map point_bytes ps)) = 4 * length ps"
  by (induction ps) simp_all

lemma point_of_points:
  assumes "i < length ps"
  shows "point_of (concat (map point_bytes ps)) i = Some (ps ! i)"
  using assms words16_le16 [of "[px (ps ! i), py (ps ! i)]"]
  by (simp add: point_of_def points_at length_points point_bytes_def)

section \<open>Lists of strings\<close>

text \<open>The text of a \<open>REG_MULTI_SZ\<close> value, and its bytes.\<close>

definition flat :: "wstr list \<Rightarrow> wstr" where
  "flat ss = concat (map (\<lambda>s. s @ [0]) ss)"

definition multi_sz :: "wstr list \<Rightarrow> u8 list" where
  "multi_sz ss = concat (map le16 (flat ss @ [0]))"

lemma flat_simps [simp]: "flat [] = []" "flat (s # ss) = s @ 0 # flat ss"
  by (simp_all add: flat_def)

text \<open>What the safe-string functions do on texts that fit.\<close>

definition safe_strings :: "kernel \<Rightarrow> bool" where
  "safe_strings K \<longleftrightarrow>
     (\<forall>s. length s < 2 ^ 30 \<longrightarrow> snd (cb_length K s) = of_nat (2 * length (c_text s))) \<and>
     (\<forall>s n. length s < 2 ^ 30 \<longrightarrow> 2 * length (c_text s) + 2 \<le> unat n \<longrightarrow> cb_copy K n s = c_text s)"

lemma length_le16 [simp]: "length (le16 v) = 2"
  by (simp add: le16_def)

lemma length_le16s [simp]: "length (concat (map le16 ws)) = 2 * length ws"
  by (induction ws) (simp_all add: le16_def)

lemma safe_length:
  "safe_strings K \<Longrightarrow> length s < 2 ^ 30 \<Longrightarrow> snd (cb_length K s) = of_nat (2 * length (c_text s))"
  by (simp add: safe_strings_def)

lemma safe_copy:
  "safe_strings K \<Longrightarrow> length s < 2 ^ 30 \<Longrightarrow> 2 * length (c_text s) + 2 \<le> unat n \<Longrightarrow>
   cb_copy K n s = c_text s"
  by (simp add: safe_strings_def)

lemma c_text_no_zero: "0 \<notin> set s \<Longrightarrow> c_text s = s"
  unfolding c_text_def by (rule takeWhile_eq_all_conv [THEN iffD2]) auto

lemma c_text_append: "0 \<notin> set s \<Longrightarrow> c_text (s @ 0 # r) = s"
  unfolding c_text_def by (induction s) auto

lemma put_text_zeros:
  "length s < k \<Longrightarrow> put_text (length d) s (d @ replicate k 0) = (d @ s @ [0]) @ replicate (k - length s - 1) 0"
  by (simp add: put_text_def) (metis Suc_diff_Suc diff_Suc_1 replicate_Suc)

text \<open>One pass of the loop: the string at the present place is kept or skipped.\<close>

lemma filter_strings_step:
  assumes "safe_strings K" "0 \<notin> set s" "length bytes < 2 ^ 30" "bytes = pre @ multi_sz (s # ss)"
    and "2 * length d \<le> length pre"
  shows "filter_strings K bytes (length pre, 2 * length d, new) =
    (if s = MyDriverName then filter_strings K bytes (length pre + 2 * length s + 2, 2 * length d, new)
     else filter_strings K bytes (length pre + 2 * length s + 2, 2 * length d + 2 * length s + 2,
       put_text (length d) s new))"
    (is "_ = (if _ then ?skip else ?keep)")
proof -
  let ?size = "length bytes"
  define h where "h = s @ 0 # flat ss @ [0]"
  define len where "len = unat (snd (cb_length K h))"
  have here: "words16 (drop (length pre) bytes) = h"
    using assms(4) words16_le16 [of h] by (simp add: multi_sz_def h_def)
  have size: "?size = length pre + 2 * length s + 2 + 2 * length (flat ss) + 2"
    using assms(4) by (simp add: multi_sz_def)
  have short: "length h < 2 ^ 30" "length s < 2 ^ 30" using size assms(3) by (simp_all add: h_def)
  have string: "c_text h = s" unfolding h_def by (rule c_text_append [OF assms(2)])
  have unat_size: "unat (of_nat ?size :: u32) = ?size"
    and unat_left: "unat (of_nat (?size - 2 * length d) :: u32) = ?size - 2 * length d"
    using assms(3) by (simp_all add: unat_of_nat)
  have "unat (of_nat (2 * length s) :: u32) = 2 * length s"
    using short by (simp add: unat_of_nat del: of_nat_mult)
  then have len: "len = 2 * length s"
    using safe_length [OF assms(1) short(1)] by (simp only: string len_def)
  have "2 * length s + 2 \<le> ?size" "2 * length s + 2 \<le> ?size - 2 * length d"
    using size assms(5) by simp_all
  then have tmp: "cb_copy K (of_nat ?size) h = s" and copy: "cb_copy K (of_nat (?size - 2 * length d)) s = s"
    using safe_copy [OF assms(1) short(1), of "of_nat ?size"]
      safe_copy [OF assms(1) short(2), of "of_nat (?size - 2 * length d)"]
    by (simp_all only: unat_size unat_left string c_text_no_zero [OF assms(2)])
  have "length pre + 2 \<noteq> ?size" "\<not> ?size \<le> length pre" using size by simp_all
  then have "filter_strings K bytes (length pre, 2 * length d, new) =
      (if len \<noteq> 2 * length MyDriverName \<or> take (len div 2) h \<noteq> MyDriverName then ?keep else ?skip)"
    by (subst filter_strings.simps)
      (simp only: Let_def here tmp copy if_False len_def [symmetric], simp add: len copy)
  moreover have "take (length s) h = s" by (simp add: h_def)
  ultimately show ?thesis using len by (cases "s = MyDriverName") auto
qed

lemma filter_strings_spec:
  assumes "safe_strings K" "\<And>s. s \<in> set ss \<Longrightarrow> 0 \<notin> set s"
    and "length bytes < 2 ^ 30" "bytes = pre @ multi_sz ss" "even (length pre)"
    and "new = d @ replicate k 0" "2 * length d \<le> length pre" "2 * (length d + k) = length bytes"
  shows "filter_strings K bytes (length pre, 2 * length d, new) =
    ok (2 * length (d @ flat (filter (\<lambda>s. s \<noteq> MyDriverName) ss)),
        d @ flat (filter (\<lambda>s. s \<noteq> MyDriverName) ss) @
        replicate (length bytes div 2 - length (d @ flat (filter (\<lambda>s. s \<noteq> MyDriverName) ss))) 0)"
  using assms
proof (induction ss arbitrary: pre d k new)
  case Nil
  then have "length pre + 2 = length bytes" by (simp add: multi_sz_def le16_def)
  moreover have "length bytes div 2 - length d = k" using Nil.prems(8) by simp
  ultimately show ?case using Nil.prems(6) by (subst filter_strings.simps) simp
next
  case (Cons s ss)
  have "0 \<notin> set s" using Cons.prems(2) by simp
  note step = filter_strings_step [OF Cons.prems(1) this Cons.prems(3,4,7)]
  let ?pre = "pre @ concat (map le16 (s @ [0]))"
  have pre: "bytes = ?pre @ multi_sz ss" using Cons.prems(4) by (simp add: multi_sz_def)
  have next_len: "length ?pre = length pre + 2 * length s + 2" by simp
  have ss: "\<And>s'. s' \<in> set ss \<Longrightarrow> 0 \<notin> set s'" and ev: "even (length ?pre)"
    using Cons.prems(2,5) by simp_all
  note IH = Cons.IH [OF Cons.prems(1) ss Cons.prems(3) pre ev]
  have k: "length s < k" using Cons.prems(4,7,8) by (simp add: multi_sz_def)
  have new': "put_text (length d) s new = (d @ s @ [0]) @ replicate (k - length s - 1) 0"
    unfolding Cons.prems(6) by (rule put_text_zeros [OF k])
  have "2 * length (d @ s @ [0]) \<le> length ?pre"
    "2 * (length (d @ s @ [0]) + (k - length s - 1)) = length bytes"
    using Cons.prems(7,8) k by simp_all
  note keep = IH [OF _ new' this]
  have "2 * length d \<le> length ?pre" using Cons.prems(7) by simp
  note skip = IH [OF _ Cons.prems(6) this Cons.prems(8)]
  have "2 * length (d @ s @ [0]) = 2 * length d + 2 * length s + 2" by simp
  then show ?case
    unfolding step using keep skip by (cases "s = MyDriverName") (simp_all add: next_len)
qed

section \<open>Properties\<close>

text \<open>C20: From the list of filters in the registry the loop of
  \<open>GetAndDeleteRMSZValueFromRegistry\<close> drops exactly the driver's own name: the bytes it then
  writes are those of the other names, in order, and it writes none at all when no other
  name is left.\<close>

theorem filter_list_drops_driver:
  assumes "safe_strings K" "\<forall>s \<in> set ss. 0 \<notin> set s" "length (multi_sz ss) < 2 ^ 30"
  shows "\<exists>off txt. filter_strings K (multi_sz ss) (0, 0, replicate (length (multi_sz ss) div 2) 0) =
      ok (off, txt) \<and>
    concat (map le16 (take ((off + 2) div 2) txt)) = multi_sz (filter (\<lambda>s. s \<noteq> MyDriverName) ss) \<and>
    (off = 0 \<longleftrightarrow> set ss \<subseteq> {MyDriverName})"
proof -
  let ?rs = "filter (\<lambda>s. s \<noteq> MyDriverName) ss" and ?size = "length (multi_sz ss)"
  have len: "length (flat ?rs) < ?size div 2"
  proof -
    have "length (flat ?rs) \<le> length (flat ss)" by (induction ss) auto
    then show ?thesis by (simp add: multi_sz_def)
  qed
  have "filter_strings K (multi_sz ss) (length ([] :: u8 list), 2 * length ([] :: wstr),
      replicate (?size div 2) 0) = ok (2 * length ([] @ flat ?rs), [] @ flat ?rs @
      replicate (?size div 2 - length ([] @ flat ?rs)) 0)"
    by (rule filter_strings_spec [where k = "?size div 2"])
      (use assms in \<open>auto simp: multi_sz_def\<close>)
  then have run: "filter_strings K (multi_sz ss) (0, 0, replicate (?size div 2) 0) =
      ok (2 * length (flat ?rs), flat ?rs @ replicate (?size div 2 - length (flat ?rs)) 0)"
    by simp
  have "take ((2 * length (flat ?rs) + 2) div 2) (flat ?rs @ replicate (?size div 2 - length (flat ?rs)) 0) =
      flat ?rs @ [0]"
    using len by (simp add: take_replicate min_def)
  then have "concat (map le16 (take ((2 * length (flat ?rs) + 2) div 2)
      (flat ?rs @ replicate (?size div 2 - length (flat ?rs)) 0))) = multi_sz ?rs"
    by (simp only: multi_sz_def)
  moreover have "2 * length (flat ?rs) = 0 \<longleftrightarrow> set ss \<subseteq> {MyDriverName}"
    by (induction ss) auto
  ultimately show ?thesis using run by (intro exI conjI)
qed

definition demo_filters :: "wstr list" where
  "demo_filters = [wide ''abc'', MyDriverName, wide ''de'']"

lemma demo_safe_strings: "safe_strings demo_kernel"
  by (auto simp: safe_strings_def demo_kernel_def text_length_def)

lemma filter_list_drops_driver_witness:
  "\<exists>off txt. filter_strings demo_kernel (multi_sz demo_filters)
      (0, 0, replicate (length (multi_sz demo_filters) div 2) 0) = ok (off, txt) \<and>
    concat (map le16 (take ((off + 2) div 2) txt)) =
      multi_sz (filter (\<lambda>s. s \<noteq> MyDriverName) demo_filters) \<and>
    (off = 0 \<longleftrightarrow> set demo_filters \<subseteq> {MyDriverName})"
  by (rule filter_list_drops_driver [OF demo_safe_strings])
    (simp_all add: demo_filters_def MyDriverName_def wide_def multi_sz_def)

text \<open>What the driver stores in the registry it reads back: a DWORD from its four bytes, and
  each calibration point from the bytes of the array that \<open>RecordPointsInRegistry\<close> writes.\<close>

theorem registry_bytes_round_trip:
  "load_u32 (le32 v) = ret v \<and>
   map (point_of (concat (map point_bytes ps))) [0..<length ps] = map Some ps"
  by (auto simp: load_le32 point_of_points intro: nth_equalityI)

end
