(* ===== verification/Show.thy ===== *)
theory Show
  imports Prelude
begin

text \<open>
  The file viewer \<open>linux_dev/show/show.c\<close>: reading the file, counting its lines, the handling
  of keys and the drawing of the window.

  The calls of the curses library are the operations of \<open>draw_op\<close>, recorded in order; its
  screen size and the keys it delivers are parameters. The buffer holds the bytes of the
  file and is not terminated: the search for newlines goes on in the memory behind it, the
  parameter \<open>behind\<close>. C's \<open>int\<close> is \<open>int\<close>: all counters are bounded by the size of the file,
  at most \<open>MAXSIZE\<close>, and the two offsets by the number of keys.
\<close>

section \<open>State\<close>

definition MAXSIZE :: int where "MAXSIZE = 8096"
definition DX :: int where "DX = 3"

record file_struct =
  file_size :: int
  lines_num :: int
  file_buf :: "u8 list"

record document_state =
  number_space :: int
  vert_offset :: int
  horiz_offset :: int

datatype draw_op =
    Wclear
  | Wmove int int
  | Wattrset int
  | Wprintw string int
  | Waddch u8
  | Box
  | Wrefresh

section \<open>Counting lines\<close>

definition newline :: u8 where "newline = 10"

text \<open>\<open>strchr\<close>: the rest of the string from the first \<open>c\<close>; past the memory given it faults.\<close>

fun strchr :: "u8 \<Rightarrow> u8 list \<Rightarrow> u8 list option exec" where
  "strchr c [] = abort BufferOverflow"
| "strchr c (b # bs) = (if b = c then ok (Some (b # bs)) else if b = 0 then ok None else strchr c bs)"

lemma strchr_shorter: "strchr c bs = ok (Some r) \<Longrightarrow> length r \<le> length bs \<and> r \<noteq> []"
  by (induction bs) (auto split: if_splits simp: le_SucI)

text \<open>The loop \<open>while (tmp)\<close>.\<close>

function count_lines :: "u8 list option \<Rightarrow> int \<Rightarrow> int exec" where
  "count_lines tmp n =
     (case tmp of
        None \<Rightarrow> ok n
      | Some s \<Rightarrow>
          (case strchr newline (tl s) of
             Some (Inr t) \<Rightarrow> count_lines t (n + 1)
           | Some (Inl f) \<Rightarrow> abort f
           | None \<Rightarrow> None))"
  by pat_completeness auto
termination
proof (relation "measure (\<lambda>(tmp, n). case tmp of None \<Rightarrow> 0 | Some s \<Rightarrow> Suc (length s))", goal_cases)
  case (2 tmp n s r t)
  then have "strchr newline (tl s) = ok t" by (simp add: ok_def)
  then show ?case using strchr_shorter [of newline "tl s"] 2
    by (cases t; cases s) (auto simp: le_imp_less_Suc)
qed simp

declare count_lines.simps [simp del]

definition count_file_lines :: "u8 list \<Rightarrow> int exec" where
  "count_file_lines memory = and_then (strchr newline memory) (\<lambda>tmp. count_lines tmp 0)"

text \<open>The loop that computes the width of the line numbers.\<close>

partial_function (option) width_loop :: "int \<Rightarrow> int \<Rightarrow> int \<Rightarrow> int option" where
  "width_loop n delim space =
     (if n div delim \<noteq> 0 then width_loop n (delim * 10) (space + 1) else Some space)"

section \<open>Keys\<close>

definition KEY_DOWN :: int where "KEY_DOWN = 258"
definition KEY_UP :: int where "KEY_UP = 259"
definition KEY_LEFT :: int where "KEY_LEFT = 260"
definition KEY_RIGHT :: int where "KEY_RIGHT = 261"
definition ESCAPE :: int where "ESCAPE = 27"

definition handle_key :: "file_struct \<Rightarrow> int \<Rightarrow> document_state \<Rightarrow> document_state" where
  "handle_key f c d =
     (if c = KEY_UP then
        (if vert_offset d \<noteq> 0 then d\<lparr>vert_offset := vert_offset d - 1\<rparr> else d)
      else if c = KEY_DOWN then
        (if vert_offset d < lines_num f then d\<lparr>vert_offset := vert_offset d + 1\<rparr> else d)
      else if c = KEY_RIGHT then d\<lparr>horiz_offset := horiz_offset d + 1\<rparr>
      else if c = KEY_LEFT then
        (if horiz_offset d \<noteq> 0 then d\<lparr>horiz_offset := horiz_offset d - 1\<rparr> else d)
      else d)"

section \<open>Drawing\<close>

definition number_format :: "document_state \<Rightarrow> string" where
  "number_format d = ''% '' @ decimal (nat (number_space d)) @ ''d ''"

text \<open>The counters of the loop in \<open>fill_window\<close>.\<close>

record counters =
  count_line :: int
  count_w :: int
  count_hoffset :: int
  count_voffset :: int

definition first_counters :: counters where
  "first_counters = \<lparr>count_line = 1, count_w = 0, count_hoffset = 0, count_voffset = 0\<rparr>"

text \<open>The loop, over the bytes from \<open>i\<close> on; \<open>rows\<close> is \<open>LINES\<close>.\<close>

fun fill_loop :: "int \<Rightarrow> int \<Rightarrow> document_state \<Rightarrow> counters \<Rightarrow> u8 list \<Rightarrow> draw_op list" where
  "fill_loop rows width d k [] = []"
| "fill_loop rows width d k (b # bs) =
     (if count_voffset k - vert_offset d \<ge> rows - 2 * DX then []
      else if count_voffset k < vert_offset d then
        fill_loop rows width d
          (if b = newline
           then k\<lparr>count_line := count_line k + 1, count_voffset := count_voffset k + 1\<rparr> else k) bs
      else
        let skips = (count_hoffset k < horiz_offset d \<and> b \<noteq> newline);
            k = k\<lparr>count_hoffset := count_hoffset k + 1\<rparr> in
        if skips then fill_loop rows width d k bs
        else if count_w k \<ge> width - 3 \<and> b \<noteq> newline then fill_loop rows width d k bs
        else
          let k = k\<lparr>count_w := count_w k + 1\<rparr> in
          if b = newline then
            let k = k\<lparr>count_line := count_line k + 1\<rparr> in
            [Waddch b, Wattrset 2, Wprintw (number_format d) (count_line k), Wattrset 3] @
            fill_loop rows width d
              (k\<lparr>count_w := 0, count_hoffset := 0, count_voffset := count_voffset k + 1\<rparr>) bs
          else Waddch b # fill_loop rows width d k bs)"

definition fill_window :: "int \<Rightarrow> int \<Rightarrow> file_struct \<Rightarrow> document_state \<Rightarrow> draw_op list" where
  "fill_window rows cols f d =
     (let width = cols - 2 * DX - (number_space d + 1) in
      [Wclear, Wmove 1 0, Wattrset 2, Wprintw (number_format d) (1 + vert_offset d), Wattrset 3] @
      fill_loop rows width d first_counters (take (nat (file_size f)) (file_buf f)) @
      [Box, Wmove 1 0, Wrefresh])"

section \<open>The program\<close>

text \<open>The keys up to Escape: the state after each, and the window drawn for it.\<close>

fun key_loop :: "int \<Rightarrow> int \<Rightarrow> file_struct \<Rightarrow> document_state \<Rightarrow> int list \<Rightarrow>
    (document_state \<times> draw_op list) list" where
  "key_loop rows cols f d [] = []"
| "key_loop rows cols f d (c # cs) =
     (if c = ESCAPE then []
      else let d = handle_key f c d in (d, fill_window rows cols f d) # key_loop rows cols f d cs)"

datatype show_result =
    Usage
  | NoFile
  | TooBig
  | ReadError
  | Shown "(document_state \<times> draw_op list) list"

text \<open>
  The arguments: what \<open>fopen\<close>, \<open>ftell\<close> and \<open>fread\<close> give for the file named on the command
  line, the memory behind the buffer, the screen and the keys.
\<close>

definition show_main ::
  "u8 list option option \<Rightarrow> u8 list \<Rightarrow> u8 list \<Rightarrow> int \<Rightarrow> int \<Rightarrow> int list \<Rightarrow> show_result exec" where
  "show_main arg got behind rows cols keys =
     (case arg of
        None \<Rightarrow> ok Usage
      | Some None \<Rightarrow> ok NoFile
      | Some (Some bytes) \<Rightarrow>
          if int (length bytes) > MAXSIZE then ok TooBig
          else if length got \<noteq> length bytes then ok ReadError
          else and_then (count_file_lines (got @ behind)) (\<lambda>n.
            let f = \<lparr>file_size = int (length bytes), lines_num = n, file_buf = got\<rparr> in
            case width_loop n 1 0 of
              None \<Rightarrow> None
            | Some s \<Rightarrow>
                let d = \<lparr>number_space = s, vert_offset = 0, horiz_offset = 0\<rparr> in
                ok (Shown ((d, fill_window rows cols f d) # key_loop rows cols f d keys))))"

section \<open>Lines and digits\<close>

text \<open>The newlines of a text up to its terminating zero.\<close>

definition newlines :: "u8 list \<Rightarrow> int" where
  "newlines bs = int (count_list (takeWhile (\<lambda>b. b \<noteq> 0) bs) newline)"

lemma newline_nonzero [simp]: "newline \<noteq> 0" "0 \<noteq> newline"
  by (simp_all add: newline_def)

lemma strchr_terminated:
  "0 \<in> set bs \<Longrightarrow> (strchr newline bs = ok None \<and> newlines bs = 0) \<or>
    (\<exists>r. strchr newline bs = ok (Some (newline # r)) \<and> 0 \<in> set r \<and> newlines bs = newlines r + 1)"
  by (induction bs) (auto simp: newlines_def)

lemma count_lines_terminated:
  "0 \<in> set r \<Longrightarrow> count_lines (Some (newline # r)) n = ok (n + 1 + newlines r)"
proof (induction "length r" arbitrary: r n rule: less_induct)
  case less
  show ?case
    using strchr_terminated [OF less.prems]
  proof (elim disjE exE conjE)
    assume "strchr newline r = ok None" "newlines r = 0"
    then show ?thesis by (subst count_lines.simps) (simp add: ok_def count_lines.simps [of None])
  next
    fix q assume q: "strchr newline r = ok (Some (newline # q))" "0 \<in> set q" "newlines r = newlines q + 1"
    then have "length q < length r" using strchr_shorter [OF q(1)] by simp
    from less.hyps [OF this q(2)] show ?thesis
      using q by (subst count_lines.simps) (simp add: ok_def)
  qed
qed

lemma width_loop_digits:
  assumes "0 \<le> n" "0 \<le> k" "k = 0 \<or> 10 ^ nat (k - 1) \<le> n"
  shows "\<exists>m \<ge> k. width_loop n (10 ^ nat k) k = Some m \<and> n < 10 ^ nat m \<and>
    (m = 0 \<or> 10 ^ nat (m - 1) \<le> n)"
  using assms
proof (induction "nat (n + 1 - 10 ^ nat k)" arbitrary: k rule: less_induct)
  case less
  show ?case
  proof (cases "n div 10 ^ nat k = 0")
    case True
    then have "n < 10 ^ nat k" using less.prems(1) by (auto simp: zdiv_eq_0_iff not_less)
    then show ?thesis using True less.prems by (subst width_loop.simps) auto
  next
    case False
    then have big: "10 ^ nat k \<le> n" using less.prems(1) by (auto simp: zdiv_eq_0_iff not_less)
    have pow: "(10 :: int) ^ nat (k + 1) = 10 ^ nat k * 10"
      using less.prems(2) by (simp add: nat_add_distrib)
    have "nat (n + 1 - 10 ^ nat (k + 1)) < nat (n + 1 - 10 ^ nat k)"
      using big unfolding pow by (simp add: nat_less_eq_zless)
    from less.hyps [OF this less.prems(1)] big less.prems(2)
    obtain m where "m \<ge> k + 1" "width_loop n (10 ^ nat (k + 1)) (k + 1) = Some m" "n < 10 ^ nat m"
      "m = 0 \<or> 10 ^ nat (m - 1) \<le> n" by auto
    then show ?thesis
      using False by (intro exI [of _ m]) (simp add: width_loop.simps [of n "10 ^ nat k"] pow)
  qed
qed

section \<open>The page\<close>

text \<open>
  What the window should show: of each line the part behind the horizontal offset that fits
  the width; after each line its successor's number.
\<close>

definition visible :: "int \<Rightarrow> document_state \<Rightarrow> u8 list \<Rightarrow> u8 list" where
  "visible width d l = take (nat (width - 3)) (drop (nat (horiz_offset d)) l)"

fun page :: "nat \<Rightarrow> int \<Rightarrow> document_state \<Rightarrow> nat \<Rightarrow> u8 list list \<Rightarrow> u8 list \<Rightarrow> draw_op list" where
  "page 0 width d j ls r = []"
| "page (Suc n) width d j [] r = map Waddch (visible width d r)"
| "page (Suc n) width d j (l # ls) r =
     map Waddch (visible width d l) @
     [Waddch newline, Wattrset 2, Wprintw (number_format d) (int j + 2), Wattrset 3] @
     page n width d (j + 1) ls r"

lemma page_numeral: "page (numeral v) width d j ls r = page (Suc (pred_numeral v)) width d j ls r"
  by (simp add: numeral_eq_Suc)

definition join :: "u8 list list \<Rightarrow> u8 list \<Rightarrow> u8 list" where
  "join ls r = concat (map (\<lambda>l. l @ [newline]) ls) @ r"

lemma join_simps [simp]: "join [] r = r" "join (l # ls) r = l @ newline # join ls r"
  by (simp_all add: join_def)

text \<open>A stretch of a visible line.\<close>

lemma fill_line:
  assumes "newline \<notin> set l" "vert_offset d \<le> count_voffset k"
    and "count_voffset k - vert_offset d < rows - 2 * DX" "0 \<le> count_w k"
  shows "\<exists>h w. 0 \<le> w \<and> fill_loop rows width d k (l @ bs) =
    map Waddch (take (nat (width - 3 - count_w k)) (drop (nat (horiz_offset d - count_hoffset k)) l)) @
    fill_loop rows width d (k\<lparr>count_hoffset := h, count_w := w\<rparr>) bs"
  using assms
proof (induction l arbitrary: k)
  case Nil
  then show ?case by (intro exI [of _ "count_hoffset k"] exI [of _ "count_w k"]) simp
next
  case (Cons b l)
  define k1 where "k1 = k\<lparr>count_hoffset := count_hoffset k + 1\<rparr>"
  define k2 where "k2 = k1\<lparr>count_w := count_w k + 1\<rparr>"
  have b: "b \<noteq> newline" "newline \<notin> set l" using Cons.prems(1) by auto
  have unfold: "fill_loop rows width d k ((b # l) @ bs) =
      (if count_hoffset k < horiz_offset d then fill_loop rows width d k1 (l @ bs)
       else if count_w k \<ge> width - 3 then fill_loop rows width d k1 (l @ bs)
       else Waddch b # fill_loop rows width d k2 (l @ bs))"
    using Cons.prems(2,3) b by (simp add: k1_def k2_def Let_def)
  obtain h w where skip: "0 \<le> w" "fill_loop rows width d k1 (l @ bs) =
      map Waddch (take (nat (width - 3 - count_w k)) (drop (nat (horiz_offset d - count_hoffset k - 1)) l)) @
      fill_loop rows width d (k\<lparr>count_hoffset := h, count_w := w\<rparr>) bs"
    using Cons.IH [of k1] Cons.prems b by (auto simp: k1_def algebra_simps)
  obtain h' w' where draw: "0 \<le> w'" "fill_loop rows width d k2 (l @ bs) =
      map Waddch (take (nat (width - 3 - count_w k - 1)) (drop (nat (horiz_offset d - count_hoffset k - 1)) l)) @
      fill_loop rows width d (k\<lparr>count_hoffset := h', count_w := w'\<rparr>) bs"
    using Cons.IH [of k2] Cons.prems b by (auto simp: k1_def k2_def algebra_simps)
  consider "count_hoffset k < horiz_offset d" | "\<not> count_hoffset k < horiz_offset d" "count_w k \<ge> width - 3"
    | "\<not> count_hoffset k < horiz_offset d" "count_w k < width - 3" by linarith
  then show ?case
  proof cases
    case 1
    then have "nat (horiz_offset d - count_hoffset k) = Suc (nat (horiz_offset d - count_hoffset k - 1))"
      by simp
    then show ?thesis using skip 1 unfolding unfold by auto
  next
    case 2
    then show ?thesis using skip unfolding unfold by auto
  next
    case 3
    then have "nat (width - 3 - count_w k) = Suc (nat (width - 3 - count_w k - 1))"
      "nat (horiz_offset d - count_hoffset k) = 0" "nat (horiz_offset d - count_hoffset k - 1) = 0" by simp_all
    then show ?thesis using draw 3 unfolding unfold by auto
  qed
qed

text \<open>The window below the last line that fits.\<close>

lemma fill_beyond:
  assumes "rows - 2 * DX \<le> 0 \<or> rows - 2 * DX \<le> count_voffset k - vert_offset d"
  shows "fill_loop rows width d k bs = []"
  using assms by (induction bs arbitrary: k) auto

lemma fill_newline:
  assumes "vert_offset d \<le> count_voffset k" "count_voffset k - vert_offset d < rows - 2 * DX"
  shows "fill_loop rows width d k (newline # bs) =
    [Waddch newline, Wattrset 2, Wprintw (number_format d) (count_line k + 1), Wattrset 3] @
    fill_loop rows width d \<lparr>count_line = count_line k + 1, count_w = 0, count_hoffset = 0,
      count_voffset = count_voffset k + 1\<rparr> bs"
  using assms by (cases k) simp

definition at_line :: "nat \<Rightarrow> counters" where
  "at_line j = \<lparr>count_line = int j + 1, count_w = 0, count_hoffset = 0, count_voffset = int j\<rparr>"

lemma fill_page:
  assumes "newline \<notin> set r" "\<forall>l \<in> set ls. newline \<notin> set l" "vert_offset d \<le> int j"
    and "n = nat (rows - 2 * DX - (int j - vert_offset d))"
  shows "fill_loop rows width d (at_line j) (join ls r) = page n width d j ls r"
  using assms
proof (induction ls arbitrary: j n)
  case Nil
  show ?case
  proof (cases n)
    case 0
    then have "fill_loop rows width d (at_line j) r = []"
      using Nil by (intro fill_beyond) (simp add: at_line_def)
    then show ?thesis using 0 by simp
  next
    case (Suc m)
    then show ?thesis
      using fill_line [OF Nil(1), of d "at_line j" rows width "[]"] Nil by (auto simp: at_line_def visible_def)
  qed
next
  case (Cons l ls)
  show ?case
  proof (cases n)
    case 0
    then have "fill_loop rows width d (at_line j) (join (l # ls) r) = []"
      using Cons.prems by (intro fill_beyond) (simp add: at_line_def)
    then show ?thesis using 0 by simp
  next
    case (Suc m)
    then have room: "int j - vert_offset d < rows - 2 * DX" using Cons.prems(4) by simp
    obtain h w where line: "fill_loop rows width d (at_line j) (l @ newline # join ls r) =
        map Waddch (visible width d l) @
        fill_loop rows width d ((at_line j)\<lparr>count_hoffset := h, count_w := w\<rparr>) (newline # join ls r)"
      using fill_line [of l d "at_line j" rows width "newline # join ls r"] Cons.prems room
      by (auto simp: at_line_def visible_def)
    have "fill_loop rows width d ((at_line j)\<lparr>count_hoffset := h, count_w := w\<rparr>) (newline # join ls r) =
        [Waddch newline, Wattrset 2, Wprintw (number_format d) (int j + 2), Wattrset 3] @
        fill_loop rows width d (at_line (j + 1)) (join ls r)"
      using fill_newline [of d "(at_line j)\<lparr>count_hoffset := h, count_w := w\<rparr>" rows width "join ls r"]
        Cons.prems(3) room by (simp add: at_line_def algebra_simps)
    moreover have "fill_loop rows width d (at_line (j + 1)) (join ls r) = page m width d (j + 1) ls r"
      by (rule Cons.IH) (use Cons.prems Suc in auto)
    ultimately show ?thesis using line Suc by simp
  qed
qed

text \<open>The lines above the window.\<close>

lemma skip_line:
  assumes "newline \<notin> set l" "count_voffset k < vert_offset d" "0 < rows - 2 * DX"
  shows "fill_loop rows width d k (l @ bs) = fill_loop rows width d k bs"
  using assms by (induction l) auto

lemma skip_lines:
  assumes "newline \<notin> set r" "\<forall>l \<in> set ls. newline \<notin> set l" "0 < rows - 2 * DX"
    and "int j \<le> vert_offset d"
  shows "fill_loop rows width d (at_line j) (join ls r) =
    (if vert_offset d \<le> int (j + length ls)
     then fill_loop rows width d (at_line (nat (vert_offset d))) (join (drop (nat (vert_offset d) - j) ls) r)
     else [])"
  using assms
proof (induction ls arbitrary: j)
  case Nil
  have "fill_loop rows width d (at_line j) r = []" if "int j < vert_offset d"
    using skip_line [OF Nil(1), of "at_line j" d rows width "[]"] that Nil(3) by (simp add: at_line_def)
  moreover have "nat (vert_offset d) = j" if "int j = vert_offset d" using that by (metis nat_int)
  ultimately show ?case using Nil(4) by (cases "int j = vert_offset d") auto
next
  case (Cons l ls)
  show ?case
  proof (cases "int j = vert_offset d")
    case True
    then show ?thesis by (auto simp flip: True)
  next
    case False
    then have above: "int j < vert_offset d" using Cons.prems(4) by simp
    have "fill_loop rows width d (at_line j) (join (l # ls) r) =
        fill_loop rows width d (at_line (j + 1)) (join ls r)"
      using skip_line [of l "at_line j" d rows width "newline # join ls r"] Cons.prems above
      by (simp add: at_line_def algebra_simps)
    also have "\<dots> = (if vert_offset d \<le> int (j + 1 + length ls)
      then fill_loop rows width d (at_line (nat (vert_offset d))) (join (drop (nat (vert_offset d) - (j + 1)) ls) r)
      else [])"
      by (rule Cons.IH) (use Cons.prems above in auto)
    finally show ?thesis
      using above by (auto simp: drop_Cons' Suc_diff_Suc nat_less_iff)
  qed
qed

section \<open>Properties\<close>

text \<open>C7: The window that the viewer draws is the page of the file at its two offsets: from the
  line at the vertical offset on, as many lines as fit below each other, of each line the
  part behind the horizontal offset that fits beside the line numbers, and the number of the
  following line in front of it.\<close>

theorem fill_window_draws_page:
  assumes "file_buf f = join ls r" "file_size f = int (length (join ls r))"
    and "newline \<notin> set r" "\<forall>l \<in> set ls. newline \<notin> set l" "0 \<le> vert_offset d"
  shows "fill_window rows cols f d =
    [Wclear, Wmove 1 0, Wattrset 2, Wprintw (number_format d) (1 + vert_offset d), Wattrset 3] @
    (if vert_offset d \<le> int (length ls)
     then page (nat (rows - 6)) (cols - 6 - (number_space d + 1)) d (nat (vert_offset d))
       (drop (nat (vert_offset d)) ls) r
     else []) @
    [Box, Wmove 1 0, Wrefresh]"
proof -
  let ?v = "nat (vert_offset d)" and ?w = "cols - 6 - (number_space d + 1)"
  have "fill_loop rows ?w d (at_line 0) (join ls r) =
    (if vert_offset d \<le> int (length ls) then page (nat (rows - 6)) ?w d ?v (drop ?v ls) r else [])"
  proof (cases "0 < rows - 2 * DX")
    case True
    have "fill_loop rows ?w d (at_line ?v) (join (drop ?v ls) r) = page (nat (rows - 6)) ?w d ?v (drop ?v ls) r"
      by (rule fill_page) (use assms(3,4,5) in \<open>auto simp: DX_def dest: in_set_dropD\<close>)
    then show ?thesis using skip_lines [OF assms(3,4) True, of 0 d ?w] assms(5) by simp
  next
    case False
    then show ?thesis using fill_beyond [of rows] by (simp add: DX_def)
  qed
  then show ?thesis
    using assms(1,2) by (simp add: fill_window_def Let_def DX_def at_line_def first_counters_def)
qed

definition demo_state :: document_state where
  "demo_state = \<lparr>number_space = 1, vert_offset = 1, horiz_offset = 1\<rparr>"

definition demo_file :: file_struct where
  "demo_file = \<lparr>file_size = 11, lines_num = 2, file_buf = [97, 10, 98, 99, 100, 101, 102, 10, 103, 104, 105]\<rparr>"

lemma demo_state_simps:
  "number_space demo_state = 1" "vert_offset demo_state = 1" "horiz_offset demo_state = 1"
  "number_format demo_state = ''% 1d ''"
  by (simp_all add: demo_state_def) (code_simp)

lemma fill_window_draws_page_witness:
  "fill_window 8 14 demo_file demo_state =
    [Wclear, Wmove 1 0, Wattrset 2, Wprintw ''% 1d '' 2, Wattrset 3,
     Waddch 99, Waddch 100, Waddch 101, Waddch 10, Wattrset 2, Wprintw ''% 1d '' 3, Wattrset 3,
     Waddch 104, Waddch 105, Box, Wmove 1 0, Wrefresh]"
proof -
  have "file_buf demo_file = join [[97], [98, 99, 100, 101, 102]] [103, 104, 105]"
    by (simp add: demo_file_def newline_def)
  from fill_window_draws_page [OF this, of demo_state 8 14] show ?thesis
    by (simp add: demo_file_def demo_state_simps newline_def visible_def page_numeral)
qed

text \<open>C33: Scrolling keeps the offsets in range: whatever keys are pressed, the window starts at a
  line from 0 to the number of lines and at a column that is not negative.\<close>

theorem offsets_stay_in_range:
  assumes "(d', w) \<in> set (key_loop rows cols f d keys)" "0 \<le> lines_num f"
    and "0 \<le> vert_offset d \<and> vert_offset d \<le> lines_num f \<and> 0 \<le> horiz_offset d"
  shows "0 \<le> vert_offset d' \<and> vert_offset d' \<le> lines_num f \<and> 0 \<le> horiz_offset d'"
  using assms
proof (induction keys arbitrary: d)
  case (Cons c cs)
  have "0 \<le> vert_offset (handle_key f c d) \<and> vert_offset (handle_key f c d) \<le> lines_num f \<and>
      0 \<le> horiz_offset (handle_key f c d)"
    using Cons.prems(2,3) by (auto simp: handle_key_def)
  then show ?case
    using Cons.IH [of "handle_key f c d"] Cons.prems(1,2) by (auto simp: Let_def split: if_splits)
qed simp

lemma offsets_stay_in_range_witness:
  "0 \<le> vert_offset (demo_state\<lparr>vert_offset := 2\<rparr>) \<and>
   vert_offset (demo_state\<lparr>vert_offset := 2\<rparr>) \<le> lines_num demo_file \<and>
   0 \<le> horiz_offset (demo_state\<lparr>vert_offset := 2\<rparr>)"
  by (rule offsets_stay_in_range [where d = demo_state and f = demo_file and rows = 24 and cols = 14 and
        keys = "[KEY_DOWN, KEY_DOWN]" and w = "fill_window 24 14 demo_file (demo_state\<lparr>vert_offset := 2\<rparr>)"])
    (simp_all add: handle_key_def KEY_UP_def KEY_DOWN_def KEY_LEFT_def KEY_RIGHT_def ESCAPE_def
      demo_state_def demo_file_def Let_def)

text \<open>The loop that computes the width of the line numbers ends for every number of lines and
  gives the number of its decimal digits, 0 for 0.\<close>

theorem number_width_is_digits:
  "0 \<le> n \<longrightarrow> (\<exists>m \<ge> 0. width_loop n 1 0 = Some m \<and> n < 10 ^ nat m \<and> (m = 0 \<or> 10 ^ nat (m - 1) \<le> n))"
  using width_loop_digits [of n 0] by simp

lemma number_width_is_digits_witness:
  "\<exists>m \<ge> 0. width_loop 8096 1 0 = Some m \<and> 8096 < (10 :: int) ^ nat m \<and> (m = 0 \<or> 10 ^ nat (m - 1) \<le> (8096 :: int))"
  using number_width_is_digits [of 8096] by simp

text \<open>The count of lines does not stop at the end of the file: for a text without a zero byte
  it adds the newlines of whatever memory follows the buffer, up to the first zero there, and
  with nothing behind the buffer the search leaves it.\<close>

theorem line_count_leaves_buffer:
  assumes "0 \<notin> set got" "0 \<in> set behind"
  shows "count_file_lines (got @ behind) = ok (int (count_list got newline) + newlines behind)"
proof -
  have "newlines (got @ behind) = int (count_list got newline) + newlines behind"
    using assms(1) by (induction got) (auto simp: newlines_def)
  moreover have "count_file_lines bs = ok (newlines bs)" if "0 \<in> set bs" for bs
    using strchr_terminated [OF that] count_lines_terminated
    by (auto simp: count_file_lines_def count_lines.simps [of None])
  ultimately show ?thesis using assms(2) by simp
qed

lemma line_count_leaves_buffer_witness:
  "count_file_lines ([97, 10] @ [10, 10, 0]) = ok (int (count_list [97, 10] newline) + newlines [10, 10, 0])"
  by (rule line_count_leaves_buffer) simp_all

end
