(* ===== verification/EspState.thy ===== *)
theory EspState
  imports Machine Double
begin

text \<open>
  What the tasks of \<open>firmware_esp32/main\<close> share: their data (\<open>wifi.h\<close>, \<open>udp_client.h\<close>,
  \<open>ac_gree.h\<close>, \<open>interconn_pipe.h\<close>), the memory they allocate, and the system they call:
  FreeRTOS (event groups, queues, message buffers, mutexes), ESP-IDF, sockets, mbedTLS and
  cJSON. The system is the record \<open>esp\<close>. What a call of the operating system answers depends
  on the history of calls; mbedTLS and cJSON are functions of their arguments, except that
  cJSON may run out of memory. The items of a JSON tree are of an abstract type \<open>'j\<close>, read
  through the fields of the library's structure.

  A \<open>char\<close> is a byte; it is unsigned on the Xtensa core. Memory is a map from addresses to
  blocks, and no address is used twice, so that a use after \<open>free\<close> is a fault. The content
  of a new block is whatever the system says it is. Sizes are numbers; a wrap-around at 32
  bits is written out where it can happen.
\<close>

section \<open>Data\<close>

type_synonym bits = u32

definition NUL :: char where "NUL = CHR 0x00"

definition BIT0 :: bits where "BIT0 = 0x1"
definition BIT1 :: bits where "BIT1 = 0x2"
definition BIT2 :: bits where "BIT2 = 0x4"
definition BIT3 :: bits where "BIT3 = 0x8"
definition BIT4 :: bits where "BIT4 = 0x10"
definition BIT5 :: bits where "BIT5 = 0x20"
definition BIT6 :: bits where "BIT6 = 0x40"
definition BIT8 :: bits where "BIT8 = 0x100"
definition BIT9 :: bits where "BIT9 = 0x200"
definition BIT10 :: bits where "BIT10 = 0x400"
definition BIT11 :: bits where "BIT11 = 0x800"

definition OPERATION_SUCCESS :: bits where "OPERATION_SUCCESS = BIT0"
definition OPERATION_FAILED :: bits where "OPERATION_FAILED = BIT1"

definition CONNECT_TO_AP :: bits where "CONNECT_TO_AP = BIT2"
definition MODE_AP :: bits where "MODE_AP = BIT3"
definition DEINIT_WIFI :: bits where "DEINIT_WIFI = BIT4"
definition SCAN_AND_CONNECT_TO_AP :: bits where "SCAN_AND_CONNECT_TO_AP = BIT5"

definition STATE_ALL_BITS :: bits where "STATE_ALL_BITS = 0xFFFFFF"
definition STATE_STA :: bits where "STATE_STA = BIT0"
definition STATE_GOT_IP :: bits where "STATE_GOT_IP = BIT1"
definition STATE_LOST_IP :: bits where "STATE_LOST_IP = BIT2"
definition STATE_CEASELESS_C :: bits where "STATE_CEASELESS_C = BIT3"
definition STATE_SEVERAL_TRIES :: bits where "STATE_SEVERAL_TRIES = BIT4"
definition STATE_START_FOR_SCAN :: bits where "STATE_START_FOR_SCAN = BIT5"
definition STATE_SOFTAP :: bits where "STATE_SOFTAP = BIT6"
definition STATE_PRE_INIT :: bits where "STATE_PRE_INIT = BIT8"
definition STATE_DEINITIALIZING :: bits where "STATE_DEINITIALIZING = BIT9"
definition STATE_STOPPED :: bits where "STATE_STOPPED = BIT10"
definition STATE_INTERNAL_QUEUE :: bits where "STATE_INTERNAL_QUEUE = BIT11"

definition SEND_MESSAGE :: bits where "SEND_MESSAGE = BIT2"

definition BINDING_WITH_AC :: bits where "BINDING_WITH_AC = BIT2"
definition SEND_CONTROL_TO_AC :: bits where "SEND_CONTROL_TO_AC = BIT3"
definition SEND_WLAN_TO_AC :: bits where "SEND_WLAN_TO_AC = BIT4"
definition SCAN_AC :: bits where "SCAN_AC = BIT5"

definition MAX_SSID_LEN :: nat where "MAX_SSID_LEN = 32"
definition MAX_PASSPHRASE_LEN :: nat where "MAX_PASSPHRASE_LEN = 64"
definition IP4_MAX_SIZE :: nat where "IP4_MAX_SIZE = 16"
definition SCAN_LIST_SIZE :: nat where "SCAN_LIST_SIZE = 20"
definition SIZE_MESSAGE_BUFFER_UDP :: nat where "SIZE_MESSAGE_BUFFER_UDP = 1024"

text \<open>
  The members of the union in \<open>wifi_data\<close>: the answer's \<open>ip\<close> and \<open>network\<close> lie over the
  query's \<open>ssid\<close>, its \<open>broadcast\<close> over the first bytes of \<open>password\<close>.
\<close>

record wifi_data =
  ssid :: string
  password :: string
  ceaseless_conn :: bool
  need_response :: bool
  number_attempts :: u16

definition wifi_zero :: wifi_data where
  "wifi_zero = \<lparr>ssid = replicate MAX_SSID_LEN NUL, password = replicate MAX_PASSPHRASE_LEN NUL,
     ceaseless_conn = False, need_response = False, number_attempts = 0\<rparr>"

record internal_wifi_data =
  int_ip :: string
  int_network :: string
  int_broadcast :: string

definition wifi_answer :: "internal_wifi_data \<Rightarrow> wifi_data" where
  "wifi_answer d = wifi_zero\<lparr>
     ssid := int_ip d @ int_network d,
     password := int_broadcast d @ drop IP4_MAX_SIZE (password wifi_zero)\<rparr>"

definition broadcast_of :: "wifi_data \<Rightarrow> string" where
  "broadcast_of d = take IP4_MAX_SIZE (password d)"

record udp_data =
  udp_ip :: string
  udp_port :: u16
  udp_need_response :: bool

definition udp_zero :: udp_data where
  "udp_zero = \<lparr>udp_ip = replicate IP4_MAX_SIZE NUL, udp_port = 0, udp_need_response = False\<rparr>"

text \<open>In \<open>ac_data\<close> the answer's two flags lie over the first bytes of \<open>ssid\<close>.\<close>

record ac_data =
  ac_ssid :: string
  ac_password :: string

definition ac_zero :: ac_data where
  "ac_zero = \<lparr>ac_ssid = replicate MAX_SSID_LEN NUL, ac_password = replicate MAX_PASSPHRASE_LEN NUL\<rparr>"

definition set_valid_wifi :: "bool \<Rightarrow> ac_data \<Rightarrow> ac_data" where
  "set_valid_wifi b d = d\<lparr>ac_ssid := (ac_ssid d)[0 := if b then CHR 0x01 else NUL]\<rparr>"

definition set_valid_mac :: "bool \<Rightarrow> ac_data \<Rightarrow> ac_data" where
  "set_valid_mac b d = d\<lparr>ac_ssid := (ac_ssid d)[1 := if b then CHR 0x01 else NUL]\<rparr>"

type_synonym ptr = "nat option"

record ac_instance =
  next_ac :: ptr
  prev_ac :: ptr
  ac_ip :: string
  ac_mac :: ptr
  ac_aes_key :: ptr

section \<open>The system\<close>

datatype group = AcGroup | WifiGroup | UdpGroup | StateGroup
datatype queue = AcQueue | WifiQueue | UdpQueue | InternalQueue
datatype mutex = WifiMutex | UdpMutex
datatype msg_buffer = AcMessages | UdpMessages

datatype payload =
    WifiItem wifi_data
  | UdpItem udp_data
  | AcItem ac_data
  | InternalItem internal_wifi_data

datatype wifi_mode = StaMode | ApMode | OtherMode nat

record wifi_config =
  conf_ssid :: string
  conf_password :: string
  conf_ssid_len :: nat
  conf_authmode :: nat
  conf_rssi :: int
  conf_channel :: nat
  conf_max_connection :: nat

record ap_record =
  ap_ssid :: string
  ap_rssi :: int
  ap_authmode :: nat

datatype wifi_call =
    WifiInit | SetMode wifi_mode | SetConfig wifi_mode wifi_config | WifiStart | WifiStop
  | WifiConnect | WifiDeinit | ScanStart | ScanRecords | ScanCount
  | CreateNetif wifi_mode | DestroyNetif "nat option" | NetifInit | CreateLoop
  | RegisterHandler string

text \<open>
  What the event loop reports to the handlers of \<open>wifi.c\<close>. An address is a word; the
  last argument of \<open>GotIp\<close> is what the stack of the handler held before.
\<close>

datatype wifi_event =
    StaStart
  | GotIp u32 u32 "nat \<Rightarrow> char"
  | Disconnected
  | Connected string
  | Stopped
  | LostIp

datatype esp_event =
    Wait group bits bits
  | SetBits group bits
  | Take mutex bool
  | Give mutex
  | QueueReset queue
  | QueueSend queue payload bool
  | QueueReceive queue "payload option"
  | MessageReset msg_buffer
  | MessageSend msg_buffer string nat
  | MessageReceive msg_buffer nat string
  | Malloc nat bool
  | Release nat
  | MallocInstance bool
  | ReleaseInstance nat
  | CreateItem bool
  | AddItem bool
  | ParseItem bool
  | PrintItem bool
  | DeleteItem
  | Wifi wifi_call int
  | OpenSocket int
  | SendTo int string string u16 int
  | Select int int bool
  | ReceiveFrom int nat "string option"
  | CloseSocket int
  | CreateHandle string bool
  | Handled wifi_event
  | DeleteHandle string

record 'j esp =
  e_malloc :: "esp_event list \<Rightarrow> nat \<Rightarrow> (nat \<Rightarrow> char) option"
  e_instance :: "esp_event list \<Rightarrow> ac_instance option"
  e_wait :: "esp_event list \<Rightarrow> group \<Rightarrow> bits \<Rightarrow> bits"
  e_take :: "esp_event list \<Rightarrow> mutex \<Rightarrow> bool"
  e_send :: "esp_event list \<Rightarrow> queue \<Rightarrow> bool"
  e_receive_wifi :: "esp_event list \<Rightarrow> wifi_data option"
  e_receive_udp :: "esp_event list \<Rightarrow> udp_data option"
  e_receive_ac :: "esp_event list \<Rightarrow> ac_data option"
  e_message_send :: "esp_event list \<Rightarrow> msg_buffer \<Rightarrow> string \<Rightarrow> nat"
  e_message_receive :: "esp_event list \<Rightarrow> msg_buffer \<Rightarrow> nat \<Rightarrow> string"
  e_wifi :: "esp_event list \<Rightarrow> wifi_call \<Rightarrow> int"
  e_netif :: "esp_event list \<Rightarrow> nat option"
  e_scan_records :: "esp_event list \<Rightarrow> ap_record list"
  e_scan_count :: "esp_event list \<Rightarrow> nat"
  e_events :: "esp_event list \<Rightarrow> wifi_event list"
  e_socket :: "esp_event list \<Rightarrow> int"
  e_send_to :: "esp_event list \<Rightarrow> int"
  e_select :: "esp_event list \<Rightarrow> int \<times> bool"
  e_receive_from :: "esp_event list \<Rightarrow> nat \<Rightarrow> string option \<times> string \<times> u16"
  e_handle :: "esp_event list \<Rightarrow> string \<Rightarrow> bool"
  e_json_memory :: "esp_event list \<Rightarrow> bool"
  aes_setkey :: "string \<Rightarrow> int"
  aes_encrypt :: "string \<Rightarrow> string \<Rightarrow> int \<times> string"
  aes_decrypt :: "string \<Rightarrow> string \<Rightarrow> int \<times> string"
  b64_encode :: "nat \<Rightarrow> string \<Rightarrow> int \<times> string"
  b64_decode :: "nat \<Rightarrow> string \<Rightarrow> int \<times> nat \<times> string"
  json_object :: 'j
  json_array :: 'j
  json_string :: "string \<Rightarrow> 'j"
  json_number :: "int \<Rightarrow> 'j"
  json_add :: "'j \<Rightarrow> string \<Rightarrow> 'j \<Rightarrow> 'j"
  json_append :: "'j \<Rightarrow> 'j \<Rightarrow> 'j"
  json_print :: "'j \<Rightarrow> string"
  json_print_into :: "nat \<Rightarrow> 'j \<Rightarrow> string option"
  json_parse :: "string \<Rightarrow> 'j option"
  json_has :: "'j \<Rightarrow> string \<Rightarrow> bool"
  json_get :: "'j \<Rightarrow> string \<Rightarrow> 'j option"
  json_is_string :: "'j \<Rightarrow> bool"
  json_is_number :: "'j \<Rightarrow> bool"
  json_valuestring :: "'j \<Rightarrow> string option"
  json_valueint :: "'j \<Rightarrow> int"
  json_children :: "'j \<Rightarrow> 'j list"

section \<open>Memory\<close>

record memory =
  blocks :: "nat \<rightharpoonup> string"
  instances :: "nat \<rightharpoonup> ac_instance"
  ac_list :: ptr
  next_address :: nat

type_synonym ('m, 'a) task = "(esp_event, 'm memory_scheme, 'a) prog"

definition malloc :: "'j esp \<Rightarrow> nat \<Rightarrow> ('m, ptr) task" where
  "malloc E n = do {
     r \<leftarrow> call (\<lambda>h. e_malloc E h n) (\<lambda>r. Malloc n (r \<noteq> None));
     case r of
       None \<Rightarrow> ret None
     | Some junk \<Rightarrow> do {
         a \<leftarrow> reads next_address;
         modify (\<lambda>s. s\<lparr>blocks := (blocks s)(a \<mapsto> map junk [0..<n]), next_address := Suc a\<rparr>);
         ret (Some a) } }"

definition release :: "ptr \<Rightarrow> ('m, unit) task" where
  "release p =
     (case p of
        None \<Rightarrow> skip
      | Some a \<Rightarrow> do {
          m \<leftarrow> reads blocks;
          if m a = None then crash DanglingPointer
          else do {
            emit (Release a);
            modify (\<lambda>s. s\<lparr>blocks := (blocks s)(a := None)\<rparr>) } })"

text \<open>The bytes of a block, and a write of bytes at an offset in it.\<close>

definition load_block :: "ptr \<Rightarrow> ('m, string) task" where
  "load_block p =
     (case p of
        None \<Rightarrow> do { crash NullDeref; ret [] }
      | Some a \<Rightarrow> do {
          m \<leftarrow> reads blocks;
          case m a of
            None \<Rightarrow> do { crash DanglingPointer; ret [] }
          | Some bs \<Rightarrow> ret bs })"

definition overwrite :: "string \<Rightarrow> nat \<Rightarrow> string \<Rightarrow> string" where
  "overwrite bs i cs = take i bs @ cs @ drop (i + length cs) bs"

definition store_at :: "ptr \<Rightarrow> nat \<Rightarrow> string \<Rightarrow> ('m, unit) task" where
  "store_at p i cs = do {
     bs \<leftarrow> load_block p;
     if i + length cs \<le> length bs
     then modify (\<lambda>s. s\<lparr>blocks := (blocks s)(the p \<mapsto> overwrite bs i cs)\<rparr>)
     else crash BufferOverflow }"

text \<open>The string that starts a block: its bytes before the terminator, which must be there.\<close>

definition c_string :: "string \<Rightarrow> string" where
  "c_string bs = takeWhile (\<lambda>c. c \<noteq> NUL) bs"

definition load_string :: "ptr \<Rightarrow> ('m, string) task" where
  "load_string p = do {
     bs \<leftarrow> load_block p;
     if NUL \<in> set bs then ret (c_string bs)
     else do { crash BufferOverflow; ret [] } }"

text \<open>The string in an array of characters.\<close>

definition array_string :: "string \<Rightarrow> ('e, 'd, string) prog" where
  "array_string cs =
     (if NUL \<in> set cs then ret (c_string cs) else do { crash BufferOverflow; ret [] })"

text \<open>\<open>strcpy\<close> into an array; a source that is not terminated is read beyond its end.\<close>

definition strcpy_into :: "string \<Rightarrow> string \<Rightarrow> string exec" where
  "strcpy_into dst src =
     (if NUL \<notin> set src \<or> length dst < Suc (length (c_string src)) then abort BufferOverflow
      else ok (overwrite dst 0 (c_string src @ [NUL])))"

lemma release_after_fault: "fault w = Some f \<Longrightarrow> run_state (release p) w = ((), w)"
  by (simp add: release_def split: option.split)

end
