(* ===== verification/EspDemo.thy ===== *)
theory EspDemo
  imports EspState
begin

text \<open>
  A concrete system for the examples: base64 as RFC 4648 has it, a reversal of blocks in
  the place of AES, JSON trees as a datatype, and an operating system on which every call
  succeeds.
\<close>

section \<open>Base64\<close>

definition digits64 :: string where
  "digits64 = ''ABCDEFGHIJKLMNOPQRSTUVWXYZabcdefghijklmnopqrstuvwxyz0123456789+/''"

definition digit64 :: "nat \<Rightarrow> char" where
  "digit64 i = digits64 ! i"

fun position :: "char \<Rightarrow> string \<Rightarrow> nat" where
  "position c [] = 0"
| "position c (d # ds) = (if c = d then 0 else Suc (position c ds))"

definition value64 :: "char \<Rightarrow> nat" where
  "value64 c = position c digits64"

fun base64 :: "string \<Rightarrow> string" where
  "base64 (a # b # c # xs) =
     digit64 (of_char a div 4) #
     digit64 (of_char a mod 4 * 16 + of_char b div 16) #
     digit64 (of_char b mod 16 * 4 + of_char c div 64) #
     digit64 (of_char c mod 64) # base64 xs"
| "base64 [a, b] =
     [digit64 (of_char a div 4), digit64 (of_char a mod 4 * 16 + of_char b div 16),
      digit64 (of_char b mod 16 * 4), CHR ''='']"
| "base64 [a] = [digit64 (of_char a div 4), digit64 (of_char a mod 4 * 16), CHR ''='', CHR ''='']"
| "base64 [] = []"

fun unbase64 :: "string \<Rightarrow> string" where
  "unbase64 (p # q # r # s # ds) =
     char_of (value64 p * 4 + value64 q div 16) #
     (if r = CHR ''='' then []
      else char_of (value64 q mod 16 * 16 + value64 r div 4) #
        (if s = CHR ''='' then []
         else char_of (value64 r mod 4 * 64 + value64 s) # unbase64 ds))"
| "unbase64 _ = []"

lemma digit64_all: "\<forall>i \<in> set [0..<64]. value64 (digit64 i) = i \<and> digit64 i \<noteq> CHR ''='' \<and> digit64 i \<noteq> NUL"
  by code_simp

lemma digit64 [simp]:
  "i < 64 \<Longrightarrow> value64 (digit64 i) = i" "i < 64 \<Longrightarrow> digit64 i \<noteq> CHR ''=''"
  "i < 64 \<Longrightarrow> digit64 i \<noteq> NUL" "i < 64 \<Longrightarrow> NUL \<noteq> digit64 i"
  using digit64_all by (auto simp: eq_commute [of NUL])

lemma bytes:
  fixes a b c :: char
  shows "of_char a div 4 < (64 :: nat)" "of_char c mod 64 < (64 :: nat)"
    "of_char a mod 4 * 16 + of_char b div 16 < (64 :: nat)" "of_char a mod 4 * 16 < (64 :: nat)"
    "of_char b mod 16 * 4 + of_char c div 64 < (64 :: nat)" "of_char b mod 16 * 4 < (64 :: nat)"
    "of_char b div 16 div 16 = (0 :: nat)" "of_char c div 64 div 4 = (0 :: nat)"
    "of_char b div 16 mod 16 = (of_char b div 16 :: nat)"
    "of_char c div 64 mod 4 = (of_char c div 64 :: nat)"
proof -
  have byte: "(of_char d :: nat) < 256" for d :: char
    by (metis of_char_mod_256 mod_less_divisor zero_less_numeral)
  then show d: "of_char a div 4 < (64 :: nat)" "of_char b div 16 div 16 = (0 :: nat)"
    "of_char c div 64 div 4 = (0 :: nat)" "of_char c mod 64 < (64 :: nat)"
    by (simp_all add: div_mult2_eq [symmetric] div_less_iff_less_mult)
  have b: "of_char b div 16 < (16 :: nat)" and c: "of_char c div 64 < (4 :: nat)"
    using byte by (simp_all add: div_less_iff_less_mult)
  then show "of_char b div 16 mod 16 = (of_char b div 16 :: nat)"
    "of_char c div 64 mod 4 = (of_char c div 64 :: nat)" by simp_all
  have "of_char a mod 4 < (4 :: nat)" "of_char b mod 16 < (16 :: nat)" by simp_all
  with b c show "of_char a mod 4 * 16 + of_char b div 16 < (64 :: nat)"
    "of_char a mod 4 * 16 < (64 :: nat)"
    "of_char b mod 16 * 4 + of_char c div 64 < (64 :: nat)" "of_char b mod 16 * 4 < (64 :: nat)"
    by linarith+
qed

lemma unbase64_base64: "unbase64 (base64 xs) = xs"
  by (induction xs rule: base64.induct) (simp_all add: bytes)

lemma length_base64: "length (base64 xs) = 4 * ((length xs + 2) div 3)"
proof (induction xs rule: base64.induct)
  case (1 a b c xs)
  have "(5 + n) div 3 = Suc ((2 + n) div 3)" for n :: nat by presburger
  with 1 show ?case by simp
qed simp_all

lemma base64_no_NUL: "NUL \<notin> set (base64 xs)"
  by (induction xs rule: base64.induct) (simp_all add: bytes, simp_all add: NUL_def)

section \<open>JSON trees\<close>

datatype tree = Obj "(string \<times> tree) list" | Arr "tree list" | Txt string | is_Number: Number int

fun members :: "tree \<Rightarrow> (string \<times> tree) list" where
  "members (Obj ms) = ms"
| "members _ = []"

fun elements :: "tree \<Rightarrow> tree list" where
  "elements (Obj ms) = map snd ms"
| "elements (Arr xs) = xs"
| "elements _ = []"

fun add_member :: "tree \<Rightarrow> string \<Rightarrow> tree \<Rightarrow> tree" where
  "add_member (Obj ms) k x = Obj (ms @ [(k, x)])"
| "add_member t k x = t"

fun append_element :: "tree \<Rightarrow> tree \<Rightarrow> tree" where
  "append_element (Arr xs) x = Arr (xs @ [x])"
| "append_element t x = t"

fun text_of :: "tree \<Rightarrow> string option" where
  "text_of (Txt s) = Some s"
| "text_of _ = None"

fun int_of :: "tree \<Rightarrow> int" where
  "int_of (Number n) = n"
| "int_of _ = 0"

definition quote :: "string \<Rightarrow> string" where
  "quote s = [CHR 0x22] @ s @ [CHR 0x22]"

fun join :: "string list \<Rightarrow> string" where
  "join [] = []"
| "join [x] = x"
| "join (x # xs) = x @ '','' @ join xs"

fun print_tree :: "tree \<Rightarrow> string" where
  "print_tree (Obj ms) = ''{'' @ join (map (\<lambda>(k, x). quote k @ '':'' @ print_tree x) ms) @ ''}''"
| "print_tree (Arr xs) = ''['' @ join (map print_tree xs) @ '']''"
| "print_tree (Txt s) = quote s"
| "print_tree (Number n) = (if n < 0 then ''-'' else []) @ decimal (nat \<bar>n\<bar>)"

section \<open>A system on which every call succeeds\<close>

definition demo_esp :: "(string \<Rightarrow> tree option) \<Rightarrow> tree esp" where
  "demo_esp parse = \<lparr>
     e_malloc = (\<lambda>h n. Some (\<lambda>_. NUL)),
     e_instance = (\<lambda>h. None),
     e_wait = (\<lambda>h g b. b),
     e_take = (\<lambda>h m. True),
     e_send = (\<lambda>h q. True),
     e_receive_wifi = (\<lambda>h. Some wifi_zero),
     e_receive_udp = (\<lambda>h. Some udp_zero),
     e_receive_ac = (\<lambda>h. Some ac_zero),
     e_message_send = (\<lambda>h m bs. length bs),
     e_message_receive = (\<lambda>h m n. []),
     e_wifi = (\<lambda>h c. 0),
     e_netif = (\<lambda>h. Some 0),
     e_scan_records = (\<lambda>h. []),
     e_scan_count = (\<lambda>h. 0),
     e_events = (\<lambda>h. []),
     e_socket = (\<lambda>h. 3),
     e_send_to = (\<lambda>h. 0),
     e_select = (\<lambda>h. (1, True)),
     e_receive_from = (\<lambda>h n. (None, [], 0)),
     e_handle = (\<lambda>h s. True),
     e_json_memory = (\<lambda>h. True),
     aes_setkey = (\<lambda>k. if length k \<in> {16, 24, 32} then 0 else -32),
     aes_encrypt = (\<lambda>k b. (0, rev b)),
     aes_decrypt = (\<lambda>k b. (0, rev b)),
     b64_encode = (\<lambda>n xs. if length (base64 xs) < n then (0, base64 xs @ [NUL]) else (-42, [])),
     b64_decode = (\<lambda>n cs. if length (unbase64 cs) \<le> n then (0, length (unbase64 cs), unbase64 cs)
       else (-42, length (unbase64 cs), [])),
     json_object = Obj [],
     json_array = Arr [],
     json_string = Txt,
     json_number = Number,
     json_add = add_member,
     json_append = append_element,
     json_print = print_tree,
     json_print_into = (\<lambda>n t. if length (print_tree t) < n then Some (print_tree t) else None),
     json_parse = parse,
     json_has = (\<lambda>t k. map_of (members t) k \<noteq> None),
     json_get = (\<lambda>t k. map_of (members t) k),
     json_is_string = (\<lambda>t. text_of t \<noteq> None),
     json_is_number = (\<lambda>t. is_Number t),
     json_valuestring = text_of,
     json_valueint = int_of,
     json_children = elements\<rparr>"

end
