(* ===== verification/AcCrypto.thy ===== *)
theory AcCrypto
  imports EspDemo
begin

text \<open>
  The encryption of messages in \<open>firmware_esp32/main/ac_gree.c\<close>: \<open>get_output_length\<close>,
  \<open>ac_encrypt\<close> (padding, AES in ECB mode, base64) and \<open>ac_decrypt\<close>. AES and base64 are mbedTLS,
  hence parameters; the theorems use what \<open>mbedtls_works\<close> says of them, which is what the
  library documents. \<open>get_output_length\<close> computes in floating point; the section on bounds
  shows up to which length its result is enough.
\<close>

section \<open>Operations\<close>

definition generic_key :: string where "generic_key = ''a3K8Bx%2r8Y7#xDh''"

definition wrap32 :: "nat \<Rightarrow> nat" where "wrap32 n = n mod 2 ^ 32"

text \<open>The conversion of a floating value to \<open>size_t\<close>.\<close>

definition to_size :: "double \<Rightarrow> nat exec" where
  "to_size x =
     (case x of
        Num q \<Rightarrow> if -1 < q \<and> q < 2 ^ 32 then ok (nat (trunc q)) else abort BadConversion
      | _ \<Rightarrow> abort BadConversion)"

definition get_output_length :: "nat \<Rightarrow> nat exec" where
  "get_output_length n =
     to_size (dadd
       (dmul (dint (int (wrap32 ((wrap32 ((n div 16 + 1) * 16) div 3 + 1) * 3))))
         (Num (rnd (133333 / 100000))))
       (dint 3))"

text \<open>Reading some bytes at an offset of a block.\<close>

definition load_at :: "ptr \<Rightarrow> nat \<Rightarrow> nat \<Rightarrow> ('m, string) task" where
  "load_at p i n = do {
     bs \<leftarrow> load_block p;
     if i + n \<le> length bs then ret (take n (drop i bs))
     else do { crash BufferOverflow; ret [] } }"

text \<open>The loop over the blocks of 16 bytes; it ends early when the cipher reports an error.\<close>

fun crypt_blocks :: "(string \<Rightarrow> int \<times> string) \<Rightarrow> ptr \<Rightarrow> ptr \<Rightarrow> nat list \<Rightarrow> ('m, bool) task" where
  "crypt_blocks f from to [] = ret True"
| "crypt_blocks f from to (i # is) = do {
     block \<leftarrow> load_at from (i * 16) 16;
     (case f block of (err, out) \<Rightarrow>
       if err \<noteq> 0 then ret False
       else do { store_at to (i * 16) out; crypt_blocks f from to is }) }"

text \<open>The key is a string that is read when the cipher is set up.\<close>

definition ac_encrypt :: "'j esp \<Rightarrow> ('m, string) task \<Rightarrow> ptr \<Rightarrow> nat \<Rightarrow> ptr \<Rightarrow> nat \<Rightarrow> ('m, bool) task" where
  "ac_encrypt E key plain_text in_len output_buffer out_len = do {
     let number_blocks = in_len div 16 + 1;
     let padding_length = 16 - in_len mod 16;
     need \<leftarrow> perform 0 (get_output_length in_len);
     if out_len < need then ret False
     else do {
       tmp_in \<leftarrow> malloc E (wrap32 (number_blocks * 16));
       if tmp_in = None then ret False
       else do {
         tmp_out \<leftarrow> malloc E (wrap32 (number_blocks * 16));
         if tmp_out = None then do { release tmp_in; ret False }
         else do {
           plain \<leftarrow> load_at plain_text 0 in_len;
           store_at tmp_in 0 plain;
           store_at tmp_in ((number_blocks - 1) * 16 + in_len mod 16)
             (replicate padding_length (char_of padding_length));
           k \<leftarrow> key;
           if aes_setkey E k \<noteq> 0 then do { release tmp_in; release tmp_out; ret False }
           else do {
             done \<leftarrow> crypt_blocks (aes_encrypt E k) tmp_in tmp_out [0..<number_blocks];
             if \<not> done then do { release tmp_in; release tmp_out; ret False }
             else do {
               cipher \<leftarrow> load_at tmp_out 0 (wrap32 (number_blocks * 16));
               (case b64_encode E out_len cipher of (err, written) \<Rightarrow>
                 store_at output_buffer 0 written);
               release tmp_in;
               release tmp_out;
               ret True } } } } } }"

definition ac_decrypt :: "'j esp \<Rightarrow> ('m, string) task \<Rightarrow> string \<Rightarrow> ptr \<Rightarrow> nat \<Rightarrow> ('m, bool) task" where
  "ac_decrypt E key chipher_text output_buffer out_len =
     (case b64_decode E 0 chipher_text of (_, olen, _) \<Rightarrow>
      if olen mod 16 \<noteq> 0 then ret False
      else if out_len < olen then ret False
      else do {
        tmp_in \<leftarrow> malloc E olen;
        if tmp_in = None then ret False
        else
          (case b64_decode E olen chipher_text of (err, olen, written) \<Rightarrow> do {
             store_at tmp_in 0 written;
             if err \<noteq> 0 then do { release tmp_in; ret False }
             else do {
               k \<leftarrow> key;
               if aes_setkey E k \<noteq> 0 then do { release tmp_in; ret False }
               else do {
                 let number_blocks = olen div 16;
                 done \<leftarrow> crypt_blocks (aes_decrypt E k) tmp_in output_buffer [0..<number_blocks];
                 if \<not> done then do { release tmp_in; ret False }
                 else if olen = 0 then do { crash BufferOverflow; ret False }
                 else do {
                   last_byte \<leftarrow> load_at output_buffer (olen - 1) 1;
                   let padding_length = of_char (hd last_byte);
                   (if number_blocks * 16 < padding_length then crash BufferOverflow
                    else store_at output_buffer (number_blocks * 16 - padding_length)
                      (replicate padding_length NUL));
                   release tmp_in;
                   ret True } } } }) })"

section \<open>Memory\<close>

lemma run_load_block [simp]:
  "blocks (vars w) a = Some bs \<Longrightarrow> run_state (load_block (Some a)) w = (bs, w)"
  by (simp add: load_block_def)

lemma run_store_at:
  "fault w = None \<Longrightarrow> blocks (vars w) a = Some bs \<Longrightarrow> i + length cs \<le> length bs \<Longrightarrow>
   run_state (store_at (Some a) i cs) w =
     ((), w\<lparr>vars := (vars w)\<lparr>blocks := (blocks (vars w))(a \<mapsto> overwrite bs i cs)\<rparr>\<rparr>)"
  by (simp add: store_at_def)

lemma run_load_at:
  "blocks (vars w) a = Some bs \<Longrightarrow> i + n \<le> length bs \<Longrightarrow>
   run_state (load_at (Some a) i n) w = (take n (drop i bs), w)"
  by (simp add: load_at_def)

lemma run_malloc:
  assumes "fault w = None"
  shows "run_state (malloc E n) w =
    (case e_malloc E (history w) n of
       None \<Rightarrow> (None, w\<lparr>history := Malloc n False # history w\<rparr>)
     | Some junk \<Rightarrow> (Some (next_address (vars w)),
         w\<lparr>history := Malloc n True # history w,
           vars := (vars w)\<lparr>blocks := (blocks (vars w))(next_address (vars w) \<mapsto> map junk [0..<n]),
             next_address := Suc (next_address (vars w))\<rparr>\<rparr>))"
  using assms by (simp add: malloc_def split: option.split)

lemma length_overwrite [simp]:
  "i + length cs \<le> length bs \<Longrightarrow> length (overwrite bs i cs) = length bs"
  by (simp add: overwrite_def)

section \<open>The loop over the blocks\<close>

definition block_no :: "string \<Rightarrow> nat \<Rightarrow> string" where
  "block_no xs i = take 16 (drop (16 * i) xs)"

definition blockwise :: "(string \<Rightarrow> string) \<Rightarrow> string \<Rightarrow> nat list \<Rightarrow> string" where
  "blockwise g xs is = concat (map (\<lambda>i. g (block_no xs i)) is)"

lemma length_block_no: "16 * Suc i \<le> length xs \<Longrightarrow> length (block_no xs i) = 16"
  by (simp add: block_no_def)

lemma run_crypt_blocks:
  assumes "\<And>b. length b = 16 \<Longrightarrow> f b = (0, g b) \<and> length (g b) = 16"
    "fault w = None" "blocks (vars w) p = Some xs" "blocks (vars w) q = Some ys" "p \<noteq> q"
    "16 * n \<le> length xs" "16 * n \<le> length ys" "k \<le> n"
  shows "run_state (crypt_blocks f (Some p) (Some q) [k..<n]) w =
    (True, w\<lparr>vars := (vars w)\<lparr>blocks := (blocks (vars w))(q \<mapsto>
       take (16 * k) ys @ blockwise g xs [k..<n] @ drop (16 * n) ys)\<rparr>\<rparr>)"
  using assms(2-8)
proof (induction "n - k" arbitrary: k w ys)
  case 0
  then show ?case by (simp add: blockwise_def fun_upd_idem)
next
  case (Suc m)
  then have k: "k < n" "16 * Suc k \<le> length xs" "16 * Suc k \<le> length ys" by simp_all
  have b: "take 16 (drop (k * 16) xs) = block_no xs k" by (simp add: block_no_def mult.commute)
  have f: "f (block_no xs k) = (0, g (block_no xs k))" "length (g (block_no xs k)) = 16"
    using assms(1) length_block_no [OF k(2)] by auto
  let ?ys = "overwrite ys (k * 16) (g (block_no xs k))"
  let ?w = "w\<lparr>vars := (vars w)\<lparr>blocks := (blocks (vars w))(q \<mapsto> ?ys)\<rparr>\<rparr>"
  have "length ?ys = length ys" using f k by simp
  then have IH: "run_state (crypt_blocks f (Some p) (Some q) [Suc k..<n]) ?w =
      (True, ?w\<lparr>vars := (vars ?w)\<lparr>blocks := (blocks (vars ?w))(q \<mapsto>
         take (16 * Suc k) ?ys @ blockwise g xs [Suc k..<n] @ drop (16 * n) ?ys)\<rparr>\<rparr>)"
    using Suc.prems Suc.hyps(2) k by (intro Suc.hyps(1)) auto
  have "take (16 * Suc k) ?ys = take (16 * k) ys @ g (block_no xs k)"
    "drop (16 * n) ?ys = drop (16 * n) ys"
    using f(2) k by (simp_all add: overwrite_def mult.commute)
  moreover have "blockwise g xs [k..<n] = g (block_no xs k) @ blockwise g xs [Suc k..<n]"
    using k(1) by (simp add: blockwise_def upt_conv_Cons)
  ultimately show ?case
    using Suc.prems k f by (simp add: upt_conv_Cons run_load_at run_store_at b IH)
qed

section \<open>The length of the output\<close>

lemma rnd_constant: "rnd (133333 / 100000) = of_int 6004784491161903 / 2 ^ 52"
proof -
  let ?q = "133333 / 100000 :: rat"
  have e: "expo ?q = 0" by (rule expo_unique) simp_all
  have "\<lfloor>?q * 2 ^ 52\<rfloor> = 6004784491161903" by (simp add: floor_eq_iff)
  then have "half_even (?q * 2 ^ 52) = 6004784491161903"
    by (simp add: half_even_def Let_def)
  then show ?thesis
    by (simp add: rnd_def round_pos_def e power_int_def power_divide)
qed

definition base64_length :: "nat \<Rightarrow> nat" where
  "base64_length n = 4 * ((n + 2) div 3)"

definition encrypted_length :: "nat \<Rightarrow> nat" where
  "encrypted_length n = 16 * (n div 16 + 1)"

lemma rnd_between:
  assumes "of_int a \<le> q" "q \<le> of_int b" "\<bar>a\<bar> < 2 ^ 53" "\<bar>b\<bar> < 2 ^ 53"
  shows "of_int a \<le> rnd q" "rnd q \<le> of_int b"
  using assms(1,2) [THEN rnd_mono] assms(3,4) by (simp_all add: rnd_int)

lemma output_length_enough:
  assumes "n < 599984"
  obtains m where "get_output_length n = ok m" "base64_length (encrypted_length n) < m"
proof -
  let ?N = "16 * (n div 16 + 1)" and ?c = "rnd (133333 / 100000)"
  define M :: int where "M = int (?N div 3 + 1)"
  have "n div 16 \<le> 599983 div 16" using assms by (intro div_le_mono) simp
  then have N: "?N \<le> 599984" by simp
  then have "?N div 3 \<le> 599984 div 3" by (intro div_le_mono)
  then have M: "0 < M" "M \<le> 199995" by (auto simp: M_def)
  have w: "int (wrap32 ((wrap32 ((n div 16 + 1) * 16) div 3 + 1) * 3)) = 3 * M"
    using N by (simp add: wrap32_def M_def mult.commute)
  let ?x = "rnd (of_int (3 * M) * ?c)"
  have "of_int (4 * M - 2) \<le> (of_int (3 * M) :: rat) * ?c" "(of_int (3 * M) :: rat) * ?c \<le> of_int (4 * M)"
    unfolding rnd_constant using M by (simp_all add: field_simps)
  from rnd_between [OF this] have x: "of_int (4 * M - 2) \<le> ?x" "?x \<le> of_int (4 * M)"
    using M by simp_all
  then have "of_int (4 * M + 1) \<le> ?x + 3" "?x + 3 \<le> of_int (4 * M + 3)" by simp_all
  from rnd_between [OF this]
  have y: "of_int (4 * M + 1) \<le> rnd (?x + 3)" "rnd (?x + 3) \<le> of_int (4 * M + 3)"
    using M by simp_all
  have "(of_int (4 * M + 3) :: rat) \<le> of_int 799983" "(of_int 0 :: rat) \<le> of_int (4 * M + 1)"
    using M by (simp_all only: of_int_le_iff)
  with y have "0 \<le> rnd (?x + 3)" "rnd (?x + 3) < 2 ^ 32" by simp_all
  then have L: "get_output_length n = ok (nat \<lfloor>rnd (?x + 3)\<rfloor>)"
    unfolding get_output_length_def w using M by (simp add: to_size_def trunc_def)
  have "4 * M + 1 \<le> \<lfloor>rnd (?x + 3)\<rfloor>" using y(1) by (simp add: le_floor_iff)
  moreover have "(m + 2) div 3 \<le> m div 3 + 1" for m :: nat by presburger
  from this [of ?N] have "(?N + 2) div 3 \<le> ?N div 3 + 1" .
  then have "int (base64_length (encrypted_length n)) \<le> 4 * M"
    by (simp add: base64_length_def encrypted_length_def M_def)
  ultimately have "base64_length (encrypted_length n) < nat \<lfloor>rnd (?x + 3)\<rfloor>" by linarith
  with L show ?thesis by (rule that)
qed

section \<open>Encryption and decryption\<close>

text \<open>
  What mbedTLS documents: a key of a valid length is accepted; AES maps blocks of 16 bytes
  to such blocks, and decryption inverts encryption; base64 writes four characters for each
  three bytes begun and a terminator, if there is room for all of them; decoding reports the
  length of the data, and writes the data if there is room for it.
\<close>

definition mbedtls_works :: "'j esp \<Rightarrow> string \<Rightarrow> (string \<Rightarrow> string) \<Rightarrow> bool" where
  "mbedtls_works E key b64 \<longleftrightarrow> aes_setkey E key = 0 \<and>
     (\<forall>b. length b = 16 \<longrightarrow>
        fst (aes_encrypt E key b) = 0 \<and> length (snd (aes_encrypt E key b)) = 16 \<and>
        fst (aes_decrypt E key b) = 0 \<and> length (snd (aes_decrypt E key b)) = 16 \<and>
        snd (aes_decrypt E key (snd (aes_encrypt E key b))) = b) \<and>
     (\<forall>xs. length (b64 xs) = base64_length (length xs) \<and> NUL \<notin> set (b64 xs)) \<and>
     (\<forall>xs n. length (b64 xs) < n \<longrightarrow> b64_encode E n xs = (0, b64 xs @ [NUL])) \<and>
     (\<forall>xs n. fst (snd (b64_decode E n (b64 xs))) = length xs) \<and>
     (\<forall>xs n. length xs \<le> n \<longrightarrow> b64_decode E n (b64 xs) = (0, length xs, xs))"

text \<open>The padded text, and the text that a run of \<open>ac_encrypt\<close> writes for it.\<close>

definition padding :: "nat \<Rightarrow> nat" where
  "padding n = 16 - n mod 16"

definition padded :: "string \<Rightarrow> string" where
  "padded xs = xs @ replicate (padding (length xs)) (char_of (padding (length xs)))"

definition cipher_text :: "'j esp \<Rightarrow> string \<Rightarrow> string \<Rightarrow> string" where
  "cipher_text E key xs =
     blockwise (\<lambda>b. snd (aes_encrypt E key b)) (padded xs) [0..<length xs div 16 + 1]"

lemma length_padded: "length (padded xs) = encrypted_length (length xs)"
proof -
  have "n + (16 - n mod 16) = 16 * (n div 16 + 1)" for n :: nat by presburger
  from this [of "length xs"] show ?thesis
    by (simp add: padded_def padding_def encrypted_length_def)
qed

lemma length_blockwise:
  assumes "\<And>b. length b = 16 \<Longrightarrow> length (g b) = 16" "16 * n \<le> length xs"
  shows "length (blockwise g xs [0..<n]) = 16 * n"
  using assms(2)
  by (induction n) (simp_all add: blockwise_def assms(1) length_block_no)

text \<open>Doing and undoing the blocks.\<close>

lemma block_no_blockwise:
  assumes "\<And>b. length b = 16 \<Longrightarrow> length (g b) = 16" "16 * n \<le> length xs" "i < n"
  shows "block_no (blockwise g xs [0..<n]) i = g (block_no xs i)"
proof -
  have upt: "[0..<n] = [0..<i] @ i # [Suc i..<n]"
    using assms(3) upt_add_eq_append [of 0 i "n - i"] by (simp add: upt_conv_Cons)
  have "blockwise g xs [0..<n] = blockwise g xs [0..<i] @ g (block_no xs i) @ blockwise g xs [Suc i..<n]"
    unfolding upt by (simp add: blockwise_def)
  moreover have "length (blockwise g xs [0..<i]) = 16 * i" "length (g (block_no xs i)) = 16"
    using assms by (auto intro!: length_blockwise assms(1) length_block_no)
  ultimately show ?thesis by (simp add: block_no_def)
qed

lemma blockwise_id:
  assumes "length xs = 16 * n"
  shows "blockwise (\<lambda>b. b) xs [0..<n] = xs"
proof -
  have "blockwise (\<lambda>b. b) xs [0..<k] = take (16 * k) xs" if "k \<le> n" for k
    using that
  proof (induction k)
    case 0
    then show ?case by (simp add: blockwise_def)
  next
    case (Suc k)
    then have "take (16 * k) xs @ block_no xs k = take (16 * Suc k) xs"
      by (simp add: block_no_def take_add [symmetric] add.commute)
    with Suc show ?case by (simp add: blockwise_def)
  qed
  with assms show ?thesis by simp
qed

lemma blockwise_inverse:
  assumes "\<And>b. length b = 16 \<Longrightarrow> length (g b) = 16 \<and> h (g b) = b" "length xs = 16 * n"
  shows "blockwise h (blockwise g xs [0..<n]) [0..<n] = xs"
proof -
  have "map (\<lambda>i. h (block_no (blockwise g xs [0..<n]) i)) [0..<n] = map (\<lambda>i. block_no xs i) [0..<n]"
    using assms by (auto simp: block_no_blockwise length_block_no)
  then have "blockwise h (blockwise g xs [0..<n]) [0..<n] = blockwise (\<lambda>b. b) xs [0..<n]"
    unfolding blockwise_def by (rule arg_cong)
  with assms(2) show ?thesis by (simp add: blockwise_id)
qed

lemma length_cipher_text:
  "mbedtls_works E key b64 \<Longrightarrow> length (cipher_text E key xs) = encrypted_length (length xs)"
  unfolding cipher_text_def encrypted_length_def
  by (rule length_blockwise)
    (use length_padded [of xs] in \<open>auto simp: mbedtls_works_def encrypted_length_def\<close>)

text \<open>Fresh memory: no block lies at an address that was not given out.\<close>

definition fresh_memory :: "'m memory_scheme \<Rightarrow> bool" where
  "fresh_memory s \<longleftrightarrow> (\<forall>a \<ge> next_address s. blocks s a = None)"

lemma fresh_memory_upd:
  assumes "fresh_memory s" "blocks s c = Some bs" "next_address s \<le> n"
  shows "fresh_memory (s\<lparr>blocks := (blocks s)(c \<mapsto> cs), next_address := n\<rparr>)"
  using assms by (auto simp: fresh_memory_def)

lemma run_release_some:
  "fault w = None \<Longrightarrow> blocks (vars w) a = Some bs \<Longrightarrow>
   run_state (release (Some a)) w =
     ((), w\<lparr>history := Release a # history w, vars := (vars w)\<lparr>blocks := (blocks (vars w))(a := None)\<rparr>\<rparr>)"
  by (simp add: release_def)

text \<open>The loops over the blocks, with a cipher that works.\<close>

lemma run_encrypt_blocks:
  assumes "mbedtls_works E key b64" "fault v = None" "blocks (vars v) p = Some (padded xs)"
    "blocks (vars v) q = Some ys" "length ys = encrypted_length (length xs)" "p \<noteq> q"
  shows "run_state (crypt_blocks (aes_encrypt E key) (Some p) (Some q) [0..<Suc (length xs div 16)]) v =
    (True, v\<lparr>vars := (vars v)\<lparr>blocks := (blocks (vars v))(q \<mapsto> cipher_text E key xs)\<rparr>\<rparr>)"
proof -
  let ?n = "Suc (length xs div 16)"
  have cb: "aes_encrypt E key b = (0, snd (aes_encrypt E key b)) \<and> length (snd (aes_encrypt E key b)) = 16"
    if "length b = 16" for b
    using assms(1) that by (auto simp: mbedtls_works_def prod_eq_iff)
  have "16 * ?n = encrypted_length (length xs)" by (simp add: encrypted_length_def)
  moreover from this have "16 * ?n \<le> length (padded xs)" by (simp add: length_padded)
  ultimately show ?thesis
    using run_crypt_blocks [OF cb assms(2-4,6), where n = ?n and k = 0] assms(5)
    by (simp add: cipher_text_def del: upt_Suc)
qed

lemma run_decrypt_blocks:
  assumes "mbedtls_works E key b64" "fault v = None" "blocks (vars v) p = Some (cipher_text E key xs)"
    "blocks (vars v) q = Some buf" "encrypted_length (length xs) \<le> length buf" "p \<noteq> q"
  shows "run_state (crypt_blocks (aes_decrypt E key) (Some p) (Some q) [0..<Suc (length xs div 16)]) v =
    (True, v\<lparr>vars := (vars v)\<lparr>blocks :=
       (blocks (vars v))(q \<mapsto> padded xs @ drop (encrypted_length (length xs)) buf)\<rparr>\<rparr>)"
proof -
  let ?n = "Suc (length xs div 16)" and ?h = "\<lambda>b. snd (aes_decrypt E key b)"
  let ?x = "cipher_text E key xs"
  have ed: "length (snd (aes_encrypt E key b)) = 16 \<and> ?h (snd (aes_encrypt E key b)) = b"
    if "length b = 16" for b using assms(1) that by (auto simp: mbedtls_works_def)
  have cb: "aes_decrypt E key b = (0, ?h b) \<and> length (?h b) = 16" if "length b = 16" for b
    using assms(1) that by (auto simp: mbedtls_works_def prod_eq_iff)
  have "blockwise ?h ?x [0..<?n] = padded xs"
    unfolding cipher_text_def using blockwise_inverse [of "\<lambda>b. snd (aes_encrypt E key b)" ?h "padded xs" ?n] ed
    by (simp add: length_padded encrypted_length_def)
  moreover have "16 * ?n = encrypted_length (length xs)" by (simp add: encrypted_length_def)
  ultimately show ?thesis
    using run_crypt_blocks [OF cb assms(2-4,6), where n = ?n and k = 0] assms(5) length_cipher_text [OF assms(1)]
    by (simp del: upt_Suc)
qed

lemma padding_block: "length (xs :: string) + (16 - length xs mod 16) = encrypted_length (length xs)"
  "length xs \<le> encrypted_length (length xs)"
  using length_padded [of xs] by (simp_all add: padded_def padding_def)

lemma run_ac_encrypt:
  assumes "mbedtls_works E key b64" "\<And>h k. e_malloc E h k \<noteq> None"
    "fault w = None" "fresh_memory (vars w)" "blocks (vars w) a = Some (xs @ rest)"
    "blocks (vars w) c = Some buf" "length xs < 599984"
    "get_output_length (length xs) = ok m" "m \<le> length buf"
  defines "k \<equiv> next_address (vars w)" and "N \<equiv> encrypted_length (length xs)"
  shows "run_state (ac_encrypt E (ret key) (Some a) (length xs) (Some c) (length buf)) w =
    (True, w\<lparr>history := Release (Suc k) # Release k # Malloc N True # Malloc N True # history w,
       vars := (vars w)\<lparr>
         blocks := (blocks (vars w))(c \<mapsto> overwrite buf 0 (b64 (cipher_text E key xs) @ [NUL])),
         next_address := Suc (Suc k)\<rparr>\<rparr>)"
proof -
  let ?n = "Suc (length xs div 16)"
  have N: "wrap32 (?n * 16) = N"
  proof -
    have "length xs div 16 \<le> 599984 div 16" using assms(7) by (intro div_le_mono) simp
    then show ?thesis by (simp add: wrap32_def N_def encrypted_length_def)
  qed
  have neq: "a \<noteq> k" "a \<noteq> Suc k" "c \<noteq> k" "c \<noteq> Suc k"
    using assms(4-6) by (auto simp: fresh_memory_def k_def)
  then have gone: "(blocks (vars w))(c \<mapsto> bs, k := None, Suc k := None) = (blocks (vars w))(c \<mapsto> bs)"
    for bs
    using assms(4) by (auto simp: fun_eq_iff fresh_memory_def k_def)
  have set: "aes_setkey E key = 0" using assms(1) by (simp add: mbedtls_works_def)
  have len: "length (cipher_text E key xs) = N"
    using length_cipher_text [OF assms(1)] by (simp add: N_def)
  obtain m' where m': "get_output_length (length xs) = ok m'" "base64_length N < m'"
    using output_length_enough [OF assms(7)] unfolding N_def by blast
  have enough: "base64_length N < length buf" using m' assms(8,9) by simp
  then have b64: "b64_encode E (length buf) (cipher_text E key xs) = (0, b64 (cipher_text E key xs) @ [NUL])"
    "Suc (length (b64 (cipher_text E key xs))) \<le> length buf"
    using assms(1) len by (simp_all add: mbedtls_works_def)
  obtain j1 where j1: "e_malloc E (history w) N = Some j1" using assms(2) by blast
  obtain j2 where j2: "e_malloc E (Malloc N True # history w) N = Some j2" using assms(2) by blast
  have pos: "length xs div 16 * 16 + length xs mod 16 = length xs" "length xs \<le> N"
    "length xs + (16 - length xs mod 16) = N"
    using padding_block [of xs] by (simp_all add: N_def)
  have pad: "overwrite (overwrite (map j1 [0..<N]) 0 xs) (length xs)
      (replicate (16 - length xs mod 16) (char_of (16 - length xs mod 16))) = padded xs"
    using pos by (simp add: overwrite_def padded_def padding_def)
  show ?thesis
    unfolding ac_encrypt_def
    using assms(3,5,6,8,9) neq
    by (simp add: Let_def N N [simplified] run_malloc j1 j2 run_load_at run_store_at pos [simplified] set
        pad run_encrypt_blocks [OF assms(1)] len b64 run_release_some gone del: upt_Suc flip: k_def N_def)
qed

text \<open>Undoing the padding: the last byte says how many bytes it has.\<close>

lemma padding_byte: "padding n mod 256 = padding n"
  by (simp add: padding_def)

lemma padding_pos: "0 < padding n" "padding n \<le> 16"
  by (simp_all add: padding_def)

lemma padded_snoc:
  obtains ys where "padded xs = ys @ [char_of (padding (length xs))]"
proof -
  obtain p where "padding (length xs) = Suc p" using padding_pos(1) gr0_implies_Suc by blast
  then have "padded xs = (xs @ replicate p (char_of (padding (length xs)))) @ [char_of (padding (length xs))]"
    by (simp add: padded_def replicate_append_same)
  then show ?thesis by (rule that)
qed

text \<open>What is left in the buffer: the text, and zeros for the padding.\<close>

definition plain_text :: "string \<Rightarrow> string" where
  "plain_text xs = xs @ replicate (padding (length xs)) NUL"

lemma length_plain_text: "length (plain_text xs) = encrypted_length (length xs)"
  using length_padded [of xs] by (simp add: plain_text_def padded_def)

lemma last_padded: "drop (encrypted_length (length xs) - Suc 0) (padded xs) = [char_of (padding (length xs))]"
proof -
  obtain ys where ys: "padded xs = ys @ [char_of (padding (length xs))]" by (rule padded_snoc)
  with length_padded [of xs] have "length ys = encrypted_length (length xs) - 1" by simp
  with ys show ?thesis by simp
qed

lemma run_ac_decrypt:
  assumes "mbedtls_works E key b64" "\<And>h k. e_malloc E h k \<noteq> None"
    "fault w = None" "fresh_memory (vars w)" "blocks (vars w) c = Some buf"
    "out_len \<le> length buf" "encrypted_length (length xs) \<le> out_len"
  defines "k \<equiv> next_address (vars w)" and "N \<equiv> encrypted_length (length xs)"
  shows "run_state (ac_decrypt E (ret key) (b64 (cipher_text E key xs)) (Some c) out_len) w =
    (True, w\<lparr>history := Release k # Malloc N True # history w,
       vars := (vars w)\<lparr>
         blocks := (blocks (vars w))(c \<mapsto> plain_text xs @ drop N buf),
         next_address := Suc k\<rparr>\<rparr>)"
proof -
  let ?n = "Suc (length xs div 16)"
  let ?x = "cipher_text E key xs"
  have N: "N = ?n * 16" "0 < N" by (simp_all add: N_def encrypted_length_def)
  have neq: "c \<noteq> k" using assms(4,5) by (auto simp: fresh_memory_def k_def)
  then have gone: "(blocks (vars w))(c \<mapsto> bs, k := None) = (blocks (vars w))(c \<mapsto> bs)" for bs
    using assms(4) by (auto simp: fun_eq_iff fresh_memory_def k_def)
  have set: "aes_setkey E key = 0" using assms(1) by (simp add: mbedtls_works_def)
  have len: "length ?x = N" using length_cipher_text [OF assms(1)] by (simp add: N_def)
  have "fst (snd (b64_decode E 0 (b64 ?x))) = N" using assms(1) len by (simp add: mbedtls_works_def)
  then obtain e ys where b64: "b64_decode E 0 (b64 ?x) = (e, N, ys)"
    by (cases "b64_decode E 0 (b64 ?x)") auto
  have dec: "b64_decode E N (b64 ?x) = (0, N, ?x)" using assms(1) len by (simp add: mbedtls_works_def)
  obtain j where j: "e_malloc E (history w) N = Some j" using assms(2) by blast
  have pad: "overwrite (padded xs @ drop N buf) (N - padding (length xs))
      (replicate (padding (length xs)) NUL) = plain_text xs @ drop N buf"
    using length_padded [of xs] padding_pos(2) [of "length xs"]
    by (simp add: overwrite_def N_def padded_def plain_text_def)
  have start: "overwrite (map j [0..<N]) 0 ?x = ?x" using len by (simp add: overwrite_def)
  have div: "N mod 16 = 0" "N div 16 = ?n" "?n * 16 = N" "\<not> N < padding (length xs)"
    "N - padding (length xs) + padding (length xs) = N"
    using N padding_pos(2) [of "length xs"] by simp_all
  show ?thesis
    unfolding ac_decrypt_def
    using assms(3,5,6,7) neq N(2)
    by (simp add: Let_def b64 dec run_malloc j run_load_at run_store_at set run_decrypt_blocks [OF assms(1)] last_padded [of xs, folded N_def] pad padding_byte
        start div(1,2) div(3) [simplified] div(4,5) length_plain_text
        len run_release_some gone length_padded del: upt_Suc flip: k_def N_def)
qed

text \<open>C4: What \<open>ac_encrypt\<close> writes, \<open>ac_decrypt\<close> reads back. For every text of less than 599984
  bytes, in a buffer of the size \<open>get_output_length\<close> asks for, with a key mbedTLS accepts and
  memory for the temporary buffers: \<open>ac_encrypt\<close> succeeds and leaves a terminated base64 text;
  \<open>ac_decrypt\<close> of that text with the same key, into a buffer of its length, succeeds and
  leaves the plain text with zeros behind it, so that it is a C string. No other block of
  memory has changed, and the temporary buffers are released.
\<close>

theorem ac_decrypt_encrypt:
  assumes "mbedtls_works E key b64" "\<And>h k. e_malloc E h k \<noteq> None"
    "fault w = None" "fresh_memory (vars w)"
    "blocks (vars w) a = Some (xs @ rest)" "length xs < 599984"
    "blocks (vars w) c = Some buf" "get_output_length (length xs) = ok (length buf)"
    "blocks (vars w) d = Some out" "length out = length (b64 (cipher_text E key xs))" "d \<noteq> c"
  shows "(case run_state (do {
      sent \<leftarrow> ac_encrypt E (ret key) (Some a) (length xs) (Some c) (length buf);
      text \<leftarrow> load_string (Some c);
      received \<leftarrow> ac_decrypt E (ret key) text (Some d) (length out);
      ret (sent, text, received) }) w of ((sent, text, received), w') \<Rightarrow>
    sent \<and> received \<and> text = b64 (cipher_text E key xs) \<and> fault w' = None \<and>
    blocks (vars w') = (blocks (vars w))
      (c \<mapsto> overwrite buf 0 (text @ [NUL]), d \<mapsto> plain_text xs @ drop (length (plain_text xs)) out))"
proof -
  let ?t = "b64 (cipher_text E key xs)"
  note enc = run_ac_encrypt [OF assms(1-5,7,6,8) order.refl]
  obtain w1 where w1: "run_state (ac_encrypt E (ret key) (Some a) (length xs) (Some c) (length buf)) w = (True, w1)"
    and v: "fault w1 = None" "blocks (vars w1) = (blocks (vars w))(c \<mapsto> overwrite buf 0 (?t @ [NUL]))"
      "fresh_memory (vars w1)"
    using enc assms(3) fresh_memory_upd [OF assms(4), of c] assms(7) by simp
  have t: "NUL \<notin> set ?t" using assms(1) by (simp add: mbedtls_works_def)
  have loaded: "run_state (load_string (Some c)) w1 = (?t, w1)"
    using v t by (simp add: load_string_def overwrite_def c_string_def takeWhile_append)
  have "encrypted_length (length xs) \<le> length ?t"
  proof -
    have "n \<le> base64_length n" for n by (simp add: base64_length_def)
    with assms(1) show ?thesis
      by (metis length_cipher_text [OF assms(1)] mbedtls_works_def)
  qed
  with run_ac_decrypt [OF assms(1,2) v(1,3), of d out "length out" xs] v(2) assms(9-11)
  obtain w2 where "run_state (ac_decrypt E (ret key) ?t (Some d) (length out)) w1 = (True, w2)"
    "fault w2 = None" "blocks (vars w2) = (blocks (vars w1))(d \<mapsto> plain_text xs @ drop (encrypted_length (length xs)) out)"
    using v(1) by simp
  with w1 loaded v show ?thesis by (simp add: length_plain_text)
qed

lemma demo_mbedtls: "length key = 16 \<Longrightarrow> mbedtls_works (demo_esp parse) key base64"
  by (simp add: mbedtls_works_def demo_esp_def unbase64_base64 length_base64 base64_length_def base64_no_NUL)

lemma demo_output_length: "get_output_length 2 = ok 26"
proof -
  let ?x = "rnd (18 * rnd (133333 / 100000))"
  have "of_int 23 \<le> 18 * rnd (133333 / 100000)"
    "18 * rnd (133333 / 100000) \<le> of_int 24 + of_int (- 1) * 2 powi (- 20)"
    unfolding rnd_constant pow2_neg20 by simp_all
  from this [THEN rnd_mono] have "23 \<le> ?x" "?x \<le> of_int 24 + of_int (- 1) * 2 powi (- 20)"
    using rnd_near_int [of 24 "- 1"] rnd_int [of 23] by simp_all
  then have "of_int 26 \<le> ?x + 3" "?x + 3 \<le> of_int 27 + of_int (- 1) * 2 powi (- 20)" by simp_all
  from this [THEN rnd_mono] have "26 \<le> rnd (?x + 3)" "rnd (?x + 3) \<le> of_int 27 + of_int (- 1) * 2 powi (- 20)"
    using rnd_near_int [of 27 "- 1"] rnd_int [of 26] by simp_all
  then have "26 \<le> rnd (?x + 3)" "rnd (?x + 3) < 27" by (simp_all add: pow2_neg20)
  moreover from this have "\<lfloor>rnd (?x + 3)\<rfloor> = 26" by (simp add: floor_eq_iff)
  ultimately show ?thesis by (simp add: get_output_length_def wrap32_def to_size_def trunc_def)
qed

definition demo_crypto :: "(esp_event, memory) machine" where
  "demo_crypto = \<lparr>history = [], fault = None, vars = \<lparr>
     blocks = [0 \<mapsto> ''hi'', 1 \<mapsto> replicate 26 (CHR ''x''), 2 \<mapsto> replicate 24 (CHR ''y'')],
     instances = Map.empty, ac_list = None, next_address = 3\<rparr>\<rparr>"

theorem ac_decrypt_encrypt_witness:
  "(case run_state (do {
      sent \<leftarrow> ac_encrypt (demo_esp Map.empty) (ret generic_key) (Some 0) 2 (Some 1) 26;
      text \<leftarrow> load_string (Some 1);
      received \<leftarrow> ac_decrypt (demo_esp Map.empty) (ret generic_key) text (Some 2) 24;
      ret (sent, text, received) }) demo_crypto of ((sent, text, received), w') \<Rightarrow>
    sent \<and> received \<and> fault w' = None \<and>
    blocks (vars w') 2 = Some (''hi'' @ replicate 14 NUL @ replicate 8 (CHR ''y'')))"
proof -
  let ?E = "demo_esp Map.empty :: tree esp"
  have E: "mbedtls_works ?E generic_key base64" by (rule demo_mbedtls) (simp add: generic_key_def)
  have len: "length ''hi'' = 2" "length (replicate 26 (CHR ''x'')) = 26"
    "length (replicate 24 (CHR ''y'')) = 24" by simp_all
  have "length (replicate 24 (CHR ''y'')) = length (base64 (cipher_text ?E generic_key ''hi''))"
    by (simp add: length_base64 length_cipher_text [OF E] encrypted_length_def)
  moreover have "e_malloc ?E h k \<noteq> None" for h k by (simp add: demo_esp_def)
  moreover have "fault demo_crypto = None" "fresh_memory (vars demo_crypto)"
    "blocks (vars demo_crypto) 0 = Some (''hi'' @ [])" "blocks (vars demo_crypto) 1 = Some (replicate 26 (CHR ''x''))"
    "blocks (vars demo_crypto) 2 = Some (replicate 24 (CHR ''y''))"
    by (simp_all add: demo_crypto_def fresh_memory_def)
  moreover have "length ''hi'' < 599984" "get_output_length (length ''hi'') = ok (length (replicate 26 (CHR ''x'')))"
    unfolding len by (simp_all add: demo_output_length)
  ultimately have run: "case run_state (do {
      sent \<leftarrow> ac_encrypt ?E (ret generic_key) (Some 0) (length ''hi'') (Some 1) (length (replicate 26 (CHR ''x'')));
      text \<leftarrow> load_string (Some 1);
      received \<leftarrow> ac_decrypt ?E (ret generic_key) text (Some 2) (length (replicate 24 (CHR ''y'')));
      ret (sent, text, received) }) demo_crypto of ((sent, text, received), w') \<Rightarrow>
    sent \<and> received \<and> text = base64 (cipher_text ?E generic_key ''hi'') \<and> fault w' = None \<and>
    blocks (vars w') = (blocks (vars demo_crypto))
      (1 \<mapsto> overwrite (replicate 26 (CHR ''x'')) 0 (text @ [NUL]),
       2 \<mapsto> plain_text ''hi'' @ drop (length (plain_text ''hi'')) (replicate 24 (CHR ''y'')))"
    by (intro ac_decrypt_encrypt [OF E]) simp_all
  have "plain_text ''hi'' @ drop (length (plain_text ''hi'')) (replicate 24 (CHR ''y'')) =
      ''hi'' @ replicate 14 NUL @ replicate 8 (CHR ''y'')"
    by (simp add: plain_text_def padding_def)
  with run show ?thesis unfolding len by (auto split: prod.splits)
qed

section \<open>Messages that were not encrypted by this code\<close>

text \<open>\<open>ac_decrypt\<close> trusts the last byte of the message for the length of its padding: if that
  byte is more than the whole length of the decrypted text, the zeros are written in front of
  the output buffer. A sender needs no key for that, since every block decrypts to something.
\<close>

theorem ac_decrypt_bad_padding:
  assumes "b64_decode E 0 text = (e, 16 * n, ys)" "b64_decode E (16 * n) text = (0, 16 * n, xs)"
    "length xs = 16 * n" "0 < n" "aes_setkey E key = 0"
    "\<And>b. length b = 16 \<Longrightarrow> aes_decrypt E key b = (0, h b) \<and> length (h b) = 16"
    "e_malloc E (history w) (16 * n) = Some j" "fault w = None"
    "blocks (vars w) c = Some buf" "c < next_address (vars w)" "out_len \<le> length buf" "16 * n \<le> out_len"
    "16 * n < of_char (last (blockwise h xs [0..<n]))"
  shows "fault (snd (run_state (ac_decrypt E (ret key) text (Some c) out_len) w)) = Some BufferOverflow"
proof -
  let ?k = "next_address (vars w)" and ?p = "blockwise h xs [0..<n]"
  have len: "length ?p = 16 * n" by (rule length_blockwise) (use assms(3,6) in auto)
  have neq: "c \<noteq> ?k" "?k \<noteq> c" using assms(10) by simp_all
  have crypt: "run_state (crypt_blocks (aes_decrypt E key) (Some ?k) (Some c) [0..<n]) v =
      (True, v\<lparr>vars := (vars v)\<lparr>blocks := (blocks (vars v))(c \<mapsto> ?p @ drop (16 * n) buf)\<rparr>\<rparr>)"
    if "fault v = None" "blocks (vars v) ?k = Some xs" "blocks (vars v) c = Some buf"
    for v :: "(esp_event, 'b memory_scheme) machine"
    using run_crypt_blocks [OF assms(6) that(1,2,3) neq(2), where n = n and k = 0] assms(3,11,12)
    by simp
  have "?p = butlast ?p @ [last ?p]" using len assms(4) by (intro append_butlast_last_id [symmetric]) auto
  then have last: "drop (16 * n - Suc 0) ?p = [last ?p]"
    using len by (metis One_nat_def append_eq_conv_conj length_butlast)
  have start: "overwrite (map j [0..<16 * n]) 0 xs = xs" using assms(3) by (simp add: overwrite_def)
  show ?thesis
    unfolding ac_decrypt_def using assms(4,8,9,11,12,13) neq
    by (simp add: Let_def assms(1,2,5) run_malloc assms(7) run_store_at assms(3) start crypt
        run_load_at len last release_after_fault)
qed

theorem ac_decrypt_bad_padding_witness:
  "fault (snd (run_state (ac_decrypt (demo_esp Map.empty) (ret generic_key)
     (base64 (replicate 16 (CHR ''A''))) (Some 2) 24) demo_crypto)) = Some BufferOverflow"
proof -
  let ?bs = "replicate 16 (CHR ''A'')"
  have d: "unbase64 (base64 ?bs) = ?bs" by (rule unbase64_base64)
  show ?thesis
    by (rule ac_decrypt_bad_padding [where n = 1 and xs = ?bs and h = rev and e = "-42" and ys = "[]"
          and j = "\<lambda>_. NUL" and buf = "replicate 24 (CHR ''y'')"])
      (simp_all add: demo_esp_def d demo_crypto_def generic_key_def blockwise_def block_no_def)
qed

end
