(* ===== verification/AcList.thy ===== *)
theory AcList
  imports EspState
begin

text \<open>
  The list of air conditioners of \<open>firmware_esp32/main/ac_gree.c\<close>: the global \<open>ac_list\<close> of
  \<open>ac_instance\<close> records linked forwards and backwards, with \<open>get_ac_record\<close>,
  \<open>add_new_ac_record\<close> and \<open>delete_ac_record\<close>. A loop over the list may go on for ever where
  the links form a cycle, hence \<open>partial_function\<close>. \<open>ac_records s as\<close> relates a memory to the
  list of the records' addresses that the links represent; the lemmas show what each
  operation does to that list.
\<close>

section \<open>Operations\<close>

text \<open>\<open>strcmp (a, b) == 0\<close>, which reads no further than the first difference.\<close>

fun strcmp_equal :: "string \<Rightarrow> string \<Rightarrow> bool exec" where
  "strcmp_equal (a # as) (b # bs) =
     (if a \<noteq> b then ok False else if a = NUL then ok True else strcmp_equal as bs)"
| "strcmp_equal as bs = abort BufferOverflow"

definition block_at :: "'m memory_scheme \<Rightarrow> ptr \<Rightarrow> string exec" where
  "block_at s p =
     (case p of
        None \<Rightarrow> abort NullDeref
      | Some a \<Rightarrow> (case blocks s a of None \<Rightarrow> abort DanglingPointer | Some bs \<Rightarrow> ok bs))"

definition record_matches :: "'m memory_scheme \<Rightarrow> string \<Rightarrow> ac_instance \<Rightarrow> bool exec" where
  "record_matches s mac r = and_then (block_at s (ac_mac r)) (strcmp_equal mac)"

partial_function (option) find_record ::
  "'m memory_scheme \<Rightarrow> string \<Rightarrow> ptr \<Rightarrow> (fault + ptr) option" where
  "find_record s mac current =
     (case current of
        None \<Rightarrow> ok None
      | Some a \<Rightarrow>
          (case instances s a of
             None \<Rightarrow> abort DanglingPointer
           | Some r \<Rightarrow>
               (case record_matches s mac r of
                  None \<Rightarrow> None
                | Some x \<Rightarrow>
                    (case x of
                       Inl f \<Rightarrow> abort f
                     | Inr found \<Rightarrow>
                         if found then ok (Some a) else find_record s mac (next_ac r)))))"

definition get_ac_record :: "string \<Rightarrow> ('m, ptr) task" where
  "get_ac_record mac = do {
     x \<leftarrow> reads (\<lambda>s. find_record s mac (ac_list s));
     perform None x }"

text \<open>The loop to the last record.\<close>

partial_function (option) last_record ::
  "'m memory_scheme \<Rightarrow> nat \<Rightarrow> (fault + nat) option" where
  "last_record s current =
     (case instances s current of
        None \<Rightarrow> abort DanglingPointer
      | Some r \<Rightarrow>
          (case next_ac r of
             None \<Rightarrow> ok current
           | Some n \<Rightarrow> last_record s n))"

definition blank_instance :: ac_instance where
  "blank_instance = \<lparr>next_ac = None, prev_ac = None, ac_ip = [], ac_mac = None, ac_aes_key = None\<rparr>"

definition load_instance :: "nat \<Rightarrow> ('m, ac_instance) task" where
  "load_instance a = do {
     m \<leftarrow> reads instances;
     case m a of
       None \<Rightarrow> do { crash DanglingPointer; ret blank_instance }
     | Some r \<Rightarrow> ret r }"

definition put_instance :: "nat \<Rightarrow> (ac_instance \<Rightarrow> ac_instance) \<Rightarrow> ('m, unit) task" where
  "put_instance a f = do {
     r \<leftarrow> load_instance a;
     modify (\<lambda>s. s\<lparr>instances := (instances s)(a \<mapsto> f r)\<rparr>) }"

definition malloc_instance :: "'j esp \<Rightarrow> ('m, ptr) task" where
  "malloc_instance E = do {
     r \<leftarrow> call (e_instance E) (\<lambda>r. MallocInstance (r \<noteq> None));
     case r of
       None \<Rightarrow> ret None
     | Some junk \<Rightarrow> do {
         a \<leftarrow> reads next_address;
         modify (\<lambda>s. s\<lparr>instances := (instances s)(a \<mapsto> junk), next_address := Suc a\<rparr>);
         ret (Some a) } }"

definition add_new_ac_record :: "'j esp \<Rightarrow> ('m, ptr) task" where
  "add_new_ac_record E = do {
     l \<leftarrow> reads ac_list;
     case l of
       None \<Rightarrow> do {
         p \<leftarrow> malloc_instance E;
         modify (\<lambda>s. s\<lparr>ac_list := p\<rparr>);
         case p of
           None \<Rightarrow> ret None
         | Some a \<Rightarrow> do {
             put_instance a (\<lambda>r. r\<lparr>next_ac := None\<rparr>);
             put_instance a (\<lambda>r. r\<lparr>prev_ac := None\<rparr>);
             ret p } }
     | Some first \<Rightarrow> do {
         x \<leftarrow> reads (\<lambda>s. last_record s first);
         current \<leftarrow> perform first x;
         p \<leftarrow> malloc_instance E;
         put_instance current (\<lambda>r. r\<lparr>next_ac := p\<rparr>);
         case p of
           None \<Rightarrow> ret None
         | Some a \<Rightarrow> do {
             put_instance a (\<lambda>r. r\<lparr>prev_ac := Some current\<rparr>);
             put_instance a (\<lambda>r. r\<lparr>next_ac := None\<rparr>);
             ret p } } }"

definition delete_ac_record :: "ptr \<Rightarrow> ('m, unit) task" where
  "delete_ac_record p =
     (case p of
        None \<Rightarrow> skip
      | Some a \<Rightarrow> do {
          r \<leftarrow> load_instance a;
          release (ac_mac r);
          release (ac_aes_key r);
          (case prev_ac r of
             Some left \<Rightarrow> put_instance left (\<lambda>l. l\<lparr>next_ac := next_ac r\<rparr>)
           | None \<Rightarrow> modify (\<lambda>s. s\<lparr>ac_list := next_ac r\<rparr>));
          (case next_ac r of
             Some right \<Rightarrow> put_instance right (\<lambda>l. l\<lparr>prev_ac := prev_ac r\<rparr>)
           | None \<Rightarrow> skip);
          emit (ReleaseInstance a);
          modify (\<lambda>s. s\<lparr>instances := (instances s)(a := None)\<rparr>) })"

text \<open>A store through \<open>&current_ac->mac\<close> and \<open>&current_ac->aes_key\<close>.\<close>

definition store_mac :: "nat \<Rightarrow> ptr \<Rightarrow> ('m, unit) task" where
  "store_mac a p = put_instance a (\<lambda>r. r\<lparr>ac_mac := p\<rparr>)"

definition store_aes_key :: "nat \<Rightarrow> ptr \<Rightarrow> ('m, unit) task" where
  "store_aes_key a p = put_instance a (\<lambda>r. r\<lparr>ac_aes_key := p\<rparr>)"

section \<open>Strings\<close>

lemma strcmp_equal_strings:
  "NUL \<in> set as \<Longrightarrow> NUL \<in> set bs \<Longrightarrow> strcmp_equal as bs = ok (c_string as = c_string bs)"
  by (induction as bs rule: strcmp_equal.induct) (auto simp: c_string_def)

section \<open>Chains of records\<close>

primrec chain :: "(nat \<rightharpoonup> ac_instance) \<Rightarrow> ptr \<Rightarrow> ptr \<Rightarrow> nat list \<Rightarrow> ptr \<Rightarrow> bool" where
  "chain m p pr [] q \<longleftrightarrow> p = q"
| "chain m p pr (a # as) q \<longleftrightarrow> p = Some a \<and>
     (\<exists>r. m a = Some r \<and> prev_ac r = pr \<and> chain m (next_ac r) (Some a) as q)"

definition end_of :: "ptr \<Rightarrow> nat list \<Rightarrow> ptr" where
  "end_of pr as = (if as = [] then pr else Some (last as))"

lemma end_of_simps [simp]:
  "end_of pr [] = pr" "end_of pr (a # as) = end_of (Some a) as"
  "end_of pr (as @ [a]) = Some a"
  by (simp_all add: end_of_def)

lemma chain_append:
  "chain m p pr (as @ bs) q \<longleftrightarrow> (\<exists>n. chain m p pr as n \<and> chain m n (end_of pr as) bs q)"
  by (induction as arbitrary: p pr) auto

lemma chain_frame:
  "(\<And>a. a \<in> set as \<Longrightarrow> m' a = m a) \<Longrightarrow> chain m' p pr as q \<longleftrightarrow> chain m p pr as q"
  by (induction as arbitrary: p pr) auto

lemma chain_upd [simp]: "a \<notin> set as \<Longrightarrow> chain (m(a := x)) p pr as q \<longleftrightarrow> chain m p pr as q"
  by (rule chain_frame) auto

lemma chain_allocated: "chain m p pr as q \<Longrightarrow> a \<in> set as \<Longrightarrow> m a \<noteq> None"
  by (induction as arbitrary: p pr) auto

definition ac_records :: "'m memory_scheme \<Rightarrow> nat list \<Rightarrow> bool" where
  "ac_records s as \<longleftrightarrow> chain (instances s) (ac_list s) None as None \<and> distinct as \<and>
     set as = dom (instances s) \<and> (\<forall>a \<in> set as. a < next_address s)"

text \<open>What the links around a record are.\<close>

lemma chain_at:
  assumes "chain m p pr (xs @ a # ys) q"
  obtains r where "m a = Some r" "prev_ac r = end_of pr xs" "chain m p pr xs (Some a)"
    "chain m (next_ac r) (Some a) ys q"
  using assms by (auto simp: chain_append)

lemma chain_set_next:
  assumes "chain m p pr (as @ [a]) q" "a \<notin> set as" "m a = Some r"
  shows "chain (m(a \<mapsto> r\<lparr>next_ac := q'\<rparr>)) p pr (as @ [a]) q'"
  using assms by (auto simp: chain_append)

lemma chain_set_prev:
  assumes "chain m (Some a) pr (a # as) q" "a \<notin> set as" "m a = Some r"
  shows "chain (m(a \<mapsto> r\<lparr>prev_ac := pr'\<rparr>)) (Some a) pr' (a # as) q"
  using assms by auto

lemma last_record_chain:
  assumes "chain (instances s) (Some a) pr (as @ [b]) None"
  shows "last_record s a = ok b"
  using assms
proof (induction as arbitrary: a pr)
  case Nil
  then show ?case by (subst last_record.simps) auto
next
  case (Cons x as)
  then obtain r where r: "x = a" "instances s a = Some r" "prev_ac r = pr"
    "chain (instances s) (next_ac r) (Some a) (as @ [b]) None" by auto
  from r(4) obtain n where n: "next_ac r = Some n" by (cases as) auto
  with r show ?case by (subst last_record.simps) (use Cons.IH [of n "Some a"] in auto)
qed

section \<open>What the operations do to the list\<close>

text \<open>The address of a record's name is valid, and what the name is.\<close>

definition mac_at :: "'m memory_scheme \<Rightarrow> nat \<Rightarrow> string option" where
  "mac_at s a =
     (case instances s a of
        None \<Rightarrow> None
      | Some r \<Rightarrow>
          (case block_at s (ac_mac r) of
             Some (Inr bs) \<Rightarrow> if NUL \<in> set bs then Some (c_string bs) else None
           | _ \<Rightarrow> None))"

lemma record_matches_mac:
  assumes "instances s a = Some r" "mac_at s a \<noteq> None" "NUL \<in> set mac"
  shows "record_matches s mac r = Some (Inr (mac_at s a = Some (c_string mac)))"
proof -
  from assms(1,2) obtain bs where "block_at s (ac_mac r) = ok bs" "NUL \<in> set bs"
    "mac_at s a = Some (c_string bs)"
    by (auto simp: mac_at_def ok_def split: option.splits sum.splits if_splits)
  with assms(3) show ?thesis by (auto simp: record_matches_def strcmp_equal_strings ok_def)
qed

lemma find_record_chain:
  assumes "chain (instances s) p pr as None" "\<And>a. a \<in> set as \<Longrightarrow> mac_at s a \<noteq> None" "NUL \<in> set mac"
  shows "find_record s mac p = ok (find (\<lambda>a. mac_at s a = Some (c_string mac)) as)"
  using assms(1,2)
proof (induction as arbitrary: p pr)
  case Nil
  then show ?case by (simp add: find_record.simps)
next
  case (Cons a as)
  then obtain r where r: "p = Some a" "instances s a = Some r"
    "chain (instances s) (next_ac r) (Some a) as None" by auto
  have "record_matches s mac r = Some (Inr (mac_at s a = Some (c_string mac)))"
    by (rule record_matches_mac [OF r(2)]) (use Cons.prems(2) assms(3) in auto)
  with r show ?case
    by (subst find_record.simps) (simp add: Cons.IH [OF r(3)] Cons.prems(2))
qed

lemma run_get_ac_record:
  assumes "ac_records (vars w) as" "\<And>a. a \<in> set as \<Longrightarrow> mac_at (vars w) a \<noteq> None" "NUL \<in> set mac"
  shows "run_state (get_ac_record mac) w =
    (find (\<lambda>a. mac_at (vars w) a = Some (c_string mac)) as, w)"
proof -
  have "find_record (vars w) mac (ac_list (vars w)) =
      ok (find (\<lambda>a. mac_at (vars w) a = Some (c_string mac)) as)"
    by (rule find_record_chain) (use assms in \<open>auto simp: ac_records_def\<close>)
  then show ?thesis by (simp add: get_ac_record_def)
qed

lemma run_load_instance:
  "instances (vars w) a = Some r \<Longrightarrow> run_state (load_instance a) w = (r, w)"
  by (simp add: load_instance_def)

lemma run_put_instance:
  "fault w = None \<Longrightarrow> instances (vars w) a = Some r \<Longrightarrow>
   run_state (put_instance a f) w =
     ((), w\<lparr>vars := (vars w)\<lparr>instances := (instances (vars w))(a \<mapsto> f r)\<rparr>\<rparr>)"
  by (simp add: put_instance_def run_load_instance)

lemma run_malloc_instance:
  assumes "fault w = None"
  shows "run_state (malloc_instance E) w =
    (case e_instance E (history w) of
       None \<Rightarrow> (None, w\<lparr>history := MallocInstance False # history w\<rparr>)
     | Some junk \<Rightarrow> (Some (next_address (vars w)),
         w\<lparr>history := MallocInstance True # history w,
           vars := (vars w)\<lparr>instances := (instances (vars w))(next_address (vars w) \<mapsto> junk),
             next_address := Suc (next_address (vars w))\<rparr>\<rparr>))"
  using assms by (simp add: malloc_instance_def split: option.split)

text \<open>Appending: the record before the new one, and the new one.\<close>

lemma chain_extend:
  assumes "chain m p None as None" "a \<notin> set as" "distinct as" "as \<noteq> []" "m (last as) = Some r"
    "prev_ac j = Some (last as)" "next_ac j = None"
  shows "chain (m(last as \<mapsto> r\<lparr>next_ac := Some a\<rparr>, a \<mapsto> j)) p None (as @ [a]) None"
proof -
  obtain xs b where as: "as = xs @ [b]" using assms(4) rev_exhaust by blast
  have "chain (m(b \<mapsto> r\<lparr>next_ac := Some a\<rparr>)) p None as (Some a)"
    using assms chain_set_next [of m p None xs b None r "Some a"] by (simp add: as)
  then have "chain (m(b \<mapsto> r\<lparr>next_ac := Some a\<rparr>, a \<mapsto> j)) p None as (Some a)"
    using assms(2) by simp
  then have "chain (m(b \<mapsto> r\<lparr>next_ac := Some a\<rparr>, a \<mapsto> j)) p None (as @ [a]) None"
    unfolding chain_append [of _ _ _ as] using assms(6,7) by (intro exI conjI) (auto simp: as)
  then show ?thesis by (simp add: as)
qed

lemma last_record_run:
  assumes "chain (instances s) (Some a) None as None"
  shows "last_record s a = ok (last as)"
proof -
  obtain xs b where "as = xs @ [b]" using assms by (cases as rule: rev_cases) auto
  with assms last_record_chain show ?thesis by simp
qed

definition same_data :: "ac_instance \<Rightarrow> ac_instance \<Rightarrow> bool" where
  "same_data r r' \<longleftrightarrow> ac_ip r' = ac_ip r \<and> ac_mac r' = ac_mac r \<and> ac_aes_key r' = ac_aes_key r"

lemma run_add_first:
  assumes "ac_records (vars w) []" "fault w = None" "e_instance E (history w) = Some junk"
  shows "run_state (add_new_ac_record E) w = (Some (next_address (vars w)),
    w\<lparr>history := MallocInstance True # history w,
      vars := (vars w)\<lparr>
        instances := [next_address (vars w) \<mapsto> junk\<lparr>next_ac := None, prev_ac := None\<rparr>],
        ac_list := Some (next_address (vars w)), next_address := Suc (next_address (vars w))\<rparr>\<rparr>)"
proof -
  have "instances (vars w) = Map.empty" "ac_list (vars w) = None"
    using assms(1) by (auto simp: ac_records_def)
  then show ?thesis using assms(2,3)
    by (simp add: add_new_ac_record_def run_malloc_instance run_put_instance)
qed

lemma run_add_next:
  assumes "ac_records (vars w) as" "as \<noteq> []" "fault w = None"
    "e_instance E (history w) = Some junk" "instances (vars w) (last as) = Some r"
  shows "run_state (add_new_ac_record E) w = (Some (next_address (vars w)),
    w\<lparr>history := MallocInstance True # history w,
      vars := (vars w)\<lparr>
        instances := (instances (vars w))(last as \<mapsto> r\<lparr>next_ac := Some (next_address (vars w))\<rparr>,
          next_address (vars w) \<mapsto> junk\<lparr>prev_ac := Some (last as), next_ac := None\<rparr>),
        next_address := Suc (next_address (vars w))\<rparr>\<rparr>)"
proof -
  obtain first where first: "ac_list (vars w) = Some first"
    using assms(1,2) by (cases as) (auto simp: ac_records_def)
  then have "last_record (vars w) first = ok (last as)"
    using assms(1) last_record_run [of "vars w" first as] by (simp add: ac_records_def)
  moreover have "last as \<noteq> next_address (vars w)"
    using assms(1,2) last_in_set by (fastforce simp: ac_records_def)
  ultimately show ?thesis using assms(3,4,5) first
    by (simp add: add_new_ac_record_def run_malloc_instance run_put_instance fun_upd_twist)
qed

lemma chain_starts: "chain m p pr ys None \<Longrightarrow> p = (case ys of [] \<Rightarrow> None | y # _ \<Rightarrow> Some y)"
  by (cases ys) auto

text \<open>Unlinking a record, as \<open>delete_ac_record\<close> does it: on the left, then on the right.\<close>

definition unlink_left :: "ac_instance \<Rightarrow> (nat \<rightharpoonup> ac_instance) \<Rightarrow> (nat \<rightharpoonup> ac_instance)" where
  "unlink_left r m =
     (case prev_ac r of
        None \<Rightarrow> m
      | Some left \<Rightarrow> m(left := map_option (\<lambda>l. l\<lparr>next_ac := next_ac r\<rparr>) (m left)))"

definition unlink_right :: "ac_instance \<Rightarrow> (nat \<rightharpoonup> ac_instance) \<Rightarrow> (nat \<rightharpoonup> ac_instance)" where
  "unlink_right r m =
     (case next_ac r of
        None \<Rightarrow> m
      | Some right \<Rightarrow> m(right := map_option (\<lambda>l. l\<lparr>prev_ac := prev_ac r\<rparr>) (m right)))"

definition unlink :: "nat \<Rightarrow> ac_instance \<Rightarrow> (nat \<rightharpoonup> ac_instance) \<Rightarrow> (nat \<rightharpoonup> ac_instance)" where
  "unlink a r m = (unlink_right r (unlink_left r m))(a := None)"

lemma chain_unlink_left:
  assumes "chain m p None xs (Some a)" "prev_ac r = end_of None xs" "distinct xs"
  shows "chain (unlink_left r m) (if xs = [] then next_ac r else p) None xs (next_ac r)"
proof (cases xs rule: rev_cases)
  case Nil
  then show ?thesis by simp
next
  case (snoc zs b)
  with assms(1) obtain l where "m b = Some l" by (auto simp: chain_append)
  with snoc assms chain_set_next [of m p None zs b "Some a" l "next_ac r"] show ?thesis
    by (simp add: unlink_left_def)
qed

lemma chain_unlink_right:
  assumes "chain m (next_ac r) (Some a) ys None" "distinct ys"
  shows "chain (unlink_right r m) (next_ac r) (prev_ac r) ys None"
proof (cases ys)
  case Nil
  with assms show ?thesis by simp
next
  case (Cons y zs)
  with assms(1) obtain l where "m y = Some l" "next_ac r = Some y" by auto
  with Cons assms chain_set_prev [of m y "Some a" zs None l "prev_ac r"] show ?thesis
    by (simp add: unlink_right_def)
qed

lemma unlink_left_other: "prev_ac r \<noteq> Some b \<Longrightarrow> unlink_left r m b = m b"
  by (auto simp: unlink_left_def split: option.split)

lemma unlink_right_other: "next_ac r \<noteq> Some b \<Longrightarrow> unlink_right r m b = m b"
  by (auto simp: unlink_right_def split: option.split)

lemma chain_unlink:
  assumes "chain m p None (xs @ a # ys) None" "distinct (xs @ a # ys)" "m a = Some r"
  shows "chain (unlink a r m) (if xs = [] then next_ac r else p) None (xs @ ys) None"
proof -
  let ?m = "unlink_left r m"
  from assms(1,3) have r: "prev_ac r = end_of None xs" and left: "chain m p None xs (Some a)"
    and right: "chain m (next_ac r) (Some a) ys None"
    by (auto simp: chain_append)
  have L: "chain ?m (if xs = [] then next_ac r else p) None xs (next_ac r)"
    by (rule chain_unlink_left [OF left r]) (use assms(2) in simp)
  have "prev_ac r \<noteq> Some b" if "b \<in> set ys" for b
    using that assms(2) r by (cases xs rule: rev_cases) auto
  then have "chain ?m (next_ac r) (Some a) ys None"
    using right chain_frame [of ys ?m m] by (simp add: unlink_left_other)
  from chain_unlink_right [OF this] have R: "chain (unlink_right r ?m) (next_ac r) (end_of None xs) ys None"
    using assms(2) r by simp
  have "next_ac r \<noteq> Some b" if "b \<in> set xs" for b
    using that assms(2) chain_starts [OF right] by (cases ys) auto
  then have "chain (unlink_right r ?m) (if xs = [] then next_ac r else p) None xs (next_ac r)"
    using L chain_frame [of xs "unlink_right r ?m" ?m] by (simp add: unlink_right_other)
  with R have "chain (unlink_right r ?m) (if xs = [] then next_ac r else p) None (xs @ ys) None"
    by (auto simp: chain_append)
  with assms(2) show ?thesis by (simp add: unlink_def)
qed

lemma unlink_data:
  assumes "b \<noteq> a"
  shows "rel_option same_data (m b) (unlink a r m b)"
  using assms by (cases "m b")
    (auto simp: unlink_def unlink_left_def unlink_right_def same_data_def split: option.split)

definition drop_block :: "ptr \<Rightarrow> (nat \<rightharpoonup> string) \<Rightarrow> (nat \<rightharpoonup> string)" where
  "drop_block p m = (case p of None \<Rightarrow> m | Some b \<Rightarrow> m(b := None))"

definition release_events :: "ptr \<Rightarrow> esp_event list" where
  "release_events p = (case p of None \<Rightarrow> [] | Some b \<Rightarrow> [Release b])"

definition allocated :: "'m memory_scheme \<Rightarrow> ptr \<Rightarrow> bool" where
  "allocated s p \<longleftrightarrow> (case p of None \<Rightarrow> True | Some b \<Rightarrow> blocks s b \<noteq> None)"

lemma run_release:
  assumes "fault w = None" "allocated (vars w) p"
  shows "run_state (release p) w =
    ((), w\<lparr>history := release_events p @ history w,
       vars := (vars w)\<lparr>blocks := drop_block p (blocks (vars w))\<rparr>\<rparr>)"
  using assms
  by (auto simp: release_def allocated_def drop_block_def release_events_def split: option.splits)

text \<open>The name and the key of a record are strings of its own, or null.\<close>

definition owns_strings :: "'m memory_scheme \<Rightarrow> ac_instance \<Rightarrow> bool" where
  "owns_strings s r \<longleftrightarrow> allocated s (ac_mac r) \<and> allocated s (ac_aes_key r) \<and>
     (ac_mac r = ac_aes_key r \<longrightarrow> ac_mac r = None)"

lemma owns_strings_key:
  "owns_strings s r \<Longrightarrow> allocated (s\<lparr>blocks := drop_block (ac_mac r) (blocks s)\<rparr>) (ac_aes_key r)"
  by (auto simp: owns_strings_def allocated_def drop_block_def split: option.splits)

lemma run_delete:
  assumes "ac_records (vars w) (xs @ a # ys)" "fault w = None" "instances (vars w) a = Some r"
    "owns_strings (vars w) r"
  shows "run_state (delete_ac_record (Some a)) w =
    ((), w\<lparr>history := ReleaseInstance a # release_events (ac_aes_key r) @ release_events (ac_mac r) @
            history w,
       vars := (vars w)\<lparr>
         blocks := drop_block (ac_aes_key r) (drop_block (ac_mac r) (blocks (vars w))),
         instances := unlink a r (instances (vars w)),
         ac_list := if xs = [] then next_ac r else ac_list (vars w)\<rparr>\<rparr>)"
proof -
  from assms(1,3) have r: "prev_ac r = end_of None xs" and left: "chain (instances (vars w)) (ac_list (vars w)) None xs (Some a)"
    and right: "chain (instances (vars w)) (next_ac r) (Some a) ys None" and d: "distinct (xs @ a # ys)"
    by (auto simp: chain_append ac_records_def)
  have mac: "allocated (vars w) (ac_mac r)" using assms(4) by (simp add: owns_strings_def)
  have L: "prev_ac r = (if xs = [] then None else Some (last xs))"
    "xs \<noteq> [] \<Longrightarrow> \<exists>l. instances (vars w) (last xs) = Some l"
    using r chain_allocated [OF left, of "last xs"] by (auto simp: end_of_def)
  have R: "next_ac r = (if ys = [] then None else Some (hd ys))"
    "ys \<noteq> [] \<Longrightarrow> \<exists>l. instances (vars w) (hd ys) = Some l"
    using chain_starts [OF right] chain_allocated [OF right, of "hd ys"] by (auto split: list.splits)
  have "xs \<noteq> [] \<Longrightarrow> ys \<noteq> [] \<Longrightarrow> last xs \<noteq> hd ys"
    using d by (cases ys) auto
  with assms(2,3) L R show ?thesis
    by (auto simp: delete_ac_record_def run_load_instance run_release mac
        owns_strings_key [OF assms(4)] run_put_instance unlink_def unlink_left_def unlink_right_def)
qed

lemma ac_records_delete:
  assumes "ac_records s (xs @ a # ys)" "instances s a = Some r"
  shows "ac_records (s\<lparr>blocks := B, instances := unlink a r (instances s),
      ac_list := if xs = [] then next_ac r else ac_list s\<rparr>) (xs @ ys)"
proof -
  have "dom (unlink a r (instances s)) = dom (instances s) - {a}"
    using assms by (auto simp: unlink_def unlink_left_def unlink_right_def split: option.splits if_splits)
  with assms chain_unlink [of "instances s" "ac_list s" xs a ys r] show ?thesis
    by (auto simp: ac_records_def)
qed

lemma run_add_failed:
  assumes "ac_records (vars w) as" "fault w = None" "e_instance E (history w) = None"
  shows "run_state (add_new_ac_record E) w = (None, w\<lparr>history := MallocInstance False # history w\<rparr>)"
proof (cases "ac_list (vars w)")
  case None
  with assms(2,3) show ?thesis by (simp add: add_new_ac_record_def run_malloc_instance)
next
  case (Some first)
  then have c: "chain (instances (vars w)) (Some first) None as None"
    using assms(1) by (simp add: ac_records_def)
  then have last: "last_record (vars w) first = ok (last as)" by (rule last_record_run)
  from c obtain xs where "as = xs @ [last as]" by (cases as rule: rev_cases) auto
  with c have "chain (instances (vars w)) (Some first) None (xs @ [last as]) None" by simp
  then obtain r where "instances (vars w) (last as) = Some r" "next_ac r = None"
    by (auto simp: chain_append)
  with assms(2,3) Some last show ?thesis
    by (simp add: add_new_ac_record_def run_malloc_instance run_put_instance fun_upd_idem)
qed

lemma run_add:
  assumes "ac_records (vars w) as" "fault w = None" "e_instance E (history w) = Some junk"
  obtains w' where "run_state (add_new_ac_record E) w = (Some (next_address (vars w)), w')"
    "fault w' = None" "ac_records (vars w') (as @ [next_address (vars w)])"
    "blocks (vars w') = blocks (vars w)"
    "\<And>a. a \<in> set as \<Longrightarrow> rel_option same_data (instances (vars w) a) (instances (vars w') a)"
    "rel_option same_data (Some junk) (instances (vars w') (next_address (vars w)))"
proof (cases "as = []")
  case True
  from run_add_first [OF assms(1) [unfolded True] assms(2,3)] show ?thesis
    by (rule that) (use assms(2) True in \<open>auto simp: ac_records_def same_data_def\<close>)
next
  case False
  let ?n = "next_address (vars w)"
  have c: "chain (instances (vars w)) (ac_list (vars w)) None as None" "distinct as"
    "set as = dom (instances (vars w))" and n: "\<And>a. a \<in> set as \<Longrightarrow> a < ?n"
    using assms(1) by (auto simp: ac_records_def)
  obtain r where r: "instances (vars w) (last as) = Some r"
    using c(3) False last_in_set by blast
  have fresh: "?n \<notin> set as" using n by blast
  have later: "\<forall>a \<in> set as. a < Suc ?n" using n less_SucI by blast
  have "last as < ?n" using n [of "last as"] False by simp
  show ?thesis
  proof (rule that [OF run_add_next [OF assms(1) False assms(2,3) r]])
    show "ac_records (vars (w\<lparr>history := MallocInstance True # history w,
        vars := (vars w)\<lparr>instances := (instances (vars w))
            (last as \<mapsto> r\<lparr>next_ac := Some ?n\<rparr>, ?n \<mapsto> junk\<lparr>prev_ac := Some (last as), next_ac := None\<rparr>),
          next_address := Suc ?n\<rparr>\<rparr>)) (as @ [?n])"
      using chain_extend [OF c(1) fresh c(2) False r] c(2) fresh later False
      by (simp add: ac_records_def) (use c(3) in auto)
  qed (use assms(2) r fresh \<open>last as < ?n\<close> in \<open>auto simp: same_data_def option.rel_refl\<close>)
qed

text \<open>C14: On a memory whose links represent the list \<open>as\<close> of records, \<open>add_new_ac_record\<close>
  appends a record with the content \<open>malloc\<close> left in it, or changes nothing when the
  allocation fails; \<open>delete_ac_record\<close> takes a record out of the list and releases its
  strings; and \<open>get_ac_record\<close> returns the first record with the name it is asked for. The
  other records keep their data.\<close>

theorem ac_list_correct:
  assumes "ac_records (vars w) as" "fault w = None"
  shows "(case run_state (add_new_ac_record E) w of (p, w') \<Rightarrow> fault w' = None \<and>
      (case e_instance E (history w) of
         None \<Rightarrow> p = None \<and> vars w' = vars w
       | Some junk \<Rightarrow> (\<exists>n. p = Some n \<and> n \<notin> set as \<and> ac_records (vars w') (as @ [n]) \<and>
           blocks (vars w') = blocks (vars w) \<and>
           (\<forall>a \<in> set as. rel_option same_data (instances (vars w) a) (instances (vars w') a)) \<and>
           rel_option same_data (Some junk) (instances (vars w') n)))) \<and>
    (\<forall>a r. a \<in> set as \<longrightarrow> instances (vars w) a = Some r \<longrightarrow> owns_strings (vars w) r \<longrightarrow>
      (case run_state (delete_ac_record (Some a)) w of (_, w') \<Rightarrow> fault w' = None \<and>
         ac_records (vars w') (remove1 a as) \<and>
         blocks (vars w') = drop_block (ac_aes_key r) (drop_block (ac_mac r) (blocks (vars w))) \<and>
         (\<forall>b \<in> set as - {a}. rel_option same_data (instances (vars w) b) (instances (vars w') b)))) \<and>
    (\<forall>mac. NUL \<in> set mac \<longrightarrow> (\<forall>a \<in> set as. mac_at (vars w) a \<noteq> None) \<longrightarrow>
      run_state (get_ac_record mac) w =
        (find (\<lambda>a. mac_at (vars w) a = Some (c_string mac)) as, w))"
proof (intro conjI allI impI, goal_cases)
  case 1
  show ?case
  proof (cases "e_instance E (history w)")
    case None
    with assms run_add_failed [of w as E] show ?thesis by simp
  next
    case (Some junk)
    from run_add [OF assms Some] obtain w' where
      "run_state (add_new_ac_record E) w = (Some (next_address (vars w)), w')"
      "fault w' = None" "ac_records (vars w') (as @ [next_address (vars w)])"
      "blocks (vars w') = blocks (vars w)"
      "\<And>a. a \<in> set as \<Longrightarrow> rel_option same_data (instances (vars w) a) (instances (vars w') a)"
      "rel_option same_data (Some junk) (instances (vars w') (next_address (vars w)))" by blast
    moreover have "next_address (vars w) \<notin> set as" using assms(1) by (auto simp: ac_records_def)
    ultimately show ?thesis using Some by simp
  qed
next
  case (2 a r)
  then obtain xs ys where as: "as = xs @ a # ys" by (meson split_list)
  then have "a \<notin> set xs" using assms(1) by (auto simp: ac_records_def)
  with as have "remove1 a as = xs @ ys" by (simp add: remove1_append)
  with run_delete [of w xs a ys r] ac_records_delete [of "vars w" xs a ys r] 2 assms as show ?case
    by (simp add: unlink_data)
next
  case (3 mac)
  with run_get_ac_record [OF assms(1)] show ?case by blast
qed

definition demo_memory :: memory where
  "demo_memory = \<lparr>blocks = [1 \<mapsto> [CHR ''a'', NUL], 2 \<mapsto> [CHR ''b'', NUL, CHR ''x'']],
     instances = [3 \<mapsto> \<lparr>next_ac = Some 4, prev_ac = None, ac_ip = [], ac_mac = Some 1, ac_aes_key = None\<rparr>,
       4 \<mapsto> \<lparr>next_ac = None, prev_ac = Some 3, ac_ip = [], ac_mac = Some 2, ac_aes_key = None\<rparr>],
     ac_list = Some 3, next_address = 5\<rparr>"

definition demo_task :: "(esp_event, memory) machine" where
  "demo_task = \<lparr>history = [], fault = None, vars = demo_memory\<rparr>"

lemma demo_records: "ac_records (vars demo_task) [3, 4]" "fault demo_task = None"
  "instances (vars demo_task) 3 = Some \<lparr>next_ac = Some 4, prev_ac = None, ac_ip = [],
     ac_mac = Some 1, ac_aes_key = None\<rparr>"
  by (auto simp: demo_task_def demo_memory_def ac_records_def)

lemma demo_names: "mac_at (vars demo_task) 3 = Some ''a''" "mac_at (vars demo_task) 4 = Some ''b''"
  by (simp_all add: demo_task_def demo_memory_def mac_at_def block_at_def ok_def c_string_def NUL_def)

theorem ac_list_correct_witness:
  "fst (run_state (get_ac_record [CHR ''b'', NUL]) demo_task) = Some 4 \<and>
   ac_records (vars (snd (run_state (delete_ac_record (Some 3)) demo_task))) [4]"
proof -
  note correct = ac_list_correct [OF demo_records(1,2)]
  have "owns_strings (vars demo_task)
      \<lparr>next_ac = Some 4, prev_ac = None, ac_ip = [], ac_mac = Some 1, ac_aes_key = None\<rparr>"
    by (simp add: owns_strings_def allocated_def demo_task_def demo_memory_def)
  with correct [THEN conjunct2, THEN conjunct1] demo_records(3)
  have "ac_records (vars (snd (run_state (delete_ac_record (Some 3)) demo_task))) (remove1 3 [3, 4])"
    by (fastforce split: prod.splits)
  moreover have "\<forall>a \<in> set [3, 4]. mac_at (vars demo_task) a \<noteq> None" by (simp add: demo_names)
  with correct [THEN conjunct2, THEN conjunct2]
  have "run_state (get_ac_record [CHR ''b'', NUL]) demo_task =
      (find (\<lambda>a. mac_at (vars demo_task) a = Some (c_string [CHR ''b'', NUL])) [3, 4], demo_task)"
    by (meson list.set_intros)
  then have "run_state (get_ac_record [CHR ''b'', NUL]) demo_task = (Some 4, demo_task)"
    by (simp add: demo_names c_string_def NUL_def)
  ultimately show ?thesis by simp
qed

end
