(* ===== verification/AcJson.thy ===== *)
theory AcJson
  imports AcCrypto AcList
begin

text \<open>
  The JSON messages of \<open>firmware_esp32/main/ac_gree.c\<close>: the readers of answers
  (\<open>get_aes_key_from_json\<close>, \<open>get_mac_from_json_wlan\<close>, \<open>check_answer_from_json\<close>) and the builders
  of requests (\<open>create_bind_json_request\<close>, \<open>create_wlan_json_request\<close>,
  \<open>create_control_json_request\<close>). cJSON is a parameter; a call that allocates an item, parses
  or prints is an event, so that a theorem can count what is allocated and given back. An
  output parameter \<open>char **\<close> is the program that stores the pointer.
\<close>

section \<open>Items\<close>

definition parse_item :: "'j esp \<Rightarrow> string \<Rightarrow> ('m, 'j option) task" where
  "parse_item E text =
     call (\<lambda>h. if e_json_memory E h then json_parse E text else None) (\<lambda>r. ParseItem (r \<noteq> None))"

definition delete_item :: "'j option \<Rightarrow> ('m, unit) task" where
  "delete_item x = (case x of None \<Rightarrow> skip | Some j \<Rightarrow> emit DeleteItem)"

text \<open>Creating an item; \<open>cJSON_CreateString\<close> of a null pointer creates none.\<close>

definition create_item :: "'j esp \<Rightarrow> 'j option \<Rightarrow> ('m, 'j option) task" where
  "create_item E x =
     call (\<lambda>h. if e_json_memory E h then x else None) (\<lambda>r. CreateItem (r \<noteq> None))"

definition string_item :: "'j esp \<Rightarrow> ptr \<Rightarrow> ('m, 'j option) task" where
  "string_item E p =
     (case p of
        None \<Rightarrow> ret None
      | Some a \<Rightarrow> do { s \<leftarrow> load_string p; ret (Some (json_string E s)) })"

text \<open>\<open>cJSON_AddItemToObject\<close> with an item that may be null; \<open>None\<close> is its failure.\<close>

definition add_item :: "'j esp \<Rightarrow> 'j \<Rightarrow> string \<Rightarrow> 'j option \<Rightarrow> ('m, 'j option) task" where
  "add_item E t name x =
     (case x of
        None \<Rightarrow> ret None
      | Some i \<Rightarrow>
          call (\<lambda>h. if e_json_memory E h then Some (json_add E t name i) else None)
            (\<lambda>r. AddItem (r \<noteq> None)))"

definition append_item :: "'j esp \<Rightarrow> 'j \<Rightarrow> 'j option \<Rightarrow> ('m, 'j option) task" where
  "append_item E t x =
     (case x of
        None \<Rightarrow> ret None
      | Some i \<Rightarrow> do {
          emit (AddItem True);
          ret (Some (json_append E t i)) })"

text \<open>A chain of calls that each create an item and add it, and stop at the first failure.\<close>

fun add_members :: "'j esp \<Rightarrow> 'j \<Rightarrow> (string \<times> 'j option) list \<Rightarrow> ('m, 'j \<times> bool) task" where
  "add_members E t [] = ret (t, True)"
| "add_members E t ((name, x) # rest) = do {
     item \<leftarrow> create_item E x;
     r \<leftarrow> add_item E t name item;
     case r of
       None \<Rightarrow> ret (t, False)
     | Some t' \<Rightarrow> add_members E t' rest }"

text \<open>\<open>cJSON_PrintUnformatted\<close> into memory of its own, and \<open>cJSON_PrintPreallocated\<close>.\<close>

definition print_unformatted :: "'j esp \<Rightarrow> 'j \<Rightarrow> ('m, ptr) task" where
  "print_unformatted E t = do {
     p \<leftarrow> malloc E (Suc (length (json_print E t)));
     case p of
       None \<Rightarrow> ret None
     | Some a \<Rightarrow> do { store_at p 0 (json_print E t @ [NUL]); ret p } }"

definition print_preallocated :: "'j esp \<Rightarrow> 'j \<Rightarrow> ptr \<Rightarrow> nat \<Rightarrow> ('m, bool) task" where
  "print_preallocated E t out_buffer out_len =
     (case out_buffer of
        None \<Rightarrow> ret False
      | Some a \<Rightarrow> do {
          r \<leftarrow> call (\<lambda>h. if e_json_memory E h then json_print_into E out_len t else None)
                 (\<lambda>r. PrintItem (r \<noteq> None));
          case r of
            None \<Rightarrow> ret False
          | Some text \<Rightarrow> do { store_at out_buffer 0 (text @ [NUL]); ret True } })"

text \<open>The text of an item, read through its \<open>valuestring\<close>.\<close>

definition string_value :: "'j esp \<Rightarrow> 'j \<Rightarrow> ('m, string) task" where
  "string_value E x =
     (case json_valuestring E x of
        None \<Rightarrow> do { crash NullDeref; ret [] }
      | Some s \<Rightarrow> ret s)"

definition is_string_item :: "'j esp \<Rightarrow> 'j option \<Rightarrow> bool" where
  "is_string_item E x = (case x of None \<Rightarrow> False | Some i \<Rightarrow> json_is_string E i)"

text \<open>\<open>!ret || !cJSON_IsNumber (ret) || ret->valueint != 200\<close>.\<close>

definition is_200 :: "'j esp \<Rightarrow> 'j option \<Rightarrow> bool" where
  "is_200 E x = (case x of None \<Rightarrow> False | Some i \<Rightarrow> json_is_number E i \<and> json_valueint E i = 200)"

text \<open>The test of the device's name: \<open>True\<close> when the answer is refused.\<close>

definition refuses_tcid :: "'j esp \<Rightarrow> 'j option \<Rightarrow> ptr \<Rightarrow> ('m, bool) task" where
  "refuses_tcid E tcid mac =
     (if \<not> is_string_item E tcid then ret True
      else do {
        v \<leftarrow> string_value E (the tcid);
        m \<leftarrow> load_block mac;
        perform True (strcmp_equal (v @ [NUL]) m) })"

section \<open>Answers\<close>

definition finish_answer :: "'j option \<Rightarrow> 'j option \<Rightarrow> bool \<Rightarrow> ('m, bool) task" where
  "finish_answer response pack_dec err = do { delete_item response; delete_item pack_dec; ret err }"

text \<open>Decrypting the pack of an answer and parsing it; \<open>None\<close> when a step of this fails.\<close>

definition open_pack :: "'j esp \<Rightarrow> ('m, string) task \<Rightarrow> 'j \<Rightarrow> ('m, 'j option) task" where
  "open_pack E key pack = do {
     v \<leftarrow> string_value E pack;
     pack_dec \<leftarrow> malloc E (length v);
     if pack_dec = None then ret None
     else do {
       err \<leftarrow> ac_decrypt E key v pack_dec (length v);
       if \<not> err then do { release pack_dec; ret None }
       else do {
         text \<leftarrow> load_string pack_dec;
         r \<leftarrow> parse_item E text;
         release pack_dec;
         ret r } } }"

text \<open>A copy of an item's text in memory of its own, through an output parameter.\<close>

definition copy_out :: "'j esp \<Rightarrow> 'j \<Rightarrow> (ptr \<Rightarrow> ('m, unit) task) \<Rightarrow> ('m, bool) task" where
  "copy_out E x out = do {
     v \<leftarrow> string_value E x;
     p \<leftarrow> malloc E (Suc (length v));
     out p;
     if p = None then ret False
     else do { store_at p 0 (v @ [NUL]); ret True } }"

definition get_aes_key_from_json ::
  "'j esp \<Rightarrow> ptr \<Rightarrow> ptr \<Rightarrow> nat \<Rightarrow> (ptr \<Rightarrow> ('m, unit) task) \<Rightarrow> ('m, bool) task" where
  "get_aes_key_from_json E mac message_buffer buffer_size out_key = do {
     bytes \<leftarrow> load_at message_buffer 0 buffer_size;
     json_response \<leftarrow> parse_item E bytes;
     case json_response of
       None \<Rightarrow> finish_answer json_response None False
     | Some r \<Rightarrow>
         if \<not> json_has E r ''tcid'' then finish_answer (Some r) None False
         else do {
           refused \<leftarrow> refuses_tcid E (json_get E r ''tcid'') mac;
           if refused \<or> \<not> json_has E r ''pack'' then finish_answer (Some r) None False
           else
             (case json_get E r ''pack'' of
                None \<Rightarrow> finish_answer (Some r) None False
              | Some pack \<Rightarrow> do {
                  json_pack_dec \<leftarrow> open_pack E (ret generic_key) pack;
                  case json_pack_dec of
                    None \<Rightarrow> finish_answer (Some r) None False
                  | Some d \<Rightarrow>
                      if \<not> json_has E d ''r'' \<or> \<not> json_has E d ''key'' \<or> \<not> is_200 E (json_get E d ''r'')
                         \<or> \<not> is_string_item E (json_get E d ''key'')
                      then finish_answer (Some r) (Some d) False
                      else do {
                        err \<leftarrow> copy_out E (the (json_get E d ''key'')) out_key;
                        finish_answer (Some r) (Some d) err } }) } }"

definition get_mac_from_json_wlan ::
  "'j esp \<Rightarrow> ptr \<Rightarrow> nat \<Rightarrow> (ptr \<Rightarrow> ('m, unit) task) \<Rightarrow> ('m, bool) task" where
  "get_mac_from_json_wlan E message_buffer buffer_size out_mac = do {
     bytes \<leftarrow> load_at message_buffer 0 buffer_size;
     json_response \<leftarrow> parse_item E bytes;
     case json_response of
       None \<Rightarrow> finish_answer json_response None False
     | Some r \<Rightarrow>
         if \<not> json_has E r ''r'' \<or> \<not> json_has E r ''mac'' \<or> \<not> is_200 E (json_get E r ''r'')
            \<or> \<not> is_string_item E (json_get E r ''mac'')
            \<or> json_valuestring E (the (json_get E r ''mac'')) = None
         then finish_answer (Some r) None False
         else do {
           err \<leftarrow> copy_out E (the (json_get E r ''mac'')) out_mac;
           finish_answer (Some r) None err } }"

section \<open>The answer to a control request\<close>

definition ac_parameters_str :: "string list" where
  "ac_parameters_str = [''Pow'', ''Mod'', ''TemUn'', ''SetTem'', ''WdSpd'', ''Air'', ''Blo'', ''Health'',
     ''SwhSlp'', ''Lig'', ''SwingLfRig'', ''SwUpDn'', ''Quiet'', ''Tur'', ''StHt'', ''SvSt'']"

text \<open>
  A \<open>control_ac_pair\<close> in a message: the number of the parameter and its value, four bytes
  each, the least significant first.
\<close>

definition le_word :: "string \<Rightarrow> u32" where
  "le_word bs = word_of_nat (foldr (\<lambda>c n. of_char c + 256 * n) bs 0)"

definition load_pair :: "ptr \<Rightarrow> nat \<Rightarrow> ('m, nat \<times> int) task" where
  "load_pair pairs i = do {
     bs \<leftarrow> load_at pairs (8 * i) 8;
     ret (unat (le_word (take 4 bs)), sint (le_word (drop 4 bs))) }"

definition parameter_name :: "nat \<Rightarrow> ('m, string) task" where
  "parameter_name i =
     (if i < length ac_parameters_str then ret (ac_parameters_str ! i)
      else do { crash BufferOverflow; ret [] })"

text \<open>The inner loop: \<open>None\<close> when a value differs, else whether some pair has the name.\<close>

fun match_pairs ::
  "'j esp \<Rightarrow> ptr \<Rightarrow> 'j \<Rightarrow> 'j \<Rightarrow> nat list \<Rightarrow> bool \<Rightarrow> ('m, bool option) task" where
  "match_pairs E pairs parameter p_value [] found = ret (Some found)"
| "match_pairs E pairs parameter p_value (i # is) found = do {
     (n, v) \<leftarrow> load_pair pairs i;
     name \<leftarrow> parameter_name n;
     s \<leftarrow> string_value E parameter;
     if name = s
     then if v \<noteq> json_valueint E p_value then ret None
          else match_pairs E pairs parameter p_value is True
     else match_pairs E pairs parameter p_value is found }"

fun check_pairs :: "'j esp \<Rightarrow> ptr \<Rightarrow> nat \<Rightarrow> 'j list \<Rightarrow> 'j list \<Rightarrow> ('m, bool) task" where
  "check_pairs E pairs count (parameter # ps) (p_value # vs) = do {
     m \<leftarrow> match_pairs E pairs parameter p_value [0..<count] False;
     case m of
       None \<Rightarrow> ret False
     | Some found \<Rightarrow> if found then check_pairs E pairs count ps vs else ret False }"
| "check_pairs E pairs count ps vs = ret True"

definition check_answer_from_json ::
  "'j esp \<Rightarrow> ptr \<Rightarrow> nat \<Rightarrow> ptr \<Rightarrow> ptr \<Rightarrow> ptr \<Rightarrow> nat \<Rightarrow> ('m, bool) task" where
  "check_answer_from_json E message_buffer buffer_size key mac pairs count_pairs = do {
     bytes \<leftarrow> load_at message_buffer 0 buffer_size;
     json_response \<leftarrow> parse_item E bytes;
     case json_response of
       None \<Rightarrow> finish_answer json_response None False
     | Some r \<Rightarrow> do {
         refused \<leftarrow> refuses_tcid E (json_get E r ''tcid'') mac;
         if refused then finish_answer (Some r) None False
         else
           (case json_get E r ''pack'' of
              None \<Rightarrow> finish_answer (Some r) None False
            | Some pack \<Rightarrow> do {
                json_pack_dec \<leftarrow> open_pack E (load_string key) pack;
                case json_pack_dec of
                  None \<Rightarrow> finish_answer (Some r) None False
                | Some d \<Rightarrow>
                    if \<not> is_200 E (json_get E d ''ret'') then finish_answer (Some r) (Some d) False
                    else
                      (case (json_get E d ''opt'', json_get E d ''p'') of
                         (Some opt, Some p) \<Rightarrow> do {
                           err \<leftarrow> check_pairs E pairs count_pairs (json_children E opt) (json_children E p);
                           finish_answer (Some r) (Some d) err }
                       | _ \<Rightarrow> finish_answer (Some r) (Some d) False) }) } }"

section \<open>Requests\<close>

definition finish_request :: "'j option \<Rightarrow> 'j option \<Rightarrow> bool \<Rightarrow> ('m, bool) task" where
  "finish_request pack request err = do { delete_item pack; delete_item request; ret err }"

text \<open>
  From the pack to the text of the request: print the pack, encrypt it, build the request
  around it and print that. \<open>i\<close> is the number the request carries.
\<close>

definition send_pack ::
  "'j esp \<Rightarrow> ('m, string) task \<Rightarrow> 'j \<Rightarrow> int \<Rightarrow> ptr \<Rightarrow> ptr \<Rightarrow> nat \<Rightarrow> ('m, bool) task" where
  "send_pack E key pack i mac out_buffer out_len = do {
     pack_dec \<leftarrow> print_unformatted E pack;
     if pack_dec = None then finish_request (Some pack) None False
     else do {
       text \<leftarrow> load_string pack_dec;
       size \<leftarrow> perform 0 (get_output_length (length text));
       pack_enc \<leftarrow> malloc E size;
       if pack_enc = None then do { release pack_dec; finish_request (Some pack) None False }
       else do {
         err \<leftarrow> ac_encrypt E key pack_dec (length text) pack_enc size;
         if \<not> err then do { release pack_dec; release pack_enc; finish_request (Some pack) None False }
         else do {
           release pack_dec;
           request \<leftarrow> create_item E (Some (json_object E));
           case request of
             None \<Rightarrow> do { release pack_enc; finish_request (Some pack) None False }
           | Some t \<Rightarrow> do {
               (t, err) \<leftarrow> add_members E t
                 [(''cid'', Some (json_string E ''app'')), (''i'', Some (json_number E i))];
               if \<not> err then do { release pack_enc; finish_request (Some pack) (Some t) False }
               else do {
                 cipher \<leftarrow> string_item E pack_enc;
                 (t, err) \<leftarrow> add_members E t [(''pack'', cipher)];
                 release pack_enc;
                 if \<not> err then finish_request (Some pack) (Some t) False
                 else do {
                   (t, err) \<leftarrow> add_members E t [(''t'', Some (json_string E ''pack''))];
                   if \<not> err then finish_request (Some pack) (Some t) False
                   else do {
                     name \<leftarrow> string_item E mac;
                     (t, err) \<leftarrow> add_members E t
                       [(''tcid'', name), (''uid'', Some (json_number E 0))];
                     if \<not> err then finish_request (Some pack) (Some t) False
                     else do {
                       err \<leftarrow> print_preallocated E t out_buffer out_len;
                       finish_request (Some pack) (Some t) err } } } } } } } } }"

definition create_bind_json_request :: "'j esp \<Rightarrow> ptr \<Rightarrow> ptr \<Rightarrow> nat \<Rightarrow> ('m, bool) task" where
  "create_bind_json_request E mac out_buffer out_len = do {
     pack \<leftarrow> create_item E (Some (json_object E));
     case pack of
       None \<Rightarrow> finish_request pack None False
     | Some t \<Rightarrow> do {
         name \<leftarrow> string_item E mac;
         (t, err) \<leftarrow> add_members E t
           [(''mac'', name), (''t'', Some (json_string E ''bind'')), (''uid'', Some (json_number E 0))];
         if \<not> err then finish_request (Some t) None False
         else send_pack E (ret generic_key) t 1 mac out_buffer out_len } }"

definition create_wlan_json_request ::
  "'j esp \<Rightarrow> ('m, string) task \<Rightarrow> ('m, string) task \<Rightarrow> ptr \<Rightarrow> nat \<Rightarrow> ('m, bool) task" where
  "create_wlan_json_request E name psw out_buffer out_len = do {
     request \<leftarrow> create_item E (Some (json_object E));
     case request of
       None \<Rightarrow> finish_request None request False
     | Some t \<Rightarrow> do {
         p \<leftarrow> psw;
         (t, err) \<leftarrow> add_members E t [(''psw'', Some (json_string E p))];
         if \<not> err then finish_request None (Some t) False
         else do {
           s \<leftarrow> name;
           (t, err) \<leftarrow> add_members E t
             [(''ssid'', Some (json_string E s)), (''t'', Some (json_string E ''wlan''))];
           if \<not> err then finish_request None (Some t) False
           else do {
             err \<leftarrow> print_preallocated E t out_buffer out_len;
             finish_request None (Some t) err } } } }"

text \<open>The names, then the values of the pairs, as the two loops append them.\<close>

fun append_pairs :: "'j esp \<Rightarrow> (nat \<times> int \<Rightarrow> ('m, 'j option) task) \<Rightarrow> ptr \<Rightarrow> 'j \<Rightarrow> nat list \<Rightarrow>
    ('m, 'j \<times> bool) task" where
  "append_pairs E f pairs t [] = ret (t, True)"
| "append_pairs E f pairs t (i # is) = do {
     pair \<leftarrow> load_pair pairs i;
     x \<leftarrow> f pair;
     item \<leftarrow> create_item E x;
     r \<leftarrow> append_item E t item;
     case r of
       None \<Rightarrow> ret (t, False)
     | Some t' \<Rightarrow> append_pairs E f pairs t' is }"

definition create_control_json_request ::
  "'j esp \<Rightarrow> ptr \<Rightarrow> ptr \<Rightarrow> ptr \<Rightarrow> nat \<Rightarrow> ptr \<Rightarrow> nat \<Rightarrow> ('m, bool) task" where
  "create_control_json_request E key mac pairs count_pairs out_buffer out_len = do {
     pack \<leftarrow> create_item E (Some (json_object E));
     case pack of
       None \<Rightarrow> finish_request pack None False
     | Some pack \<Rightarrow> do {
     opt \<leftarrow> create_item E (Some (json_array E));
     case opt of
       None \<Rightarrow> finish_request (Some pack) None False
     | Some opt \<Rightarrow> do {
     (opt, err) \<leftarrow> append_pairs E
       (\<lambda>(n, v). do { s \<leftarrow> parameter_name n; ret (Some (json_string E s)) }) pairs opt [0..<count_pairs];
     if \<not> err then finish_request (Some pack) None False
     else do {
     r \<leftarrow> add_item E pack ''opt'' (Some opt);
     case r of
       None \<Rightarrow> finish_request (Some pack) None False
     | Some pack \<Rightarrow> do {
     p \<leftarrow> create_item E (Some (json_array E));
     case p of
       None \<Rightarrow> finish_request (Some pack) None False
     | Some p \<Rightarrow> do {
     (p, err) \<leftarrow> append_pairs E (\<lambda>(n, v). ret (Some (json_number E v))) pairs p [0..<count_pairs];
     if \<not> err then finish_request (Some pack) None False
     else do {
     r \<leftarrow> add_item E pack ''p'' (Some p);
     case r of
       None \<Rightarrow> finish_request (Some pack) None False
     | Some pack \<Rightarrow> do {
     (pack, err) \<leftarrow> add_members E pack [(''t'', Some (json_string E ''cmd''))];
     if \<not> err then finish_request (Some pack) None False
     else send_pack E (load_string key) pack 0 mac out_buffer out_len } } } } } } } }"

section \<open>Whose answers are accepted\<close>

text \<open>The answer parses to \<open>r\<close>, whose \<open>tcid\<close> is the text \<open>name\<close>.\<close>

definition answers_as :: "'j esp \<Rightarrow> string \<Rightarrow> string \<Rightarrow> bool" where
  "answers_as E text name \<longleftrightarrow> (\<exists>r t. json_parse E text = Some r \<and> json_has E r ''tcid'' \<and>
     json_get E r ''tcid'' = Some t \<and> json_is_string E t \<and> json_valuestring E t = Some name)"

lemma run_finish_answer:
  "fst (run_state (finish_answer a b e) w) = e"
  "fault (snd (run_state (finish_answer a b e) w)) = fault w"
  "vars (snd (run_state (finish_answer a b e) w)) = vars w"
  by (simp_all add: finish_answer_def delete_item_def split: option.split)

lemma run_refuses_tcid:
  assumes "is_string_item E tcid" "json_valuestring E (the tcid) = Some name" "NUL \<notin> set name"
    "blocks (vars w) a = Some bs" "NUL \<in> set bs"
  shows "run_state (refuses_tcid E tcid (Some a)) w = (name = c_string bs, w)"
proof -
  have "c_string (name @ [NUL]) = name" using assms(3) by (simp add: c_string_def takeWhile_append)
  then have "strcmp_equal (name @ [NUL]) bs = ok (name = c_string bs)"
    using assms(5) strcmp_equal_strings [of "name @ [NUL]" bs] by simp
  with assms show ?thesis by (simp add: refuses_tcid_def string_value_def)
qed

text \<open>C24: Both readers of answers have the comparison the wrong way round: an answer whose
  \<open>tcid\<close> is the name of the device that was asked is refused, whatever else it says. The key of
  the record is not written, and nothing is stored.\<close>

theorem right_device_refused:
  assumes "fault w = None" "e_json_memory E (history w)"
    "blocks (vars w) p = Some (text @ rest)" "answers_as E text name" "NUL \<notin> set name"
    "blocks (vars w) a = Some (name @ NUL # junk)"
  shows "(case run_state (get_aes_key_from_json E (Some a) (Some p) (length text) out_key) w of
      (err, w') \<Rightarrow> \<not> err \<and> fault w' = None \<and> vars w' = vars w) \<and>
    (case run_state (check_answer_from_json E (Some p) (length text) key (Some a) pairs n) w of
      (err, w') \<Rightarrow> \<not> err \<and> fault w' = None \<and> vars w' = vars w)"
proof -
  from assms(4) obtain r t where r: "json_parse E text = Some r" "json_has E r ''tcid''"
    "json_get E r ''tcid'' = Some t" "json_is_string E t" "json_valuestring E t = Some name"
    by (auto simp: answers_as_def)
  have same: "c_string (name @ NUL # junk) = name"
    using assms(5) by (simp add: c_string_def takeWhile_append)
  have refuse: "run_state (refuses_tcid E (Some t) (Some a)) v = (True, v)"
    if "vars v = vars w" for v
    using run_refuses_tcid [of E "Some t" name v a "name @ NUL # junk"] r assms(5,6) that same
    by (simp add: is_string_item_def)
  let ?w = "w\<lparr>history := ParseItem True # history w\<rparr>"
  have start: "run_state (load_at (Some p) 0 (length text)) w = (text, w)"
    "run_state (parse_item E text) w = (Some r, ?w)"
    using assms(1,2,3) r(1) by (simp_all add: run_load_at parse_item_def)
  show ?thesis
    using r(2,3) refuse [of ?w] assms(1) run_finish_answer [of "Some r" None False ?w]
    by (cases "run_state (finish_answer (Some r) None False) ?w")
      (simp add: get_aes_key_from_json_def check_answer_from_json_def start)
qed

definition demo_answer :: string where "demo_answer = ''{answer of a}''"

definition demo_json :: "tree esp" where
  "demo_json = demo_esp [demo_answer \<mapsto> Obj [(''tcid'', Txt ''a''), (''pack'', Txt ''abcd'')]]"

definition demo_answered :: "(esp_event, memory) machine" where
  "demo_answered = \<lparr>history = [], fault = None, vars = \<lparr>
     blocks = [0 \<mapsto> demo_answer, 1 \<mapsto> [CHR ''a'', NUL]],
     instances = Map.empty, ac_list = None, next_address = 2\<rparr>\<rparr>"

theorem right_device_refused_witness:
  "\<not> fst (run_state (get_aes_key_from_json demo_json (Some 1) (Some 0) (length demo_answer) (\<lambda>_. skip))
     demo_answered)"
proof -
  have "case run_state (get_aes_key_from_json demo_json (Some 1) (Some 0) (length demo_answer) (\<lambda>_. skip))
      demo_answered of (err, w') \<Rightarrow> \<not> err \<and> fault w' = None \<and> vars w' = vars demo_answered"
    by (rule right_device_refused [where name = "''a''" and junk = "[]" and rest = "[]", THEN conjunct1])
      (simp_all add: demo_answered_def demo_json_def demo_esp_def answers_as_def NUL_def)
  then show ?thesis by (simp split: prod.splits)
qed

end
