(* ===== verification/AcBalance.thy ===== *)
theory AcBalance
  imports AcJson
begin

text \<open>
  What the messages of \<open>ac_gree.c\<close> allocate, they give back. A weight of the events gives the
  value \<open>gain\<close> to an allocation and the opposite to a release; adding an item to another one
  hands it over, and an item that could not be added is counted as handed over too, since
  the code drops it. The locale proves what each function adds to the sum of the weights
  once, for every such weight: with \<open>gain = 1\<close> the sum counts what is allocated; with
  \<open>gain = 0\<close> the weight is one of the tasks' own events, which these functions leave alone.
\<close>

lemma weighs_crash_return: "weighs \<mu> (do { crash f; ret x }) c"
  by (auto simp: weighs_def)

lemma weighs_run:
  "weighs \<mu> m n \<Longrightarrow>
   (case run_state m w of (a, w') \<Rightarrow> fault w' = None \<longrightarrow> total \<mu> w' = total \<mu> w + n a)"
  by (auto simp: weighs_def split: prod.split)

locale esp_weight =
  fixes \<mu> :: "esp_event \<Rightarrow> int" and gain :: int
  assumes malloc_weight: "\<mu> (Malloc n b) = (if b then gain else 0)"
    and release_weight: "\<mu> (Release a) = - gain"
    and malloc_instance_weight: "\<mu> (MallocInstance b) = (if b then gain else 0)"
    and release_instance_weight: "\<mu> (ReleaseInstance a) = - gain"
    and create_weight: "\<mu> (CreateItem b) = (if b then gain else 0)"
    and parse_weight: "\<mu> (ParseItem b) = (if b then gain else 0)"
    and add_weight: "\<mu> (AddItem b) = - gain"
    and delete_weight: "\<mu> DeleteItem = - gain"
    and print_weight: "\<mu> (PrintItem b) = 0"
begin

lemmas item_weights = malloc_weight release_weight malloc_instance_weight release_instance_weight
  create_weight parse_weight add_weight delete_weight print_weight

section \<open>Memory\<close>

lemma w_malloc: "weighs \<mu> (malloc E n) (\<lambda>p. if p = None then 0 else gain)"
  unfolding malloc_def
  by (rule weighs_rules | simp add: item_weights split: option.split)+

lemma w_release: "weighs \<mu> (release p) (\<lambda>_. if p = None then 0 else - gain)"
  unfolding release_def
  by (rule weighs_rules | simp add: item_weights)+

lemma bind_malloc:
  "(\<And>p. weighs \<mu> (k p) (\<lambda>b. c b - (if p = None then 0 else gain))) \<Longrightarrow>
   weighs \<mu> (State_Monad.bind (malloc E n) k) c"
  by (rule weighs_bind [OF w_malloc])

lemma bind_release:
  "weighs \<mu> (k ()) (\<lambda>b. c b - (if p = None then 0 else - gain)) \<Longrightarrow>
   weighs \<mu> (State_Monad.bind (release p) k) c"
  by (rule weighs_bind [OF w_release]) simp

lemma w_perform: "weighs \<mu> (perform d x) (\<lambda>_. 0)"
  by (cases x) (auto simp: perform_def split: sum.split intro!: weighs_rules)

lemma w_load_block: "weighs \<mu> (load_block p) (\<lambda>_. 0)"
  unfolding load_block_def by (rule weighs_rules | simp)+

lemma w_array_string: "weighs \<mu> (array_string cs) (\<lambda>_. 0)"
  unfolding array_string_def by (rule weighs_rules weighs_crash_return | simp)+

lemma w_store_at: "weighs \<mu> (store_at p i cs) (\<lambda>_. 0)"
  unfolding store_at_def by (rule weighs_bind_free [OF w_load_block] weighs_rules | simp)+

lemma w_load_at: "weighs \<mu> (load_at p i n) (\<lambda>_. 0)"
  unfolding load_at_def by (rule weighs_bind_free [OF w_load_block] weighs_rules | simp)+

lemma w_load_string: "weighs \<mu> (load_string p) (\<lambda>_. 0)"
  unfolding load_string_def by (rule weighs_bind_free [OF w_load_block] weighs_rules | simp)+

lemma w_crypt_blocks: "weighs \<mu> (crypt_blocks f p q is) (\<lambda>_. 0)"
proof (induction "is")
  case Nil
  then show ?case by (simp add: weighs_return)
next
  case (Cons i "is")
  show ?case
    by (simp, (rule weighs_bind_free [OF w_load_at] weighs_bind_free [OF w_store_at] Cons weighs_rules | simp)+)
qed

lemmas memory_rules = weighs_crash_return bind_malloc bind_release w_perform w_load_block w_store_at
  w_load_at w_load_string w_crypt_blocks weighs_bind_free [OF w_perform]
  weighs_bind_free [OF w_load_block] weighs_bind_free [OF w_store_at] weighs_bind_free [OF w_load_at]
  weighs_bind_free [OF w_load_string] weighs_bind_free [OF w_crypt_blocks]

lemma w_ac_encrypt:
  assumes "weighs \<mu> key (\<lambda>_. 0)"
  shows "weighs \<mu> (ac_encrypt E key p n q m) (\<lambda>_. 0)"
  unfolding ac_encrypt_def
  by (rule memory_rules weighs_bind_free [OF assms] weighs_rules | (auto; fail))+

lemma w_ac_decrypt:
  assumes "weighs \<mu> key (\<lambda>_. 0)"
  shows "weighs \<mu> (ac_decrypt E key text q m) (\<lambda>_. 0)"
  unfolding ac_decrypt_def
  by (rule memory_rules weighs_bind_free [OF assms] weighs_rules | (auto; fail))+

section \<open>Items\<close>

lemma w_parse_item: "weighs \<mu> (parse_item E text) (\<lambda>r. if r = None then 0 else gain)"
  unfolding parse_item_def by (rule weighs_call) (simp add: item_weights)

lemma w_create_item: "weighs \<mu> (create_item E x) (\<lambda>r. if r = None then 0 else gain)"
  unfolding create_item_def by (rule weighs_call) (simp add: item_weights)

lemma w_delete_item: "weighs \<mu> (delete_item x) (\<lambda>_. if x = None then 0 else - gain)"
  unfolding delete_item_def by (rule weighs_rules | simp add: item_weights)+

lemma w_add_item: "weighs \<mu> (add_item E t name x) (\<lambda>_. if x = None then 0 else - gain)"
  unfolding add_item_def by (rule weighs_rules | simp add: item_weights)+

lemma w_append_item: "weighs \<mu> (append_item E t x) (\<lambda>_. if x = None then 0 else - gain)"
  unfolding append_item_def by (rule weighs_rules | simp add: item_weights)+

lemma w_string_value: "weighs \<mu> (string_value E x) (\<lambda>_. 0)"
  unfolding string_value_def by (rule weighs_rules | simp)+

lemma w_string_item: "weighs \<mu> (string_item E p) (\<lambda>_. 0)"
  unfolding string_item_def by (rule memory_rules weighs_rules | simp)+

lemmas item_rules = weighs_bind [OF w_parse_item] weighs_bind [OF w_create_item]
  weighs_bind [OF w_delete_item] weighs_bind [OF w_add_item] weighs_bind [OF w_append_item]
  w_string_value w_string_item weighs_bind_free [OF w_string_value] weighs_bind_free [OF w_string_item]

lemma w_add_members: "weighs \<mu> (add_members E t xs) (\<lambda>_. 0)"
proof (induction xs arbitrary: t)
  case Nil
  then show ?case by (simp add: weighs_return)
next
  case (Cons x xs)
  then show ?case
    by (cases x) (simp, (rule item_rules Cons weighs_rules | (auto; fail))+)
qed

lemma w_print_unformatted: "weighs \<mu> (print_unformatted E t) (\<lambda>p. if p = None then 0 else gain)"
  unfolding print_unformatted_def by (rule memory_rules weighs_rules | (auto; fail))+

lemma w_print_preallocated: "weighs \<mu> (print_preallocated E t p n) (\<lambda>_. 0)"
  unfolding print_preallocated_def
  by (rule memory_rules weighs_rules | (auto simp: item_weights; fail))+

lemma w_refuses_tcid: "weighs \<mu> (refuses_tcid E x mac) (\<lambda>_. 0)"
  unfolding refuses_tcid_def by (rule memory_rules item_rules weighs_rules | (auto; fail))+

lemma w_open_pack:
  assumes "weighs \<mu> key (\<lambda>_. 0)"
  shows "weighs \<mu> (open_pack E key pack) (\<lambda>r. if r = None then 0 else gain)"
  unfolding open_pack_def
  by (rule memory_rules weighs_bind_free [OF w_ac_decrypt [OF assms]] item_rules weighs_rules
      | (auto; fail))+

lemma w_copy_out:
  assumes "\<And>p. weighs \<mu> (out p) (\<lambda>_. 0)"
  shows "weighs \<mu> (copy_out E x out) (\<lambda>err. if err then gain else 0)"
  unfolding copy_out_def
  by (rule memory_rules weighs_bind_free [OF assms] item_rules weighs_rules | (auto; fail))+

lemma w_finish:
  "c e = (if a = None then 0 else - gain) + (if b = None then 0 else - gain) \<Longrightarrow>
     weighs \<mu> (finish_answer a b e) c"
  "d e = (if a = None then 0 else - gain) + (if b = None then 0 else - gain) \<Longrightarrow>
     weighs \<mu> (finish_request a b e) d"
  unfolding finish_answer_def finish_request_def
  by (rule item_rules weighs_rules | (auto; fail))+

section \<open>Records\<close>

lemma w_put_instance: "weighs \<mu> (load_instance i) (\<lambda>_. 0)" "weighs \<mu> (put_instance i f) (\<lambda>_. 0)"
  "weighs \<mu> (store_mac i p) (\<lambda>_. 0)" "weighs \<mu> (store_aes_key i p) (\<lambda>_. 0)"
  unfolding store_mac_def store_aes_key_def put_instance_def load_instance_def
  by (rule weighs_rules | simp)+

lemma w_get_ac_record: "weighs \<mu> (get_ac_record bs) (\<lambda>_. 0)"
  unfolding get_ac_record_def by (rule memory_rules weighs_rules | simp)+

lemma w_malloc_instance: "weighs \<mu> (malloc_instance E) (\<lambda>p. if p = None then 0 else gain)"
  unfolding malloc_instance_def
  by (rule weighs_rules | simp add: item_weights split: option.split)+

lemma w_add_record: "weighs \<mu> (add_new_ac_record E) (\<lambda>p. if p = None then 0 else gain)"
  unfolding add_new_ac_record_def
  by (rule weighs_bind [OF w_malloc_instance] weighs_bind_free [OF w_put_instance(2)]
      memory_rules weighs_rules | (auto; fail))+

section \<open>Answers\<close>

lemmas answer_rules = memory_rules item_rules weighs_bind_free [OF w_refuses_tcid]
  weighs_bind [OF w_open_pack] weighs_bind [OF w_copy_out]
  weighs_bind [OF w_print_unformatted] weighs_bind_free [OF w_print_preallocated]
  weighs_bind_free [OF w_add_members] weighs_bind_free [OF w_ac_encrypt]

lemma w_get_aes_key:
  assumes "\<And>p. weighs \<mu> (out p) (\<lambda>_. 0)"
  shows "weighs \<mu> (get_aes_key_from_json E mac p n out) (\<lambda>err. if err then gain else 0)"
  unfolding get_aes_key_from_json_def
  by (rule w_finish answer_rules assms weighs_return weighs_rules | (auto; fail))+

lemma w_get_mac:
  assumes "\<And>p. weighs \<mu> (out p) (\<lambda>_. 0)"
  shows "weighs \<mu> (get_mac_from_json_wlan E p n out) (\<lambda>err. if err then gain else 0)"
  unfolding get_mac_from_json_wlan_def
  by (rule w_finish answer_rules assms weighs_rules | (auto; fail))+

lemma w_load_pair: "weighs \<mu> (load_pair p i) (\<lambda>_. 0)"
  unfolding load_pair_def by (rule memory_rules weighs_rules | (auto; fail))+

lemma w_parameter_name: "weighs \<mu> (parameter_name n) (\<lambda>_. 0)"
  unfolding parameter_name_def by (rule weighs_rules | (auto; fail))+

lemmas pair_rules = weighs_bind_free [OF w_load_pair] weighs_bind_free [OF w_parameter_name]

lemma w_match_pairs: "weighs \<mu> (match_pairs E p x v is b) (\<lambda>_. 0)"
proof (induction "is" arbitrary: b)
  case Nil
  then show ?case by (simp add: weighs_return)
next
  case (Cons i "is")
  show ?case
    unfolding match_pairs.simps by (rule pair_rules item_rules Cons weighs_rules | (auto; fail))+
qed

lemma w_check_pairs: "weighs \<mu> (check_pairs E p n xs vs) (\<lambda>_. 0)"
proof (induction xs arbitrary: vs)
  case Nil
  then show ?case by (simp add: weighs_return)
next
  case (Cons x xs)
  then show ?case
    by (cases vs) (simp_all add: weighs_return,
      (rule weighs_bind_free [OF w_match_pairs] Cons weighs_rules | (auto; fail))+)
qed

lemma w_check_answer: "weighs \<mu> (check_answer_from_json E p n key mac pairs k) (\<lambda>_. 0)"
  unfolding check_answer_from_json_def
  by (rule w_finish answer_rules w_load_string weighs_bind_free [OF w_check_pairs] weighs_return weighs_rules
      | (auto; fail))+

section \<open>Requests\<close>

lemma w_send_pack:
  assumes "weighs \<mu> key (\<lambda>_. 0)"
  shows "weighs \<mu> (send_pack E key t i mac p n) (\<lambda>_. - gain)"
  unfolding send_pack_def
  by (rule w_finish answer_rules assms weighs_rules | (auto; fail))+

lemma w_bind_request: "weighs \<mu> (create_bind_json_request E mac p n) (\<lambda>_. 0)"
  unfolding create_bind_json_request_def
  by (rule w_finish answer_rules weighs_bind [OF w_send_pack] weighs_cong [OF w_send_pack] weighs_rules
      | (auto; fail))+

lemma w_wlan_request:
  assumes "weighs \<mu> a (\<lambda>_. 0)" "weighs \<mu> b (\<lambda>_. 0)"
  shows "weighs \<mu> (create_wlan_json_request E a b p n) (\<lambda>_. 0)"
  unfolding create_wlan_json_request_def
  by (rule w_finish assms [THEN weighs_bind_free] answer_rules weighs_rules | (auto; fail))+

end

text \<open>A weight that is blind to memory: the control request, whose failures drop items, too.\<close>

locale quiet_weight = esp_weight \<mu> 0 for \<mu> :: "esp_event \<Rightarrow> int"
begin

lemma w_delete_record: "weighs \<mu> (delete_ac_record p) (\<lambda>_. 0)"
  unfolding delete_ac_record_def
  by (rule memory_rules w_put_instance weighs_bind_free [OF w_put_instance(1)]
      weighs_bind_free [OF weighs_option] weighs_rules | (auto simp: item_weights; fail))+

lemma w_append_pairs:
  assumes "\<And>pair. weighs \<mu> (f pair) (\<lambda>_. 0)"
  shows "weighs \<mu> (append_pairs E f p t is) (\<lambda>_. 0)"
proof (induction "is" arbitrary: t)
  case Nil
  then show ?case by (simp add: weighs_return)
next
  case (Cons i "is")
  show ?case
    unfolding append_pairs.simps
    by (rule pair_rules item_rules weighs_bind_free [OF assms] weighs_cong [OF Cons] weighs_rules
        | (auto; fail))+
qed

lemma w_control_request: "weighs \<mu> (create_control_json_request E key mac pairs k p n) (\<lambda>_. 0)"
proof -
  have "weighs \<mu> (case x of (n, v) \<Rightarrow> do { s \<leftarrow> parameter_name n; ret (Some (json_string E s)) }) (\<lambda>_. 0)"
    "weighs \<mu> (case x of (n, v) \<Rightarrow> ret (Some (json_number E v))) (\<lambda>_. 0)" for x
    by (rule pair_rules weighs_rules | simp)+
  note pairs = this [THEN w_append_pairs]
  show ?thesis
    unfolding create_control_json_request_def
    by (rule w_finish pairs [THEN weighs_bind_free] answer_rules weighs_cong [OF w_send_pack]
        w_load_string weighs_rules | (auto; fail))+
qed

end

section \<open>Counting what is allocated\<close>

fun heap_weight :: "esp_event \<Rightarrow> int" where
  "heap_weight (Malloc n b) = (if b then 1 else 0)"
| "heap_weight (Release a) = - 1"
| "heap_weight (MallocInstance b) = (if b then 1 else 0)"
| "heap_weight (ReleaseInstance a) = - 1"
| "heap_weight (CreateItem b) = (if b then 1 else 0)"
| "heap_weight (ParseItem b) = (if b then 1 else 0)"
| "heap_weight (AddItem b) = - 1"
| "heap_weight DeleteItem = - 1"
| "heap_weight _ = 0"

interpretation heap: esp_weight heap_weight 1
  by unfold_locales simp_all


definition demo_start :: "(esp_event, memory) machine" where
  "demo_start = \<lparr>history = [], fault = None, vars = \<lparr>blocks = [0 \<mapsto> replicate 64 NUL],
     instances = Map.empty, ac_list = None, next_address = 1\<rparr>\<rparr>"


end
