(* ===== verification/Interconn.thy ===== *)
theory Interconn
  imports AcBalance
begin

text \<open>
  The calls by which the tasks of the firmware talk to each other (event groups, queues,
  message buffers and mutexes of FreeRTOS), and \<open>custom_allocate_memory_for_buffer\<close> of
  \<open>interconn_pipe.c\<close>. A pipe is the group, the queue, the message buffer and the mutex of one
  task. \<open>message_limit\<close> is what FreeRTOS documents of \<open>xMessageBufferReceive\<close>: a message longer
  than the space offered stays in the buffer, and 0 is returned.
\<close>

section \<open>Calls\<close>

unbundle bit_operations_syntax

definition has_bit :: "bits \<Rightarrow> bits \<Rightarrow> bool" where
  "has_bit b m \<longleftrightarrow> b AND m \<noteq> 0"

text \<open>\<open>sizeof (message_buffer_udp)\<close>: the size of a pointer.\<close>

definition POINTER_SIZE :: nat where "POINTER_SIZE = 4"


definition wait_bits :: "'j esp \<Rightarrow> group \<Rightarrow> bits \<Rightarrow> (esp_event, 'd, bits) prog" where
  "wait_bits E g b = call (\<lambda>h. e_wait E h g b) (\<lambda>r. Wait g b r)"

definition set_bits :: "group \<Rightarrow> bits \<Rightarrow> (esp_event, 'd, unit) prog" where
  "set_bits g b = emit (SetBits g b)"

definition take_mutex :: "'j esp \<Rightarrow> mutex \<Rightarrow> (esp_event, 'd, bool) prog" where
  "take_mutex E m = call (\<lambda>h. e_take E h m) (\<lambda>r. Take m r)"

definition give_mutex :: "mutex \<Rightarrow> (esp_event, 'd, unit) prog" where
  "give_mutex m = emit (Give m)"

definition queue_reset :: "queue \<Rightarrow> (esp_event, 'd, unit) prog" where
  "queue_reset q = emit (QueueReset q)"

definition queue_send :: "'j esp \<Rightarrow> queue \<Rightarrow> payload \<Rightarrow> (esp_event, 'd, bool) prog" where
  "queue_send E q x = call (\<lambda>h. e_send E h q) (\<lambda>r. QueueSend q x r)"

definition receive_wifi :: "'j esp \<Rightarrow> (esp_event, 'd, wifi_data option) prog" where
  "receive_wifi E = call (e_receive_wifi E) (\<lambda>r. QueueReceive WifiQueue (map_option WifiItem r))"

definition receive_udp :: "'j esp \<Rightarrow> (esp_event, 'd, udp_data option) prog" where
  "receive_udp E = call (e_receive_udp E) (\<lambda>r. QueueReceive UdpQueue (map_option UdpItem r))"

definition receive_ac :: "'j esp \<Rightarrow> (esp_event, 'd, ac_data option) prog" where
  "receive_ac E = call (e_receive_ac E) (\<lambda>r. QueueReceive AcQueue (map_option AcItem r))"

definition message_reset :: "msg_buffer \<Rightarrow> (esp_event, 'd, unit) prog" where
  "message_reset b = emit (MessageReset b)"

definition message_send :: "'j esp \<Rightarrow> msg_buffer \<Rightarrow> string \<Rightarrow> (esp_event, 'd, nat) prog" where
  "message_send E b bs = call (\<lambda>h. e_message_send E h b bs) (\<lambda>n. MessageSend b bs n)"

text \<open>Receiving into \<open>n\<close> bytes at a pointer; the length of what was received.\<close>

definition message_receive :: "'j esp \<Rightarrow> msg_buffer \<Rightarrow> ptr \<Rightarrow> nat \<Rightarrow> ('m, nat) task" where
  "message_receive E b p n = do {
     bs \<leftarrow> call (\<lambda>h. e_message_receive E h b n) (\<lambda>bs. MessageReceive b n bs);
     (if bs = [] then skip else store_at p 0 bs);
     ret (length bs) }"

text \<open>
  \<open>custom_allocate_memory_for_buffer\<close>: the new value of the pointer, the length of the next
  message, and whether it succeeded. The length is what \<open>xMessageBufferReceive\<close> returns for no
  space at all.
\<close>

definition custom_allocate_memory_for_buffer ::
  "'j esp \<Rightarrow> msg_buffer \<Rightarrow> ptr \<Rightarrow> ('m, ptr \<times> nat \<times> bool) task" where
  "custom_allocate_memory_for_buffer E b dest = do {
     release dest;
     received \<leftarrow> message_receive E b None 0;
     if received = 0 then ret (None, 0, False)
     else do {
       p \<leftarrow> malloc E received;
       if p = None then ret (None, 0, False) else ret (p, received, True) } }"

section \<open>What FreeRTOS documents\<close>

definition message_limit :: "'j esp \<Rightarrow> bool" where
  "message_limit E \<longleftrightarrow> (\<forall>h b n. length (e_message_receive E h b n) \<le> n)"

lemma run_custom_allocate:
  assumes "message_limit E" "fault w = None" "allocated (vars w) p"
  shows "run_state (custom_allocate_memory_for_buffer E b p) w =
    ((None, 0, False), w\<lparr>history := MessageReceive b 0 [] # release_events p @ history w,
       vars := (vars w)\<lparr>blocks := drop_block p (blocks (vars w))\<rparr>\<rparr>)"
proof -
  have "e_message_receive E h b 0 = []" for h
    using assms(1) by (metis le_zero_eq length_0_conv message_limit_def)
  with assms(2,3) show ?thesis
    by (simp add: custom_allocate_memory_for_buffer_def run_release message_receive_def)
qed

lemma run_custom_allocate_null:
  assumes "message_limit E"
  shows "run_state (custom_allocate_memory_for_buffer E b None) w =
    ((None, 0, False), if fault w = None then w\<lparr>history := MessageReceive b 0 [] # history w\<rparr> else w)"
proof -
  have "e_message_receive E h b 0 = []" for h
    using assms by (metis le_zero_eq length_0_conv message_limit_def)
  then show ?thesis
    by (simp add: custom_allocate_memory_for_buffer_def release_def message_receive_def)
qed

section \<open>Runs without a fault\<close>

abbreviation steady :: "('d \<Rightarrow> bool) \<Rightarrow> ('e, 'd, 'a) prog \<Rightarrow> bool" where
  "steady P m \<equiv> triple P m (\<lambda>_. P)"

lemma steady_calls:
  "steady P (wait_bits E g b)" "steady P (set_bits g b)" "steady P (take_mutex E m)"
  "steady P (give_mutex m)" "steady P (queue_reset q)" "steady P (queue_send E q x)"
  "steady P (receive_wifi E)" "steady P (receive_udp E)" "steady P (receive_ac E)"
  "steady P (message_reset mb)" "steady P (message_send E mb bs)"
  unfolding wait_bits_def set_bits_def take_mutex_def give_mutex_def queue_reset_def queue_send_def
    receive_wifi_def receive_udp_def receive_ac_def message_reset_def message_send_def
  by (rule triple_rules | simp)+

lemma triple_bind_value:
  assumes "triple P m (\<lambda>r v. P v \<and> r = x)" "triple P (k x) Q"
  shows "triple P (State_Monad.bind m k) Q"
  by (rule triple_bind [OF assms(1)]) (use assms(2) in \<open>auto simp: triple_def\<close>)

lemma triple_bind_return: "triple P (k x) Q \<Longrightarrow> triple P (State_Monad.bind (ret x) k) Q"
  by (simp add: triple_def)

lemma steady_release_null:
  "(\<And>v. P v \<Longrightarrow> g v = None) \<Longrightarrow> steady P (do { p \<leftarrow> reads g; release p })"
  by (rule triple_bind_primitive(2)) (auto simp: release_def intro!: triple_primitive)

lemma operation_bits [simp]: "OPERATION_FAILED \<noteq> OPERATION_SUCCESS" "OPERATION_SUCCESS \<noteq> OPERATION_FAILED"
  by (simp_all add: OPERATION_SUCCESS_def OPERATION_FAILED_def BIT0_def BIT1_def)

text \<open>Runs without a fault that leave a total of weights as it was.\<close>

definition silent :: "(esp_event \<Rightarrow> int) \<Rightarrow> ('d \<Rightarrow> bool) \<Rightarrow> (esp_event, 'd, 'a) prog \<Rightarrow> ('a \<Rightarrow> 'd \<Rightarrow> bool) \<Rightarrow> bool" where
  "silent \<mu> P m Q \<longleftrightarrow>
     (\<forall>w a w'. run_state m w = (a, w') \<longrightarrow> fault w = None \<longrightarrow> P (vars w) \<longrightarrow>
        fault w' = None \<and> Q a (vars w') \<and> total \<mu> w' = total \<mu> w)"

lemma silentI:
  assumes "triple P m Q" "weighs \<mu> m n" "\<And>a v. Q a v \<Longrightarrow> n a = 0"
  shows "silent \<mu> P m Q"
  unfolding silent_def using assms(1,3) weighsD(2) [OF assms(2)] by (fastforce simp: triple_def)

lemma silent_bind:
  assumes "silent \<mu> P m R" "\<And>a. silent \<mu> (R a) (k a) Q"
  shows "silent \<mu> P (State_Monad.bind m k) Q"
proof -
  have "fault w' = None \<and> Q b (vars w') \<and> total \<mu> w' = total \<mu> w"
    if run: "run_state (State_Monad.bind m k) w = (b, w')" "fault w = None" "P (vars w)" for w b w'
  proof -
    obtain a w1 where m: "run_state m w = (a, w1)" by (cases "run_state m w")
    with run(1) have k: "run_state (k a) w1 = (b, w')" by simp
    have "fault w1 = None" "R a (vars w1)" "total \<mu> w1 = total \<mu> w"
      using assms(1) m run(2,3) unfolding silent_def by blast+
    with k assms(2) [of a] show ?thesis unfolding silent_def by metis
  qed
  then show ?thesis by (simp add: silent_def)
qed

lemma silent_pre: "(b \<Longrightarrow> silent \<mu> P m Q) \<Longrightarrow> silent \<mu> (\<lambda>v. P v \<and> b) m Q"
  by (cases b) (auto simp: silent_def)

end
