(* ===== verification/AcClient.thy ===== *)
theory AcClient
  imports Interconn
begin

text \<open>
  The task \<open>ac_client\<close> of \<open>firmware_esp32/main/ac_gree.c\<close>: it waits for a request, has the
  Wi-Fi task connect, exchanges a message with an air conditioner through the UDP task, and
  answers with one of two bits. Each kind of request is a definition that returns whether the
  code reaches the end of its branch (\<open>True\<close>) or jumps to \<open>failed\<close>; \<open>ac_client_pass\<close> is one pass
  of the endless loop, \<open>ac_client\<close> the first passes of the task. The task's variables extend
  the memory; the two buffer pointers are not cleared at the end of a pass, as in the code.
\<close>

section \<open>The task\<close>

record ac_task = memory +
  message_buffer_udp :: ptr
  message_buffer_ac :: ptr
  my_udp_data :: udp_data
  my_wifi_data :: wifi_data
  my_ac_data :: ac_data
  send_data_to_Q_in_end :: bool

type_synonym 'a ac_prog = "(esp_event, ac_task, 'a) prog"

unbundle bit_operations_syntax

definition ac_port :: u16 where "ac_port = 7000"
definition ac_password_str :: string where "ac_password_str = ''12345678''"
definition ac_ap_ssid :: string where "ac_ap_ssid = ''GR-AC''"

definition scan_request :: string where
  "scan_request = ''{'' @ [CHR 0x22] @ ''t'' @ [CHR 0x22] @ '': '' @ [CHR 0x22] @ ''scan'' @ [CHR 0x22] @ ''}''"

text \<open>The exits from the middle of a branch, with the mutexes it holds.\<close>

definition fail_wifi :: "bool ac_prog" where
  "fail_wifi = do { give_mutex WifiMutex; ret False }"

definition fail_udp :: "bool ac_prog" where
  "fail_udp = do { give_mutex UdpMutex; give_mutex WifiMutex; ret False }"

definition finish_branch :: "bool ac_prog" where
  "finish_branch = do {
     give_mutex UdpMutex;
     give_mutex WifiMutex;
     set_bits AcGroup OPERATION_SUCCESS;
     ret True }"

section \<open>Steps that the branches share\<close>

text \<open>Filling in the request to the Wi-Fi task.\<close>

definition prepare_wifi :: "string \<Rightarrow> string \<Rightarrow> bool \<Rightarrow> bool \<Rightarrow> unit ac_prog" where
  "prepare_wifi name psw ceaseless response = do {
     s \<leftarrow> perform [] (strcpy_into (ssid wifi_zero) name);
     p \<leftarrow> perform [] (strcpy_into (password wifi_zero) psw);
     modify (\<lambda>v. v\<lparr>my_wifi_data := \<lparr>ssid = s, password = p, ceaseless_conn = ceaseless,
       need_response = response, number_attempts = 10\<rparr>\<rparr>) }"

text \<open>The request to the Wi-Fi task and the wait for its answer.\<close>

definition ask_wifi :: "'j esp \<Rightarrow> bits \<Rightarrow> bits ac_prog" where
  "ask_wifi E request = do {
     queue_reset WifiQueue;
     d \<leftarrow> reads my_wifi_data;
     queue_send E WifiQueue (WifiItem d);
     set_bits WifiGroup request;
     wait_bits E WifiGroup (OPERATION_SUCCESS OR OPERATION_FAILED) }"

text \<open>The answer's data; \<open>my_wifi_data\<close> is cleared first. \<open>False\<close> when the queue is empty.\<close>

definition wifi_response :: "'j esp \<Rightarrow> bool ac_prog" where
  "wifi_response E = do {
     modify (\<lambda>v. v\<lparr>my_wifi_data := wifi_zero\<rparr>);
     r \<leftarrow> receive_wifi E;
     case r of
       None \<Rightarrow> ret False
     | Some d \<Rightarrow> do { modify (\<lambda>v. v\<lparr>my_wifi_data := d\<rparr>); ret True } }"

definition prepare_udp :: "string \<Rightarrow> unit ac_prog" where
  "prepare_udp ip =
     modify (\<lambda>v. v\<lparr>my_udp_data := \<lparr>udp_ip = ip, udp_port = ac_port, udp_need_response = True\<rparr>\<rparr>)"

text \<open>Handing a message to the UDP task: the number of bytes the message buffer took.\<close>

definition queue_udp :: "'j esp \<Rightarrow> string \<Rightarrow> nat ac_prog" where
  "queue_udp E text = do {
     queue_reset UdpQueue;
     d \<leftarrow> reads my_udp_data;
     queue_send E UdpQueue (UdpItem d);
     message_reset UdpMessages;
     message_send E UdpMessages (text @ [NUL]) }"

definition ask_udp :: "'j esp \<Rightarrow> bits ac_prog" where
  "ask_udp E = do {
     set_bits UdpGroup SEND_MESSAGE;
     wait_bits E UdpGroup (OPERATION_SUCCESS OR OPERATION_FAILED) }"

text \<open>The next message of a buffer, in memory of its own; its length, 0 for a failure.\<close>

definition receive_ac_message :: "'j esp \<Rightarrow> nat ac_prog" where
  "receive_ac_message E = do {
     p \<leftarrow> reads message_buffer_ac;
     (q, n, done) \<leftarrow> custom_allocate_memory_for_buffer E AcMessages p;
     modify (\<lambda>v. v\<lparr>message_buffer_ac := q\<rparr>);
     if done then message_receive E AcMessages q n else ret 0 }"

definition receive_udp_message :: "'j esp \<Rightarrow> nat ac_prog" where
  "receive_udp_message E = do {
     p \<leftarrow> reads message_buffer_udp;
     (q, n, done) \<leftarrow> custom_allocate_memory_for_buffer E UdpMessages p;
     modify (\<lambda>v. v\<lparr>message_buffer_udp := q\<rparr>);
     if done then message_receive E UdpMessages q n else ret 0 }"

text \<open>
  The exchange with the UDP task for a request in \<open>message_buffer_udp\<close>, which \<open>build\<close> has
  written, and the answer, which \<open>use\<close> reads. The mutex of the Wi-Fi task is held.
\<close>

definition udp_exchange :: "'j esp \<Rightarrow> string ac_prog \<Rightarrow> bool ac_prog \<Rightarrow> bool ac_prog" where
  "udp_exchange E message use = do {
     taken \<leftarrow> take_mutex E UdpMutex;
     if \<not> taken then fail_wifi
     else do {
       text \<leftarrow> message;
       sent \<leftarrow> queue_udp E text;
       if sent \<noteq> Suc (length text) then fail_udp
       else do {
         bits \<leftarrow> ask_udp E;
         if has_bit bits OPERATION_FAILED then fail_udp
         else do {
           done \<leftarrow> use;
           if done then finish_branch else fail_udp } } } }"

section \<open>SEND_WLAN_TO_AC\<close>

definition use_wlan_answer :: "'j esp \<Rightarrow> bool ac_prog" where
  "use_wlan_answer E = do {
     p \<leftarrow> reads message_buffer_udp;
     received \<leftarrow> message_receive E UdpMessages p POINTER_SIZE;
     if received = 0 then ret False
     else do {
       current_ac \<leftarrow> add_new_ac_record E;
       case current_ac of
         None \<Rightarrow> ret False
       | Some a \<Rightarrow> do {
           done \<leftarrow> get_mac_from_json_wlan E p received (store_mac a);
           if \<not> done then do { delete_ac_record (Some a); ret False }
           else do {
             message_reset AcMessages;
             r \<leftarrow> load_instance a;
             mac \<leftarrow> load_string (ac_mac r);
             sent \<leftarrow> message_send E AcMessages (mac @ [NUL]);
             ret (sent = Suc (length mac)) } } } }"

definition send_wlan_to_ac :: "'j esp \<Rightarrow> bool ac_prog" where
  "send_wlan_to_ac E = do {
     prepare_wifi (ac_ap_ssid @ [NUL]) (ac_password_str @ [NUL]) False True;
     taken \<leftarrow> take_mutex E WifiMutex;
     if \<not> taken then ret False
     else do {
       bits \<leftarrow> ask_wifi E SCAN_AND_CONNECT_TO_AP;
       if has_bit bits OPERATION_FAILED then fail_wifi
       else do {
         done \<leftarrow> wifi_response E;
         if \<not> done then fail_wifi
         else do {
           d \<leftarrow> reads my_wifi_data;
           prepare_udp (broadcast_of d);
           query \<leftarrow> reads my_ac_data;
           p \<leftarrow> reads message_buffer_udp;
           built \<leftarrow> create_wlan_json_request E (array_string (ac_ssid query))
             (array_string (ac_password query)) p POINTER_SIZE;
           if \<not> built then fail_wifi
           else udp_exchange E (do { p \<leftarrow> reads message_buffer_udp; load_string p }) (use_wlan_answer E)
         } } } }"

section \<open>SEND_CONTROL_TO_AC\<close>

definition use_control_answer :: "'j esp \<Rightarrow> nat \<Rightarrow> nat \<Rightarrow> bool ac_prog" where
  "use_control_answer E a count_pairs = do {
     received \<leftarrow> receive_udp_message E;
     if received = 0 then ret False
     else do {
       p \<leftarrow> reads message_buffer_udp;
       pairs \<leftarrow> reads message_buffer_ac;
       r \<leftarrow> load_instance a;
       check_answer_from_json E p received (ac_aes_key r) (ac_mac r) pairs count_pairs } }"

definition send_control_to_ac :: "'j esp \<Rightarrow> bool ac_prog" where
  "send_control_to_ac E = do {
     received \<leftarrow> receive_ac_message E;
     if received = 0 then ret False
     else do {
       q \<leftarrow> reads message_buffer_ac;
       mac \<leftarrow> load_block q;
       current_ac \<leftarrow> get_ac_record mac;
       case current_ac of
         None \<Rightarrow> ret False
       | Some a \<Rightarrow> do {
           received \<leftarrow> receive_ac_message E;
           if received = 0 then ret False
           else do {
             let count_pairs = received div 8;
             query \<leftarrow> reads my_ac_data;
             prepare_wifi (ac_ssid query) (ac_password query) True False;
             taken \<leftarrow> take_mutex E WifiMutex;
             if \<not> taken then ret False
             else do {
               bits \<leftarrow> ask_wifi E CONNECT_TO_AP;
               if has_bit bits OPERATION_FAILED then fail_wifi
               else do {
                 r \<leftarrow> load_instance a;
                 prepare_udp (take IP4_MAX_SIZE (ac_ip r));
                 p \<leftarrow> malloc E (SIZE_MESSAGE_BUFFER_UDP - 4);
                 modify (\<lambda>v. v\<lparr>message_buffer_udp := p\<rparr>);
                 if p = None then fail_wifi
                 else do {
                   r \<leftarrow> load_instance a;
                   pairs \<leftarrow> reads message_buffer_ac;
                   built \<leftarrow> create_control_json_request E (ac_aes_key r) (ac_mac r) pairs count_pairs p
                     (SIZE_MESSAGE_BUFFER_UDP - 4);
                   if \<not> built then fail_wifi
                   else udp_exchange E (load_string p) (use_control_answer E a count_pairs)
                 } } } } } } }"

section \<open>BINDING_WITH_AC\<close>

definition use_bind_answer :: "'j esp \<Rightarrow> nat \<Rightarrow> bool ac_prog" where
  "use_bind_answer E a = do {
     received \<leftarrow> receive_udp_message E;
     if received = 0 then ret False
     else do {
       p \<leftarrow> reads message_buffer_udp;
       r \<leftarrow> load_instance a;
       get_aes_key_from_json E (ac_mac r) p received (store_aes_key a) } }"

text \<open>\<open>my_ac_data.valid_wifi = b\<close> before a failure.\<close>

definition mark_wifi :: "bool \<Rightarrow> unit ac_prog" where
  "mark_wifi b = modify (\<lambda>v. v\<lparr>my_ac_data := set_valid_wifi b (my_ac_data v)\<rparr>)"

definition mark_mac :: "bool \<Rightarrow> unit ac_prog" where
  "mark_mac b = modify (\<lambda>v. v\<lparr>my_ac_data := set_valid_mac b (my_ac_data v)\<rparr>)"

definition binding_with_ac :: "'j esp \<Rightarrow> bool ac_prog" where
  "binding_with_ac E = do {
     received \<leftarrow> receive_ac_message E;
     if received = 0 then ret False
     else do {
       query \<leftarrow> reads my_ac_data;
       prepare_wifi (ac_ssid query) (ac_password query) True True;
       modify (\<lambda>v. v\<lparr>my_ac_data := ac_zero, send_data_to_Q_in_end := True\<rparr>);
       q \<leftarrow> reads message_buffer_ac;
       mac \<leftarrow> load_block q;
       current_ac \<leftarrow> get_ac_record mac;
       case current_ac of
         None \<Rightarrow> do { mark_mac False; ret False }
       | Some a \<Rightarrow> do {
           mark_mac True;
           taken \<leftarrow> take_mutex E WifiMutex;
           if \<not> taken then ret False
           else do {
             bits \<leftarrow> ask_wifi E CONNECT_TO_AP;
             if has_bit bits OPERATION_FAILED then do { mark_wifi False; fail_wifi }
             else do {
               done \<leftarrow> wifi_response E;
               if \<not> done then do { mark_wifi False; fail_wifi }
               else do {
                 mark_wifi True;
                 r \<leftarrow> load_instance a;
                 prepare_udp (take IP4_MAX_SIZE (ac_ip r));
                 p \<leftarrow> malloc E (SIZE_MESSAGE_BUFFER_UDP - 4);
                 modify (\<lambda>v. v\<lparr>message_buffer_udp := p\<rparr>);
                 if p = None then fail_wifi
                 else do {
                   r \<leftarrow> load_instance a;
                   built \<leftarrow> create_bind_json_request E (ac_mac r) p (SIZE_MESSAGE_BUFFER_UDP - 4);
                   if \<not> built then fail_wifi
                   else udp_exchange E (load_string p) (use_bind_answer E a) } } } } } } }"

section \<open>SCAN_AC\<close>

definition use_scan_answer :: "'j esp \<Rightarrow> bool ac_prog" where
  "use_scan_answer E = do {
     modify (\<lambda>v. v\<lparr>my_udp_data := udp_zero\<rparr>);
     r \<leftarrow> receive_udp E;
     case r of
       None \<Rightarrow> ret False
     | Some d \<Rightarrow> do {
         modify (\<lambda>v. v\<lparr>my_udp_data := d\<rparr>);
         received \<leftarrow> receive_udp_message E;
         ret (received \<noteq> 0) } }"

definition scan_ac :: "'j esp \<Rightarrow> bool ac_prog" where
  "scan_ac E = do {
     query \<leftarrow> reads my_ac_data;
     prepare_wifi (ac_ssid query) (ac_password query) True True;
     taken \<leftarrow> take_mutex E WifiMutex;
     if \<not> taken then ret False
     else do {
       bits \<leftarrow> ask_wifi E CONNECT_TO_AP;
       if has_bit bits OPERATION_FAILED then fail_wifi
       else do {
         done \<leftarrow> wifi_response E;
         if \<not> done then fail_wifi
         else do {
           d \<leftarrow> reads my_wifi_data;
           prepare_udp (broadcast_of d);
           udp_exchange E (ret scan_request) (use_scan_answer E) } } } }"

section \<open>The loop\<close>

text \<open>A request carries its data in the queue; without it the branch fails.\<close>

definition with_query :: "'j esp \<Rightarrow> bool ac_prog \<Rightarrow> bool ac_prog" where
  "with_query E branch = do {
     r \<leftarrow> receive_ac E;
     case r of
       None \<Rightarrow> ret False
     | Some d \<Rightarrow> do { modify (\<lambda>v. v\<lparr>my_ac_data := d\<rparr>); branch } }"

definition serve_bits :: "'j esp \<Rightarrow> bits \<Rightarrow> bool ac_prog" where
  "serve_bits E bits =
     (if has_bit bits SEND_WLAN_TO_AC then with_query E (send_wlan_to_ac E)
      else if has_bit bits SEND_CONTROL_TO_AC then with_query E (send_control_to_ac E)
      else if has_bit bits BINDING_WITH_AC then with_query E (binding_with_ac E)
      else if has_bit bits SCAN_AC then with_query E (scan_ac E)
      else ret True)"

definition ac_client_pass :: "'j esp \<Rightarrow> unit ac_prog" where
  "ac_client_pass E = do {
     bits \<leftarrow> wait_bits E AcGroup (BINDING_WITH_AC OR SEND_CONTROL_TO_AC OR SEND_WLAN_TO_AC OR SCAN_AC);
     modify (\<lambda>v. v\<lparr>send_data_to_Q_in_end := False\<rparr>);
     done \<leftarrow> serve_bits E bits;
     whenever (\<not> done) (do { message_reset AcMessages; set_bits AcGroup OPERATION_FAILED });
     p \<leftarrow> reads message_buffer_udp;
     release p;
     q \<leftarrow> reads message_buffer_ac;
     release q;
     send \<leftarrow> reads send_data_to_Q_in_end;
     d \<leftarrow> reads my_ac_data;
     whenever send (do { queue_send E AcQueue (AcItem d); skip }) }"

fun ac_client :: "'j esp \<Rightarrow> nat \<Rightarrow> unit ac_prog" where
  "ac_client E 0 = skip"
| "ac_client E (Suc n) = do { ac_client_pass E; ac_client E n }"

end
