(* ===== verification/AcClientBalance.thy ===== *)
theory AcClientBalance
  imports AcClient
begin

text \<open>
  The mutexes that \<open>ac_client\<close> takes and the answers it owes. A weight of events is a
  \<open>client_weight\<close> when taking and giving a mutex cancel, and when an answer on the task's own
  event group cancels with the wait that delivered a request; then a pass of the loop adds
  nothing to it. It extends the weights that are blind to memory, so what is known of the
  message functions carries over.
\<close>

unbundle bit_operations_syntax

definition REQUESTS :: bits where
  "REQUESTS = BINDING_WITH_AC OR SEND_CONTROL_TO_AC OR SEND_WLAN_TO_AC OR SCAN_AC"

text \<open>A wait ends with a request.\<close>

definition requested :: "bits \<Rightarrow> bool" where
  "requested b \<longleftrightarrow> has_bit b SEND_WLAN_TO_AC \<or> has_bit b SEND_CONTROL_TO_AC \<or>
     has_bit b BINDING_WITH_AC \<or> has_bit b SCAN_AC"

lemma weighs_bind_return: "weighs \<mu> (k x) c \<Longrightarrow> weighs \<mu> (State_Monad.bind (ret x) k) c"
  by (simp add: weighs_def)

locale client_weight = quiet_weight \<mu> for \<mu> :: "esp_event \<Rightarrow> int" +
  fixes wifi udp success failure request idle :: int
  assumes take_weight: "\<mu> (Take m b) = (if b then (case m of WifiMutex \<Rightarrow> wifi | UdpMutex \<Rightarrow> udp) else 0)"
    and give_weight: "\<mu> (Give m) = - (case m of WifiMutex \<Rightarrow> wifi | UdpMutex \<Rightarrow> udp)"
    and wait_weight: "\<mu> (Wait AcGroup m1 r) = (if requested r then - request else idle)"
      "\<mu> (Wait WifiGroup m1 r) = 0" "\<mu> (Wait UdpGroup m1 r) = 0"
    and set_weight: "\<mu> (SetBits AcGroup OPERATION_SUCCESS) = success"
      "\<mu> (SetBits AcGroup OPERATION_FAILED) = failure"
      "\<mu> (SetBits WifiGroup m1) = 0" "\<mu> (SetBits UdpGroup m1) = 0"
    and queue_weight: "\<mu> (QueueReset q) = 0" "\<mu> (QueueSend q x b) = 0" "\<mu> (QueueReceive q item) = 0"
    and message_weight: "\<mu> (MessageReset mb) = 0" "\<mu> (MessageSend mb bs n) = 0"
      "\<mu> (MessageReceive mb n bs) = 0"
begin

lemmas task_weights = take_weight give_weight wait_weight set_weight queue_weight message_weight

lemmas task_calls = wait_bits_def set_bits_def take_mutex_def give_mutex_def queue_reset_def
  queue_send_def receive_wifi_def receive_udp_def receive_ac_def message_reset_def message_send_def

lemma w_message_receive: "weighs \<mu> (message_receive E b p n) (\<lambda>_. 0)"
  unfolding message_receive_def
  by (rule memory_rules weighs_rules | (auto simp: task_weights; fail))+

lemma w_quiet_memory: "weighs \<mu> (malloc E n) (\<lambda>_. 0)" "weighs \<mu> (release p) (\<lambda>_. 0)"
  "weighs \<mu> (add_new_ac_record E) (\<lambda>_. 0)"
  by (rule weighs_cong, rule w_malloc w_release w_add_record, simp)+

lemma w_quiet_readers:
  "weighs \<mu> (get_aes_key_from_json E mac p n (store_aes_key a)) (\<lambda>_. 0)"
  "weighs \<mu> (get_mac_from_json_wlan E p n (store_mac a)) (\<lambda>_. 0)"
  by (rule weighs_cong, rule w_get_aes_key w_get_mac, rule w_put_instance, simp)+

lemma w_custom_allocate: "weighs \<mu> (custom_allocate_memory_for_buffer E b p) (\<lambda>_. 0)"
  unfolding custom_allocate_memory_for_buffer_def
  by (rule w_quiet_memory [THEN weighs_bind_free] weighs_bind_free [OF w_message_receive] weighs_rules
      | (auto; fail))+

lemmas free_rules = w_quiet_memory w_quiet_readers w_message_receive w_custom_allocate w_delete_record
  w_put_instance(1) w_check_answer w_control_request w_bind_request w_get_ac_record w_load_block
  w_load_string w_perform w_array_string w_wlan_request [OF w_array_string w_array_string]

lemma w_prepare:
  "weighs \<mu> (prepare_wifi name psw b c) (\<lambda>_. 0)" "weighs \<mu> (prepare_udp ip) (\<lambda>_. 0)"
  "weighs \<mu> (mark_wifi b) (\<lambda>_. 0)" "weighs \<mu> (mark_mac b) (\<lambda>_. 0)"
  unfolding prepare_wifi_def prepare_udp_def mark_wifi_def mark_mac_def
  by (rule free_rules [THEN weighs_bind_free] weighs_rules | (auto; fail))+

lemma w_ask:
  "weighs \<mu> (ask_wifi E r) (\<lambda>_. 0)" "weighs \<mu> (wifi_response E) (\<lambda>_. 0)"
  "weighs \<mu> (queue_udp E text) (\<lambda>_. 0)" "weighs \<mu> (ask_udp E) (\<lambda>_. 0)"
  "weighs \<mu> (receive_ac_message E) (\<lambda>_. 0)" "weighs \<mu> (receive_udp_message E) (\<lambda>_. 0)"
  unfolding ask_wifi_def wifi_response_def queue_udp_def ask_udp_def receive_ac_message_def
    receive_udp_message_def task_calls
  by (rule free_rules free_rules [THEN weighs_bind_free] weighs_rules
      | (auto simp: task_weights; fail))+

lemma w_fail:
  "weighs \<mu> fail_wifi (\<lambda>_. - wifi)" "weighs \<mu> fail_udp (\<lambda>_. - wifi - udp)"
  "weighs \<mu> finish_branch (\<lambda>_. success - wifi - udp)"
  unfolding fail_wifi_def fail_udp_def finish_branch_def task_calls
  by (rule weighs_rules | (auto simp: task_weights; fail))+

lemma bind_take:
  "(\<And>b. weighs \<mu> (k b) (\<lambda>x. c x - (if b then (case m of WifiMutex \<Rightarrow> wifi | UdpMutex \<Rightarrow> udp) else 0))) \<Longrightarrow>
   weighs \<mu> (State_Monad.bind (take_mutex E m) k) c"
  unfolding take_mutex_def by (rule weighs_bind_call) (simp add: task_weights)

lemma w_fail_cong:
  "c False = - wifi \<Longrightarrow> weighs \<mu> fail_wifi c" "d False = - wifi - udp \<Longrightarrow> weighs \<mu> fail_udp d"
  "e True = success - wifi - udp \<Longrightarrow> weighs \<mu> finish_branch e"
  unfolding fail_wifi_def fail_udp_def finish_branch_def task_calls
  by (rule weighs_rules | (auto simp: task_weights; fail))+

lemma w_udp_exchange:
  assumes "weighs \<mu> message (\<lambda>_. 0)" "weighs \<mu> use (\<lambda>_. 0)"
  shows "weighs \<mu> (udp_exchange E message use) (\<lambda>done. (if done then success else 0) - wifi)"
  unfolding udp_exchange_def
  by (rule bind_take w_fail_cong assms [THEN weighs_bind_free] w_ask [THEN weighs_bind_free] weighs_rules
      | (auto; fail))+

lemma w_use:
  "weighs \<mu> (use_wlan_answer E) (\<lambda>_. 0)" "weighs \<mu> (use_control_answer E a n) (\<lambda>_. 0)"
  "weighs \<mu> (use_bind_answer E a) (\<lambda>_. 0)" "weighs \<mu> (use_scan_answer E) (\<lambda>_. 0)"
  unfolding use_wlan_answer_def use_control_answer_def use_bind_answer_def use_scan_answer_def
  by (rule free_rules free_rules [THEN weighs_bind_free] w_ask [THEN weighs_bind_free]
      weighs_rules | (auto simp: task_calls task_weights intro!: weighs_rules; fail))+

lemma w_exchange:
  "(\<And>done. c done = (if done then success else 0) - wifi) \<Longrightarrow>
     weighs \<mu> (udp_exchange E (do { p \<leftarrow> reads message_buffer_udp; load_string p }) (use_wlan_answer E)) c"
  "(\<And>done. c done = (if done then success else 0) - wifi) \<Longrightarrow>
     weighs \<mu> (udp_exchange E (load_string q) (use_control_answer E a n)) c"
  "(\<And>done. c done = (if done then success else 0) - wifi) \<Longrightarrow>
     weighs \<mu> (udp_exchange E (load_string q) (use_bind_answer E a)) c"
  "(\<And>done. c done = (if done then success else 0) - wifi) \<Longrightarrow>
     weighs \<mu> (udp_exchange E (ret scan_request) (use_scan_answer E)) c"
  by (rule weighs_cong [OF w_udp_exchange],
      (rule w_use w_load_string weighs_return weighs_bind_free weighs_zero | simp)+)+

lemmas branch_rules = bind_take w_exchange w_fail_cong w_fail_cong [THEN weighs_bind_free]
  w_prepare [THEN weighs_bind_free] w_ask [THEN weighs_bind_free] free_rules [THEN weighs_bind_free]
  weighs_rules

lemma w_send_wlan: "weighs \<mu> (send_wlan_to_ac E) (\<lambda>done. if done then success else 0)"
  unfolding send_wlan_to_ac_def by (rule branch_rules | (auto; fail))+

lemma w_send_control: "weighs \<mu> (send_control_to_ac E) (\<lambda>done. if done then success else 0)"
  unfolding send_control_to_ac_def by (rule branch_rules | (auto; fail))+

lemma w_binding: "weighs \<mu> (binding_with_ac E) (\<lambda>done. if done then success else 0)"
  unfolding binding_with_ac_def by (rule branch_rules | (auto; fail))+

lemma w_scan: "weighs \<mu> (scan_ac E) (\<lambda>done. if done then success else 0)"
  unfolding scan_ac_def by (rule branch_rules | (auto; fail))+

lemma w_with_query:
  "weighs \<mu> branch (\<lambda>done. if done then success else 0) \<Longrightarrow>
   weighs \<mu> (with_query E branch) (\<lambda>done. if done then success else 0)"
  unfolding with_query_def receive_ac_def
  by (rule weighs_rules | (auto simp: task_weights; fail))+

lemma w_serve_bits:
  "weighs \<mu> (serve_bits E bits) (\<lambda>done. if done \<and> requested bits then success else 0)"
  using w_with_query [OF w_send_wlan, of E] w_with_query [OF w_send_control, of E]
    w_with_query [OF w_binding, of E] w_with_query [OF w_scan, of E]
  by (auto simp: serve_bits_def requested_def intro: weighs_return)

end

text \<open>Weights for which an answer makes up for the request, whichever it is.\<close>

locale balanced_client = client_weight \<mu> wifi udp request request request 0
  for \<mu> wifi udp request
begin

lemma w_pass: "weighs \<mu> (ac_client_pass E) (\<lambda>_. 0)"
proof -
  have wait: "weighs \<mu> (wait_bits E AcGroup m) (\<lambda>r. if requested r then - request else 0)" for m
    unfolding wait_bits_def by (rule weighs_call) (simp add: task_weights)
  have serve: "weighs \<mu> (do {
      modify (\<lambda>v. v\<lparr>send_data_to_Q_in_end := False\<rparr>);
      done \<leftarrow> serve_bits E bits;
      whenever (\<not> done) (do { message_reset AcMessages; set_bits AcGroup OPERATION_FAILED });
      p \<leftarrow> reads message_buffer_udp; release p;
      q \<leftarrow> reads message_buffer_ac; release q;
      send \<leftarrow> reads send_data_to_Q_in_end;
      d \<leftarrow> reads my_ac_data;
      whenever send (do { queue_send E AcQueue (AcItem d); skip }) })
    (\<lambda>_. if requested bits then request else 0)" for bits
  proof -
    have unserved: "serve_bits E bits = ret True" if "\<not> requested bits"
      using that by (simp add: serve_bits_def requested_def)
    have fail: "weighs \<mu> (whenever (\<not> b) (do { message_reset AcMessages; set_bits AcGroup OPERATION_FAILED }))
        (\<lambda>_. if b then 0 else request)" for b
      unfolding task_calls by (rule weighs_rules | (auto simp: task_weights; fail))+
    show ?thesis
    proof (cases "requested bits")
      case True
      show ?thesis
        by (rule weighs_bind [OF w_serve_bits] weighs_bind [OF fail] w_quiet_memory [THEN weighs_bind_free]
            weighs_rules | (auto simp: True task_calls task_weights intro!: weighs_rules; fail))+
    next
      case False
      show ?thesis
        unfolding unserved [OF False]
        by (rule weighs_bind_return weighs_bind [OF fail] w_quiet_memory [THEN weighs_bind_free]
            weighs_rules | (auto simp: False whenever_def task_calls task_weights intro!: weighs_rules; fail))+
    qed
  qed
  show ?thesis
    unfolding ac_client_pass_def
    by (rule weighs_bind [OF wait], rule weighs_cong [OF serve]) simp
qed

lemma w_client: "weighs \<mu> (ac_client E n) (\<lambda>_. 0)"
proof (induction n)
  case 0
  then show ?case by (simp add: weighs_zero)
next
  case (Suc n)
  then show ?case by (simp add: weighs_bind_free [OF w_pass])
qed

end

section \<open>Mutexes and answers\<close>

fun mutex_weight :: "mutex \<Rightarrow> esp_event \<Rightarrow> int" where
  "mutex_weight m (Take m' b) = (if m' = m \<and> b then 1 else 0)"
| "mutex_weight m (Give m') = (if m' = m then - 1 else 0)"
| "mutex_weight m _ = 0"

fun answer_weight :: "esp_event \<Rightarrow> int" where
  "answer_weight (SetBits g b) =
     (if g = AcGroup \<and> (b = OPERATION_SUCCESS \<or> b = OPERATION_FAILED) then 1 else 0)"
| "answer_weight (Wait g b r) = (if g = AcGroup \<and> requested r then - 1 else 0)"
| "answer_weight _ = 0"

interpretation wifi_mutex: balanced_client "mutex_weight WifiMutex" 1 0 0
  by unfold_locales (auto split: mutex.split)

interpretation udp_mutex: balanced_client "mutex_weight UdpMutex" 0 1 0
  by unfold_locales (auto split: mutex.split)

interpretation answers: balanced_client answer_weight 0 0 1
  by unfold_locales (auto simp: OPERATION_SUCCESS_def split: mutex.split)

end
