(* ===== verification/AcClientProps.thy ===== *)
theory AcClientProps
  imports AcClientBalance
begin

text \<open>
  What becomes of the requests to \<open>ac_client\<close>. FreeRTOS documents that a message longer than
  the space offered is left in its buffer, and that 0 is returned; but
  \<open>custom_allocate_memory_for_buffer\<close> asks for the length of the next message by offering no
  space. On such a system the task serves every request without a fault, and every one ends
  in \<open>OPERATION_FAILED\<close>.
\<close>

unbundle bit_operations_syntax

section \<open>The system\<close>

text \<open>A query holds two terminated strings.\<close>

definition query_ok :: "ac_data \<Rightarrow> bool" where
  "query_ok d \<longleftrightarrow> length (ac_ssid d) = MAX_SSID_LEN \<and> NUL \<in> set (ac_ssid d) \<and>
     length (ac_password d) = MAX_PASSPHRASE_LEN \<and> NUL \<in> set (ac_password d)"

definition documented :: "'j esp \<Rightarrow> bool" where
  "documented E \<longleftrightarrow> message_limit E \<and> (\<forall>h d. e_receive_ac E h = Some d \<longrightarrow> query_ok d) \<and>
     (\<forall>h. requested (e_wait E h AcGroup REQUESTS))"

text \<open>No buffer is allocated between two passes; a branch starts with a query.\<close>

definition idle :: "ac_task \<Rightarrow> bool" where
  "idle v \<longleftrightarrow> message_buffer_udp v = None \<and> message_buffer_ac v = None"

definition ready :: "ac_task \<Rightarrow> bool" where
  "ready v \<longleftrightarrow> idle v \<and> query_ok (my_ac_data v)"

section \<open>Runs that end in a failure\<close>

abbreviation fails :: "(ac_task \<Rightarrow> bool) \<Rightarrow> bool ac_prog \<Rightarrow> bool" where
  "fails P m \<equiv> triple P m (\<lambda>r v. P v \<and> \<not> r)"

lemma c_string_fits: "NUL \<in> set cs \<Longrightarrow> length (c_string cs) < length cs"
proof (induction cs)
  case (Cons c cs)
  then show ?case by (auto simp: c_string_def)
qed simp

lemma strcpy_fits:
  "NUL \<in> set src \<Longrightarrow> length (c_string src) < length dst \<Longrightarrow> \<exists>s. strcpy_into dst src = ok s"
  by (simp add: strcpy_into_def)

lemma wifi_zero_lengths [simp]:
  "length (ssid wifi_zero) = MAX_SSID_LEN" "length (password wifi_zero) = MAX_PASSPHRASE_LEN"
  by (simp_all add: wifi_zero_def)

lemma steady_prepare_wifi:
  assumes "NUL \<in> set name" "length (c_string name) < MAX_SSID_LEN" "NUL \<in> set psw"
    "length (c_string psw) < MAX_PASSPHRASE_LEN" "\<And>v d. P (v\<lparr>my_wifi_data := d\<rparr>) = P v"
  shows "steady P (prepare_wifi name psw b c)"
proof -
  obtain s where s: "strcpy_into (ssid wifi_zero) name = ok s"
    using strcpy_fits [OF assms(1), of "ssid wifi_zero"] assms(2) by auto
  obtain p where p: "strcpy_into (password wifi_zero) psw = ok p"
    using strcpy_fits [OF assms(3), of "password wifi_zero"] assms(4) by auto
  show ?thesis
    unfolding prepare_wifi_def s p perform_simps
    by (rule triple_bind_keep triple_rules | simp add: assms(5))+
qed

lemma idle_simps [simp]:
  "idle (v\<lparr>my_wifi_data := d\<rparr>) = idle v" "idle (v\<lparr>my_udp_data := u\<rparr>) = idle v"
  "idle (v\<lparr>my_ac_data := a\<rparr>) = idle v" "idle (v\<lparr>send_data_to_Q_in_end := s\<rparr>) = idle v"
  "ready (v\<lparr>my_wifi_data := d\<rparr>) = ready v" "ready (v\<lparr>my_udp_data := u\<rparr>) = ready v"
  by (simp_all add: idle_def ready_def)

lemma steady_ask:
  "steady ready (ask_wifi E r)" "steady ready (wifi_response E)" "steady ready (prepare_udp ip)"
  "steady ready (queue_udp E text)" "steady ready (ask_udp E)"
  unfolding ask_wifi_def wifi_response_def prepare_udp_def queue_udp_def ask_udp_def
  by (rule steady_calls [THEN triple_bind] steady_calls triple_rules triple_bind_keep | simp)+

lemma fails_exits: "fails P fail_wifi" "fails P fail_udp"
  unfolding fail_wifi_def fail_udp_def
  by (rule steady_calls [THEN triple_bind] triple_rules | simp)+

lemma run_receive_nothing:
  assumes "message_limit E" "fault w = None" "ready (vars w)"
  shows "\<exists>w'. run_state (receive_ac_message E) w = (0, w') \<and> fault w' = None \<and> ready (vars w')"
    "\<exists>w'. run_state (receive_udp_message E) w = (0, w') \<and> fault w' = None \<and> ready (vars w')"
  using assms(2,3)
  by (simp_all add: receive_ac_message_def receive_udp_message_def idle_def ready_def
      run_custom_allocate_null [OF assms(1)])

lemma receive_nothing:
  assumes "message_limit E"
  shows "triple ready (receive_ac_message E) (\<lambda>n v. ready v \<and> n = 0)"
    "triple ready (receive_udp_message E) (\<lambda>n v. ready v \<and> n = 0)"
  unfolding triple_def using run_receive_nothing [OF assms] by (metis prod.inject)+

section \<open>The branches\<close>

lemma steady_items:
  "steady P (create_item E x)" "steady P (delete_item y)" "steady P (add_item E t name x)"
  unfolding create_item_def delete_item_def add_item_def
  by (rule triple_rules | simp)+

lemma steady_add_members: "steady P (add_members E t xs)"
proof (induction xs arbitrary: t)
  case Nil
  then show ?case by (simp add: triple_return)
next
  case (Cons x xs)
  show ?case
    by (cases x) (simp, (rule steady_items [THEN triple_bind] Cons triple_rules | simp)+)
qed

lemma fails_finish_request: "fails P (finish_request a b False)"
  unfolding finish_request_def
  by (rule steady_items [THEN triple_bind] triple_rules | simp)+

lemma triple_bind_fails:
  "fails P m \<Longrightarrow> triple P (k False) Q \<Longrightarrow> triple P (State_Monad.bind m k) Q"
  by (rule triple_bind_value [where x = False]) simp_all

lemma fails_wlan_request:
  assumes "NUL \<in> set a" "NUL \<in> set b"
  shows "fails P (create_wlan_json_request E (array_string a) (array_string b) None n)"
proof -
  have strings: "array_string a = ret (c_string a)" "array_string b = ret (c_string b)"
    using assms by (simp_all add: array_string_def)
  show ?thesis
    unfolding create_wlan_json_request_def print_preallocated_def strings option.case
    by (rule fails_finish_request triple_bind_return steady_items [THEN triple_bind]
        steady_add_members [THEN triple_bind] triple_rules | simp only: if_True not_True_eq_False)+
qed

lemma fails_exchange:
  assumes "steady P message" "fails P use"
    "\<And>text. steady P (queue_udp E text)" "steady P (ask_udp E)"
  shows "fails P (udp_exchange E message use)"
  unfolding udp_exchange_def
  by (rule fails_exits steady_calls [THEN triple_bind] assms(1,3,4) [THEN triple_bind]
      triple_bind_fails [OF assms(2)] triple_rules | simp)+

lemma steady_prepare_query:
  "query_ok d \<Longrightarrow> steady ready (prepare_wifi (ac_ssid d) (ac_password d) b c)"
  "steady ready (prepare_wifi (ac_ap_ssid @ [NUL]) (ac_password_str @ [NUL]) b c)"
proof -
  show "steady ready (prepare_wifi (ac_ssid d) (ac_password d) b c)" if "query_ok d"
    using that c_string_fits [of "ac_ssid d"] c_string_fits [of "ac_password d"]
    by (intro steady_prepare_wifi) (simp_all add: query_ok_def)
  show "steady ready (prepare_wifi (ac_ap_ssid @ [NUL]) (ac_password_str @ [NUL]) b c)"
    by (rule steady_prepare_wifi)
      (simp_all add: ac_ap_ssid_def ac_password_str_def c_string_def NUL_def MAX_SSID_LEN_def
        MAX_PASSPHRASE_LEN_def)
qed

lemma triple_bind_query:
  assumes "\<And>d. query_ok d \<Longrightarrow> triple ready (k d) Q"
  shows "triple ready (State_Monad.bind (reads my_ac_data) k) Q"
  by (rule triple_bind_primitive(2)) (use assms in \<open>auto simp: ready_def\<close>)

text \<open>The pointer a branch reads is null.\<close>

lemma triple_bind_buffer:
  "triple ready (k None) Q \<Longrightarrow> triple ready (State_Monad.bind (reads message_buffer_udp) k) Q"
  by (rule triple_bind_primitive(2)) (auto simp: ready_def idle_def)

lemmas steady_rules = fails_exits triple_bind_query triple_bind_buffer
  steady_calls [THEN triple_bind] steady_ask [THEN triple_bind] steady_prepare_query [THEN triple_bind]
  triple_rules

lemma fails_send_wlan: "fails ready (send_wlan_to_ac E)"
  unfolding send_wlan_to_ac_def
  by (rule fails_wlan_request [THEN triple_bind_fails] steady_rules | simp add: query_ok_def)+

lemma fails_receive:
  assumes "message_limit E"
  shows "fails ready (send_control_to_ac E)" "fails ready (binding_with_ac E)"
  unfolding send_control_to_ac_def binding_with_ac_def
  by (rule triple_bind_value [OF receive_nothing(1) [OF assms]] triple_rules | simp)+

lemma fails_use_scan:
  assumes "message_limit E"
  shows "fails ready (use_scan_answer E)"
  unfolding use_scan_answer_def
  by (rule triple_bind_value [OF receive_nothing(2) [OF assms]] steady_rules triple_bind_keep | simp)+

lemma fails_scan:
  assumes "message_limit E"
  shows "fails ready (scan_ac E)"
  unfolding scan_ac_def
  by (rule fails_exchange fails_use_scan [OF assms] steady_ask steady_rules | simp)+

section \<open>A pass of the loop\<close>

lemma fails_with_query:
  assumes "documented E" "fails ready branch"
  shows "fails idle (with_query E branch)"
proof -
  have branch: "triple ready branch (\<lambda>r v. idle v \<and> \<not> r)"
    by (rule triple_mono [OF assms(2)]) (auto simp: ready_def)
  show ?thesis
    unfolding with_query_def receive_ac_def
  proof (rule triple_bind_primitive(4))
    fix r assume "r \<in> range (e_receive_ac E)"
    then have "r = Some d \<Longrightarrow> query_ok d" for d
      using assms(1) by (auto simp: documented_def eq_commute)
    then show "triple idle (case r of None \<Rightarrow> ret False
        | Some d \<Rightarrow> modify (\<lambda>v. v\<lparr>my_ac_data := d\<rparr>) \<bind> (\<lambda>_. branch)) (\<lambda>r v. idle v \<and> \<not> r)"
      by (auto split: option.split intro!: triple_return triple_bind [OF triple_primitive(2) branch]
          simp: ready_def)
  qed
qed

lemma fails_serve_bits:
  assumes "documented E" "requested bits"
  shows "fails idle (serve_bits E bits)"
proof -
  have "message_limit E" using assms(1) by (simp add: documented_def)
  note branches = fails_send_wlan fails_receive [OF this] fails_scan [OF this]
  show ?thesis
    using assms(2) fails_with_query [OF assms(1)] branches
    by (auto simp: serve_bits_def requested_def)
qed

fun success_weight :: "esp_event \<Rightarrow> int" where
  "success_weight (SetBits g b) = (if g = AcGroup \<and> b = OPERATION_SUCCESS then 1 else 0)"
| "success_weight _ = 0"

interpretation successes: client_weight success_weight 0 0 1 0 0 0
  by unfold_locales
    (auto simp: OPERATION_SUCCESS_def OPERATION_FAILED_def BIT0_def BIT1_def split: mutex.split)

lemma silent_pass:
  assumes "documented E"
  shows "silent success_weight idle (ac_client_pass E) (\<lambda>_. idle)"
proof -
  have wait: "silent success_weight idle (wait_bits E AcGroup REQUESTS) (\<lambda>bits v. idle v \<and> requested bits)"
    by (rule silentI [where n = "\<lambda>_. 0"])
      (use assms in \<open>auto simp: wait_bits_def documented_def successes.task_weights
        intro!: triple_primitive weighs_call\<close>)
  have clear: "silent success_weight idle (modify (\<lambda>v. v\<lparr>send_data_to_Q_in_end := False\<rparr>)) (\<lambda>_. idle)"
    by (rule silentI [where n = "\<lambda>_. 0"]) (auto intro!: triple_primitive weighs_zero)
  have serve: "silent success_weight idle (serve_bits E bits) (\<lambda>done v. idle v \<and> \<not> done)"
    if "requested bits" for bits
    by (rule silentI [OF fails_serve_bits [OF assms that] successes.w_serve_bits]) simp
  have report: "silent success_weight idle
      (whenever b (do { message_reset AcMessages; set_bits AcGroup OPERATION_FAILED })) (\<lambda>_. idle)" for b
    by (rule silentI [where n = "\<lambda>_. 0"])
      (auto simp: successes.task_calls successes.task_weights intro!: triple_rules weighs_rules)
  have buffers: "silent success_weight idle (do { p \<leftarrow> reads message_buffer_udp; release p }) (\<lambda>_. idle)"
      "silent success_weight idle (do { p \<leftarrow> reads message_buffer_ac; release p }) (\<lambda>_. idle)"
    by (rule silentI [where n = "\<lambda>_. 0"], rule steady_release_null,
        simp add: idle_def, (rule weighs_rules successes.w_quiet_memory | simp)+)+
  have answer: "silent success_weight idle (do {
      send \<leftarrow> reads send_data_to_Q_in_end;
      d \<leftarrow> reads my_ac_data;
      whenever send (do { queue_send E AcQueue (AcItem d); skip }) }) (\<lambda>_. idle)"
    by (rule silentI [where n = "\<lambda>_. 0"])
      (auto simp: successes.task_calls successes.task_weights intro!: triple_rules weighs_rules)
  have "ac_client_pass E = do {
      bits \<leftarrow> wait_bits E AcGroup REQUESTS;
      modify (\<lambda>v. v\<lparr>send_data_to_Q_in_end := False\<rparr>);
      done \<leftarrow> serve_bits E bits;
      whenever (\<not> done) (do { message_reset AcMessages; set_bits AcGroup OPERATION_FAILED });
      do { p \<leftarrow> reads message_buffer_udp; release p };
      do { p \<leftarrow> reads message_buffer_ac; release p };
      do { send \<leftarrow> reads send_data_to_Q_in_end;
           d \<leftarrow> reads my_ac_data;
           whenever send (do { queue_send E AcQueue (AcItem d); skip }) } }"
    by (simp add: ac_client_pass_def REQUESTS_def)
  moreover have "silent success_weight idle \<dots> (\<lambda>_. idle)"
    by (rule silent_bind [OF wait] silent_pre silent_bind [OF clear] silent_bind [OF serve]
        silent_bind [OF report] silent_bind [OF buffers(1)] silent_bind [OF buffers(2)] answer | assumption)+
  ultimately show ?thesis by simp
qed

lemma silent_client: "documented E \<Longrightarrow> silent success_weight idle (ac_client E n) (\<lambda>_. idle)"
proof (induction n)
  case 0
  then show ?case by (simp add: silent_def)
next
  case (Suc n)
  then show ?case by (auto intro: silent_bind [OF silent_pass])
qed

lemma no_success:
  assumes "total success_weight w' = total success_weight w"
    "SetBits AcGroup OPERATION_SUCCESS \<notin> set (history w)"
  shows "SetBits AcGroup OPERATION_SUCCESS \<notin> set (history w')"
proof -
  have pos: "0 \<le> success_weight e" for e by (cases e) auto
  have "success_weight e = 0" if "e \<in> set (history w)" for e
    using assms(2) that by (cases e) auto
  then have "total success_weight w = 0"
    unfolding total_def by (metis (no_types, lifting) map_eq_conv sum_list_0)
  with assms(1) have "sum_list (map success_weight (history w')) = 0" by (simp add: total_def)
  then have "\<forall>e \<in> set (history w'). success_weight e = 0"
    using pos by (subst (asm) sum_list_nonneg_eq_0_iff) auto
  then show ?thesis by force
qed

text \<open>C11: On a system as FreeRTOS documents it, and with queries that hold terminated strings,
  \<open>ac_client\<close> serves any number of requests without a fault, and none of them, whatever its
  kind, is ever answered by \<open>OPERATION_SUCCESS\<close>: \<open>SEND_WLAN_TO_AC\<close> has no buffer to build its
  message in, and the other three never learn how long the message that waits for them is.\<close>

theorem no_request_succeeds:
  assumes "documented E" "fault w = None" "message_buffer_udp (vars w) = None"
    "message_buffer_ac (vars w) = None" "SetBits AcGroup OPERATION_SUCCESS \<notin> set (history w)"
  shows "(case run_state (ac_client E n) w of (_, w') \<Rightarrow>
    fault w' = None \<and> SetBits AcGroup OPERATION_SUCCESS \<notin> set (history w') \<and>
    total answer_weight w' = total answer_weight w)"
proof -
  obtain w' where run: "run_state (ac_client E n) w = ((), w')" by (cases "run_state (ac_client E n) w") auto
  with silent_client [OF assms(1), of n] assms(2-4)
  have "fault w' = None" "total success_weight w' = total success_weight w"
    by (auto simp: silent_def idle_def)
  moreover from this(1) have "total answer_weight w' = total answer_weight w"
    using weighsD(2) [OF answers.w_client run] by simp
  ultimately show ?thesis using run no_success assms(5) by simp
qed

definition demo_documented :: "tree esp" where
  "demo_documented = demo_esp Map.empty"

definition demo_client :: "(esp_event, ac_task) machine" where
  "demo_client = \<lparr>history = [], fault = None, vars = \<lparr>blocks = Map.empty, instances = Map.empty,
     ac_list = None, next_address = 0, message_buffer_udp = None, message_buffer_ac = None,
     my_udp_data = udp_zero, my_wifi_data = wifi_zero, my_ac_data = ac_zero,
     send_data_to_Q_in_end = False\<rparr>\<rparr>"

lemma demo_documented: "documented demo_documented"
  by (auto simp: documented_def demo_documented_def demo_esp_def message_limit_def query_ok_def
      ac_zero_def requested_def has_bit_def REQUESTS_def SEND_WLAN_TO_AC_def BIT4_def
      SEND_CONTROL_TO_AC_def BIT3_def BINDING_WITH_AC_def BIT2_def SCAN_AC_def BIT5_def
      MAX_SSID_LEN_def MAX_PASSPHRASE_LEN_def)

lemma demo_totals: "total \<mu> demo_client = 0" "fault demo_client = None"
  by (simp_all add: demo_client_def total_def)

theorem no_request_succeeds_witness:
  "case run_state (ac_client demo_documented 5) demo_client of (_, w') \<Rightarrow>
    fault w' = None \<and> SetBits AcGroup OPERATION_SUCCESS \<notin> set (history w') \<and>
    total answer_weight w' = 0"
  using no_request_succeeds [OF demo_documented, of demo_client 5] by (simp add: demo_totals)
    (simp add: demo_client_def)

text \<open>C10: However many passes the loop of \<open>ac_client\<close> has made, whatever the requests were and
  whatever the system answered: each mutex it took it has given back, and it has answered
  every request exactly once, by \<open>OPERATION_SUCCESS\<close> or \<open>OPERATION_FAILED\<close>.\<close>

theorem ac_client_balanced:
  assumes "run_state (ac_client E n) w = ((), w')" "fault w' = None"
  shows "total (mutex_weight m) w' = total (mutex_weight m) w \<and>
    total answer_weight w' = total answer_weight w"
  using weighsD(2) [OF wifi_mutex.w_client assms] weighsD(2) [OF udp_mutex.w_client assms]
    weighsD(2) [OF answers.w_client assms]
  by (cases m) simp_all

theorem ac_client_balanced_witness:
  "\<exists>w'. run_state (ac_client demo_documented 5) demo_client = ((), w') \<and>
     total (mutex_weight WifiMutex) w' = 0 \<and> total answer_weight w' = 0"
proof -
  obtain w' where run: "run_state (ac_client demo_documented 5) demo_client = ((), w')"
    by (cases "run_state (ac_client demo_documented 5) demo_client") auto
  with silent_client [OF demo_documented, of 5] have "fault w' = None"
    by (auto simp: silent_def idle_def demo_totals) (auto simp: demo_client_def)
  from ac_client_balanced [OF run this] run show ?thesis by (simp add: demo_totals)
qed

end
