(* ===== verification/UdpClient.thy ===== *)
theory UdpClient
  imports Interconn
begin

text \<open>
  The task \<open>udp_client\<close> of \<open>firmware_esp32/main/udp_client.c\<close>: it takes a message and an address
  from its pipe, sends the message over a socket and, if asked to, waits for an answer, which
  it hands back with the address it came from. \<open>udp_client_pass\<close> is one pass of the endless
  loop; its buffer pointer is kept from pass to pass. The lemmas show that each pass answers
  its request once and closes the socket it opened, and what the sizes in it do to messages.
\<close>

unbundle bit_operations_syntax

section \<open>The task\<close>

record udp_task = memory +
  send_buffer :: ptr
  udp_request :: udp_data

type_synonym 'a udp_prog = "(esp_event, udp_task, 'a) prog"

text \<open>Waiting for the answer on a socket; \<open>False\<close> is a jump to \<open>failed\<close>.\<close>

definition receive_response :: "'j esp \<Rightarrow> int \<Rightarrow> bool udp_prog" where
  "receive_response E sock = do {
     (ready, isset) \<leftarrow> call (e_select E) (\<lambda>(n, b). Select sock n b);
     if ready \<le> 0 \<or> \<not> isset then ret False
     else do {
       p \<leftarrow> reads send_buffer;
       (bytes, ip, port) \<leftarrow> call (\<lambda>h. e_receive_from E h (POINTER_SIZE - 1))
         (\<lambda>(bytes, ip, port). ReceiveFrom sock (POINTER_SIZE - 1) bytes);
       case bytes of
         None \<Rightarrow> ret False
       | Some bs \<Rightarrow> do {
           (if bs = [] then skip else store_at p 0 bs);
           if bs = [] \<or> POINTER_SIZE - 1 < length bs then ret False
           else do {
             store_at p (length bs) [NUL];
             sent \<leftarrow> message_send E UdpMessages (bs @ [NUL]);
             if sent \<noteq> Suc (length bs) then ret False
             else do {
               modify (\<lambda>v. v\<lparr>udp_request := udp_zero\<lparr>udp_ip := ip, udp_port := port\<rparr>\<rparr>);
               d \<leftarrow> reads udp_request;
               queue_send E UdpQueue (UdpItem d) } } } } }"

text \<open>The body of a pass: whether it succeeded, and the socket, -1 when there is none.\<close>

definition send_datagram :: "'j esp \<Rightarrow> (bool \<times> int) udp_prog" where
  "send_datagram E = do {
     r \<leftarrow> receive_udp E;
     case r of
       None \<Rightarrow> ret (False, -1)
     | Some d \<Rightarrow> do {
         modify (\<lambda>v. v\<lparr>udp_request := d\<rparr>);
         p \<leftarrow> reads send_buffer;
         (q, n, done) \<leftarrow> custom_allocate_memory_for_buffer E UdpMessages p;
         modify (\<lambda>v. v\<lparr>send_buffer := q\<rparr>);
         if \<not> done then do { message_reset UdpMessages; ret (False, -1) }
         else do {
           message_receive E UdpMessages q n;
           sock \<leftarrow> call (e_socket E) OpenSocket;
           if sock = -1 then ret (False, sock)
           else do {
             bytes \<leftarrow> load_at q 0 n;
             err \<leftarrow> call (e_send_to E) (\<lambda>r. SendTo sock bytes (udp_ip d) (udp_port d) r);
             if err < 0 then ret (False, sock)
             else if udp_need_response d then do { done \<leftarrow> receive_response E sock; ret (done, sock) }
             else ret (True, sock) } } } }"

definition report_udp :: "bool \<Rightarrow> unit udp_prog" where
  "report_udp b =
     (if b then set_bits UdpGroup OPERATION_SUCCESS
      else do { message_reset UdpMessages; set_bits UdpGroup OPERATION_FAILED })"

definition udp_client_pass :: "'j esp \<Rightarrow> unit udp_prog" where
  "udp_client_pass E = do {
     bits \<leftarrow> wait_bits E UdpGroup SEND_MESSAGE;
     (if has_bit bits SEND_MESSAGE then do {
        (done, sock) \<leftarrow> send_datagram E;
        report_udp done;
        do { p \<leftarrow> reads send_buffer; release p };
        whenever (sock \<noteq> -1) (emit (CloseSocket sock)) }
      else do { p \<leftarrow> reads send_buffer; release p }) }"

fun udp_client :: "'j esp \<Rightarrow> nat \<Rightarrow> unit udp_prog" where
  "udp_client E 0 = skip"
| "udp_client E (Suc n) = do { udp_client_pass E; udp_client E n }"

section \<open>Answers and sockets\<close>

locale udp_weight = quiet_weight \<mu> for \<mu> :: "esp_event \<Rightarrow> int" +
  fixes request open_socket :: int
  assumes wait_weight: "\<mu> (Wait UdpGroup m1 r) = (if has_bit r SEND_MESSAGE then - request else 0)"
    and set_weight: "\<mu> (SetBits UdpGroup OPERATION_SUCCESS) = request"
      "\<mu> (SetBits UdpGroup OPERATION_FAILED) = request"
    and socket_weight: "\<mu> (OpenSocket s) = (if s = -1 then 0 else open_socket)"
      "\<mu> (CloseSocket s) = - open_socket"
    and net_weight: "\<mu> (Select s n b) = 0" "\<mu> (SendTo s bs ip port n) = 0"
      "\<mu> (ReceiveFrom s k answer) = 0"
    and pipe_weight: "\<mu> (QueueReceive q item) = 0" "\<mu> (QueueSend q x b) = 0"
      "\<mu> (MessageReset mb) = 0" "length bs \<le> POINTER_SIZE \<Longrightarrow> \<mu> (MessageSend mb bs k) = 0" "\<mu> (MessageReceive mb k bs) = 0"
begin

lemmas udp_weights = wait_weight set_weight socket_weight net_weight pipe_weight

lemmas udp_calls = wait_bits_def set_bits_def queue_send_def receive_udp_def message_reset_def
  message_send_def

lemma w_quiet: "weighs \<mu> (malloc E n) (\<lambda>_. 0)" "weighs \<mu> (release p) (\<lambda>_. 0)"
  by (rule weighs_cong, rule w_malloc w_release, simp)+

lemma w_message_receive: "weighs \<mu> (message_receive E b p n) (\<lambda>_. 0)"
  unfolding message_receive_def
  by (rule memory_rules weighs_rules | (auto simp: udp_weights; fail))+

lemma w_custom_allocate: "weighs \<mu> (custom_allocate_memory_for_buffer E b p) (\<lambda>_. 0)"
  unfolding custom_allocate_memory_for_buffer_def
  by (rule w_quiet [THEN weighs_bind_free] weighs_bind_free [OF w_message_receive] weighs_rules
      | (auto; fail))+

lemma short_answer: "\<not> POINTER_SIZE - 1 < length bs \<Longrightarrow> \<mu> (MessageSend mb (bs @ [NUL]) k) = 0"
  by (rule udp_weights) (simp add: POINTER_SIZE_def)

lemma w_receive_response: "weighs \<mu> (receive_response E s) (\<lambda>_. 0)"
  unfolding receive_response_def udp_calls
  by (rule memory_rules weighs_rules | (auto simp: udp_weights short_answer; fail))+

lemma w_send_datagram:
  "weighs \<mu> (send_datagram E) (\<lambda>(done, sock). if sock = -1 then 0 else open_socket)"
  unfolding send_datagram_def udp_calls
  by (rule weighs_bind_free [OF w_custom_allocate] weighs_bind_free [OF w_message_receive]
      weighs_bind_free [OF w_receive_response] memory_rules weighs_rules
      | (auto simp: udp_weights; fail))+

lemma w_report: "weighs \<mu> (report_udp b) (\<lambda>_. request)"
  unfolding report_udp_def udp_calls by (rule weighs_rules | (auto simp: udp_weights; fail))+

lemma w_release_buffer: "weighs \<mu> (reads send_buffer \<bind> release) (\<lambda>_. 0)"
  by (rule weighs_bind_free [OF weighs_zero(1)]) (simp_all add: w_quiet)

lemma w_udp_pass: "weighs \<mu> (udp_client_pass E) (\<lambda>_. 0)"
  unfolding udp_client_pass_def udp_calls
  by (rule weighs_bind [OF w_send_datagram] weighs_bind [OF w_report] weighs_bind [OF w_release_buffer]
      weighs_cong [OF w_release_buffer] memory_rules weighs_rules
      | (auto simp: udp_weights; fail))+

lemma w_udp_client: "weighs \<mu> (udp_client E n) (\<lambda>_. 0)"
proof (induction n)
  case 0
  then show ?case by (simp add: weighs_zero)
next
  case (Suc n)
  then show ?case by (simp add: weighs_bind_free [OF w_udp_pass])
qed

end

fun udp_answer_weight :: "esp_event \<Rightarrow> int" where
  "udp_answer_weight (SetBits g b) =
     (if g = UdpGroup \<and> (b = OPERATION_SUCCESS \<or> b = OPERATION_FAILED) then 1 else 0)"
| "udp_answer_weight (Wait g b r) = (if g = UdpGroup \<and> has_bit r SEND_MESSAGE then - 1 else 0)"
| "udp_answer_weight _ = 0"

fun socket_weight :: "esp_event \<Rightarrow> int" where
  "socket_weight (OpenSocket s) = (if s = -1 then 0 else 1)"
| "socket_weight (CloseSocket s) = - 1"
| "socket_weight _ = 0"

text \<open>The messages handed on with more than three bytes and a terminator.\<close>

fun long_weight :: "esp_event \<Rightarrow> int" where
  "long_weight (MessageSend mb bs n) = (if POINTER_SIZE < length bs then 1 else 0)"
| "long_weight _ = 0"

interpretation udp_answers: udp_weight udp_answer_weight 1 0
  by unfold_locales auto

interpretation sockets: udp_weight socket_weight 0 1
  by unfold_locales auto

interpretation long_messages: udp_weight long_weight 0 0
  by unfold_locales auto


section \<open>No datagram is sent\<close>

definition no_buffer :: "udp_task \<Rightarrow> bool" where
  "no_buffer v \<longleftrightarrow> send_buffer v = None"

lemma no_buffer_simps [simp]:
  "no_buffer (v\<lparr>udp_request := d\<rparr>) = no_buffer v" "no_buffer (v\<lparr>send_buffer := p\<rparr>) \<longleftrightarrow> p = None"
  by (simp_all add: no_buffer_def)

lemma steady_custom_allocate:
  assumes "message_limit E"
  shows "triple P (custom_allocate_memory_for_buffer E mb None) (\<lambda>r v. P v \<and> r = (None, 0, False))"
  unfolding triple_def by (simp add: run_custom_allocate_null [OF assms])

lemma nothing_to_send:
  assumes "message_limit E"
  shows "triple no_buffer (send_datagram E) (\<lambda>r v. no_buffer v \<and> r = (False, -1))"
proof -
  have buffer: "triple no_buffer (reads send_buffer) (\<lambda>p v. no_buffer v \<and> p = None)"
    by (rule triple_primitive) (simp add: no_buffer_def)
  show ?thesis
    unfolding send_datagram_def
    by (rule steady_calls [THEN triple_bind] triple_bind_value [OF buffer]
        triple_bind_value [OF steady_custom_allocate [OF assms]] triple_rules triple_bind_keep | simp)+
qed

lemma steady_udp_pass:
  assumes "message_limit E"
  shows "steady no_buffer (udp_client_pass E)"
proof -
  have release: "steady no_buffer (do { p \<leftarrow> reads send_buffer; release p })"
    by (rule steady_release_null) (simp add: no_buffer_def)
  have report: "steady no_buffer (report_udp b)" for b
    unfolding report_udp_def
    by (rule steady_calls steady_calls [THEN triple_bind] triple_rules | simp)+
  show ?thesis
    unfolding udp_client_pass_def
    by (rule steady_calls [THEN triple_bind] triple_bind_value [OF nothing_to_send [OF assms]]
        report [THEN triple_bind] release release [THEN triple_bind] triple_rules | simp)+
qed

lemma steady_udp_client: "message_limit E \<Longrightarrow> steady no_buffer (udp_client E n)"
  by (induction n) (auto intro: triple_primitive triple_bind [OF steady_udp_pass])

definition demo_udp :: "(esp_event, udp_task) machine" where
  "demo_udp = \<lparr>history = [], fault = None, vars = \<lparr>blocks = Map.empty, instances = Map.empty,
     ac_list = None, next_address = 0, send_buffer = None, udp_request = udp_zero\<rparr>\<rparr>"


text \<open>
  A request to send on a system as FreeRTOS documents it: the length of the message is 0, so
  the message is dropped and the request fails; there is not even a socket.
\<close>

theorem nothing_is_sent:
  assumes "message_limit E" "fault w = None" "send_buffer (vars w) = None"
    "has_bit (e_wait E (history w) UdpGroup SEND_MESSAGE) SEND_MESSAGE"
    "\<And>h. e_receive_udp E h = Some d"
  shows "history (snd (run_state (udp_client_pass E) w)) =
    [SetBits UdpGroup OPERATION_FAILED, MessageReset UdpMessages, MessageReset UdpMessages,
     MessageReceive UdpMessages 0 [], QueueReceive UdpQueue (Some (UdpItem d)),
     Wait UdpGroup SEND_MESSAGE (e_wait E (history w) UdpGroup SEND_MESSAGE)] @ history w"
  using assms(2-5)
  by (simp add: udp_client_pass_def send_datagram_def wait_bits_def receive_udp_def message_reset_def
      run_custom_allocate_null [OF assms(1)] report_udp_def set_bits_def release_def whenever_def)

end
