(* ===== verification/Wifi.thy ===== *)
theory Wifi
  imports Interconn
begin

text \<open>
  The task \<open>wifi_connection\<close> of \<open>firmware_esp32/main/wifi.c\<close> and the handlers of Wi-Fi events
  it works with. The two share the static variables of the file and the bits of the event
  group \<open>stateWiFiEventGroup\<close>, both kept here as variables of the task. The system says which
  events arrive (\<open>e_events\<close>), and their handlers run, one event after the other, before every
  access of the task to what it shares with them (\<open>deliver\<close>); what is lost is only an
  interruption within a handler. A wait for a bit of the group runs the handlers of the events
  that arrive until the bit is set; a wait without a limit that no event ends is the fault
  \<open>NoReturn\<close>.

  Each kind of request is a definition that returns whether the code reaches the end of its
  branch (\<open>True\<close>) or jumps to \<open>failed\<close>; \<open>wifi_pass\<close> is one pass of the endless loop.
\<close>

section \<open>State\<close>

record wifi_task =
  state_bits :: bits
  internal_queue :: "internal_wifi_data option"
  attempts_left :: u32
  connected_ssid :: string
  received_ip :: string
  network_ip :: string
  broadcast_ip :: string
  default_netif :: "nat option"
  wifi_query :: wifi_data
  max_number_aps :: nat

type_synonym 'a wifi_prog = "(esp_event, wifi_task, 'a) prog"

unbundle bit_operations_syntax

text \<open>\<open>xEventGroupSetBits\<close>, \<open>xEventGroupClearBits\<close> on the group of the state.\<close>

definition raise_bits :: "bits \<Rightarrow> unit wifi_prog" where
  "raise_bits b = modify (\<lambda>v. v\<lparr>state_bits := state_bits v OR b\<rparr>)"

definition drop_bits :: "bits \<Rightarrow> unit wifi_prog" where
  "drop_bits b = modify (\<lambda>v. v\<lparr>state_bits := state_bits v AND NOT b\<rparr>)"

definition wifi_call :: "'j esp \<Rightarrow> wifi_call \<Rightarrow> int wifi_prog" where
  "wifi_call E c = call (\<lambda>h. e_wifi E h c) (\<lambda>r. Wifi c r)"

section \<open>Handlers\<close>

definition on_sta_start :: "'j esp \<Rightarrow> unit wifi_prog" where
  "on_sta_start E = do {
     s \<leftarrow> reads state_bits;
     whenever (\<not> has_bit s STATE_START_FOR_SCAN) (do { wifi_call E WifiConnect; skip }) }"

text \<open>
  \<open>ip4_addr_get_network\<close>, and \<open>sprintf\<close> with \<open>IPSTR\<close>: an address is a word whose bytes lie in
  memory in the order of the dotted notation, the least significant first.
\<close>

definition get_network :: "u32 \<Rightarrow> u32 \<Rightarrow> u32" where
  "get_network ip netmask = ip AND netmask"

definition get_broadcast :: "u32 \<Rightarrow> u32 \<Rightarrow> u32" where
  "get_broadcast ip netmask = NOT netmask OR get_network ip netmask"

definition ip_byte :: "u32 \<Rightarrow> nat \<Rightarrow> u8" where
  "ip_byte a i = ucast (drop_bit (8 * i) a)"

definition dotted :: "u32 \<Rightarrow> string" where
  "dotted a = decimal (unat (ip_byte a 0)) @ ''.'' @ decimal (unat (ip_byte a 1)) @ ''.'' @
     decimal (unat (ip_byte a 2)) @ ''.'' @ decimal (unat (ip_byte a 3))"

definition print_ip :: "string \<Rightarrow> u32 \<Rightarrow> string wifi_prog" where
  "print_ip dest a = perform [] (strcpy_into dest (dotted a @ [NUL]))"

text \<open>The arrays of the local \<open>my_internal_wifi_data\<close> hold \<open>junk\<close> before they are written.\<close>

definition on_got_ip :: "'j esp \<Rightarrow> u32 \<Rightarrow> u32 \<Rightarrow> (nat \<Rightarrow> char) \<Rightarrow> unit wifi_prog" where
  "on_got_ip E ip netmask junk = do {
     s \<leftarrow> reads state_bits;
     drop_bits STATE_INTERNAL_QUEUE;
     a \<leftarrow> print_ip (map junk [0..<IP4_MAX_SIZE]) ip;
     modify (\<lambda>v. v\<lparr>received_ip := a\<rparr>);
     n \<leftarrow> print_ip (map junk [IP4_MAX_SIZE..<2 * IP4_MAX_SIZE]) (get_network ip netmask);
     modify (\<lambda>v. v\<lparr>network_ip := n\<rparr>);
     b \<leftarrow> print_ip (map junk [2 * IP4_MAX_SIZE..<3 * IP4_MAX_SIZE]) (get_broadcast ip netmask);
     modify (\<lambda>v. v\<lparr>broadcast_ip := b\<rparr>);
     whenever (has_bit s STATE_INTERNAL_QUEUE)
       (modify (\<lambda>v. if internal_queue v = None
          then v\<lparr>internal_queue := Some \<lparr>int_ip = a, int_network = n, int_broadcast = b\<rparr>\<rparr> else v));
     modify (\<lambda>v. v\<lparr>attempts_left := 0\<rparr>);
     drop_bits STATE_SEVERAL_TRIES;
     drop_bits STATE_LOST_IP;
     raise_bits STATE_GOT_IP }"

definition on_wifi_disconnect :: "'j esp \<Rightarrow> unit wifi_prog" where
  "on_wifi_disconnect E = do {
     s \<leftarrow> reads state_bits;
     modify (\<lambda>v. v\<lparr>connected_ssid := replicate MAX_SSID_LEN NUL\<rparr>);
     if has_bit s STATE_SEVERAL_TRIES then do {
       n \<leftarrow> reads attempts_left;
       if n \<noteq> 0 then do {
         modify (\<lambda>v. v\<lparr>attempts_left := attempts_left v - 1\<rparr>);
         wifi_call E WifiConnect;
         skip }
       else do {
         drop_bits STATE_SEVERAL_TRIES;
         drop_bits STATE_GOT_IP;
         raise_bits STATE_LOST_IP;
         whenever (has_bit s STATE_CEASELESS_C) (do {
           drop_bits STATE_INTERNAL_QUEUE;
           wifi_call E WifiConnect;
           skip }) } }
     else if has_bit s STATE_CEASELESS_C then do {
       drop_bits STATE_GOT_IP;
       raise_bits STATE_LOST_IP;
       drop_bits STATE_INTERNAL_QUEUE;
       wifi_call E WifiConnect;
       skip }
     else whenever (\<not> has_bit s STATE_DEINITIALIZING) (do {
       drop_bits STATE_GOT_IP;
       raise_bits STATE_LOST_IP }) }"

definition on_wifi_connect :: "string \<Rightarrow> unit wifi_prog" where
  "on_wifi_connect name = modify (\<lambda>v. v\<lparr>connected_ssid := take MAX_SSID_LEN name\<rparr>)"

definition on_wifi_stop :: "unit wifi_prog" where
  "on_wifi_stop = do { drop_bits STATE_DEINITIALIZING; raise_bits STATE_STOPPED }"

definition on_lost_ip :: "unit wifi_prog" where
  "on_lost_ip = do {
     modify (\<lambda>v. v\<lparr>received_ip := replicate IP4_MAX_SIZE NUL, broadcast_ip := replicate IP4_MAX_SIZE NUL,
       network_ip := replicate IP4_MAX_SIZE NUL\<rparr>);
     drop_bits STATE_GOT_IP;
     raise_bits STATE_LOST_IP }"

text \<open>The handlers as \<open>wifi_init\<close> registers them.\<close>

definition handle_event :: "'j esp \<Rightarrow> wifi_event \<Rightarrow> unit wifi_prog" where
  "handle_event E e = do {
     emit (Handled e);
     case e of
       StaStart \<Rightarrow> on_sta_start E
     | GotIp ip netmask junk \<Rightarrow> on_got_ip E ip netmask junk
     | Disconnected \<Rightarrow> on_wifi_disconnect E
     | Connected name \<Rightarrow> on_wifi_connect name
     | Stopped \<Rightarrow> on_wifi_stop
     | LostIp \<Rightarrow> on_lost_ip }"

section \<open>The task and its handlers\<close>

definition deliver :: "'j esp \<Rightarrow> unit wifi_prog" where
  "deliver E = do { es \<leftarrow> ask (e_events E); for_each es (handle_event E) }"

definition get_state :: "'j esp \<Rightarrow> bits wifi_prog" where
  "get_state E = do { deliver E; reads state_bits }"

definition set_state :: "'j esp \<Rightarrow> bits \<Rightarrow> unit wifi_prog" where
  "set_state E b = do { deliver E; raise_bits b }"

definition clear_state :: "'j esp \<Rightarrow> bits \<Rightarrow> unit wifi_prog" where
  "clear_state E b = do { deliver E; drop_bits b }"

text \<open>The handlers run until one of the bits is set; \<open>None\<close> when the events end before.\<close>

fun await :: "'j esp \<Rightarrow> bits \<Rightarrow> wifi_event list \<Rightarrow> bits option wifi_prog" where
  "await E netmask es = do {
     s \<leftarrow> reads state_bits;
     if has_bit s netmask then ret (Some s)
     else
       (case es of
          [] \<Rightarrow> ret None
        | e # rest \<Rightarrow> do { handle_event E e; await E netmask rest }) }"

declare await.simps [simp del]

text \<open>
  The wait for \<open>STATE_STOPPED\<close>, which clears the bit and has a limit, and the one for an
  address or its loss, which has none.
\<close>

definition wait_stopped :: "'j esp \<Rightarrow> bits wifi_prog" where
  "wait_stopped E = do {
     es \<leftarrow> ask (e_events E);
     r \<leftarrow> await E STATE_STOPPED es;
     case r of
       None \<Rightarrow> reads state_bits
     | Some s \<Rightarrow> do { drop_bits STATE_STOPPED; ret s } }"

definition wait_ip :: "'j esp \<Rightarrow> bits wifi_prog" where
  "wait_ip E = do {
     es \<leftarrow> ask (e_events E);
     r \<leftarrow> await E (STATE_GOT_IP OR STATE_LOST_IP) es;
     case r of
       None \<Rightarrow> do { crash NoReturn; ret 0 }
     | Some s \<Rightarrow> ret s }"

definition receive_internal :: "'j esp \<Rightarrow> internal_wifi_data option wifi_prog" where
  "receive_internal E = do {
     deliver E;
     r \<leftarrow> reads internal_queue;
     modify (\<lambda>v. v\<lparr>internal_queue := None\<rparr>);
     ret r }"

section \<open>Steps of the branches\<close>

definition write_in_wifi_conf ::
  "wifi_mode \<Rightarrow> wifi_config \<Rightarrow> string \<Rightarrow> string \<Rightarrow> (wifi_config \<times> bool) wifi_prog" where
  "write_in_wifi_conf m c name psw =
     (case m of
        StaMode \<Rightarrow> ret (c\<lparr>conf_ssid := take MAX_SSID_LEN name, conf_password := take MAX_PASSPHRASE_LEN psw\<rparr>, True)
      | ApMode \<Rightarrow> do {
          s \<leftarrow> array_string name;
          ret (c\<lparr>conf_ssid_len := length s, conf_ssid := take MAX_SSID_LEN name,
            conf_password := take MAX_PASSPHRASE_LEN psw\<rparr>, True) }
      | OtherMode n \<Rightarrow> ret (c, False))"

definition zero_config :: wifi_config where
  "zero_config = \<lparr>conf_ssid = replicate MAX_SSID_LEN NUL, conf_password = replicate MAX_PASSPHRASE_LEN NUL,
     conf_ssid_len = 0, conf_authmode = 0, conf_rssi = 0, conf_channel = 0, conf_max_connection = 0\<rparr>"

definition WIFI_AUTH_WPA2_PSK :: nat where "WIFI_AUTH_WPA2_PSK = 3"
definition WIFI_CHANNEL :: nat where "WIFI_CHANNEL = 3"
definition MAX_STA_CONN :: nat where "MAX_STA_CONN = 2"

definition deinitialize_wifi_block :: "'j esp \<Rightarrow> unit wifi_prog" where
  "deinitialize_wifi_block E = do {
     wifi_call E WifiStop;
     n \<leftarrow> reads default_netif;
     wifi_call E (DestroyNetif n);
     wifi_call E WifiDeinit;
     skip }"

text \<open>Stopping a running Wi-Fi; \<open>False\<close> when the system does not report the stop in time.\<close>

definition leave_state :: "'j esp \<Rightarrow> bits \<Rightarrow> bool wifi_prog" where
  "leave_state E target = do {
     clear_state E STATE_ALL_BITS;
     set_state E target;
     set_state E STATE_DEINITIALIZING;
     deinitialize_wifi_block E;
     s \<leftarrow> wait_stopped E;
     if \<not> has_bit s STATE_STOPPED then ret False
     else do { clear_state E STATE_STOPPED; ret True } }"

definition enter_state :: "'j esp \<Rightarrow> bits \<Rightarrow> bits \<Rightarrow> bool wifi_prog" where
  "enter_state E current target =
     (if \<not> has_bit current STATE_PRE_INIT then leave_state E target
      else do { clear_state E STATE_ALL_BITS; set_state E target; ret True })"

definition create_netif :: "'j esp \<Rightarrow> wifi_mode \<Rightarrow> unit wifi_prog" where
  "create_netif E m = do {
     n \<leftarrow> call (e_netif E) (\<lambda>n. Wifi (CreateNetif m) (case n of None \<Rightarrow> 0 | Some a \<Rightarrow> int a));
     modify (\<lambda>v. v\<lparr>default_netif := n\<rparr>) }"

text \<open>Calls of the driver, one after the other, up to the first that fails.\<close>

fun try_calls :: "'j esp \<Rightarrow> wifi_call list \<Rightarrow> bool wifi_prog" where
  "try_calls E [] = ret True"
| "try_calls E (c # cs) = do { err \<leftarrow> wifi_call E c; if err \<noteq> 0 then ret False else try_calls E cs }"

definition set_attempts :: "'j esp \<Rightarrow> wifi_data \<Rightarrow> unit wifi_prog" where
  "set_attempts E d = do {
     whenever (number_attempts d \<noteq> 0) (do {
       set_state E STATE_SEVERAL_TRIES;
       deliver E;
       modify (\<lambda>v. v\<lparr>attempts_left := ucast (number_attempts d)\<rparr>) });
     whenever (ceaseless_conn d) (set_state E STATE_CEASELESS_C) }"

text \<open>Starting the driver with an answer asked for.\<close>

definition start_with_answer :: "'j esp \<Rightarrow> wifi_data \<Rightarrow> bool wifi_prog" where
  "start_with_answer E d = do {
     whenever (need_response d) (set_state E STATE_INTERNAL_QUEUE);
     err \<leftarrow> wifi_call E WifiStart;
     if err \<noteq> 0 then do { clear_state E STATE_INTERNAL_QUEUE; ret False } else ret True }"

text \<open>The answer goes back through the queue of the pipe.\<close>

definition answer_query :: "'j esp \<Rightarrow> internal_wifi_data \<Rightarrow> bool wifi_prog" where
  "answer_query E a = do {
     modify (\<lambda>v. v\<lparr>wifi_query := wifi_answer a\<rparr>);
     queue_reset WifiQueue;
     d \<leftarrow> reads wifi_query;
     queue_send E WifiQueue (WifiItem d) }"

definition report_success :: "bool wifi_prog" where
  "report_success = do { set_bits WifiGroup OPERATION_SUCCESS; ret True }"

text \<open>The wait for the address after the driver is started.\<close>

definition finish_connection :: "'j esp \<Rightarrow> wifi_data \<Rightarrow> bool wifi_prog" where
  "finish_connection E d = do {
     s \<leftarrow> wait_ip E;
     if \<not> has_bit s STATE_GOT_IP then ret False
     else if \<not> need_response d then report_success
     else do {
       r \<leftarrow> receive_internal E;
       case r of
         None \<Rightarrow> ret False
       | Some a \<Rightarrow> do { sent \<leftarrow> answer_query E a; if sent then report_success else ret False } } }"

section \<open>The branches\<close>

text \<open>The addresses of the connection there is.\<close>

definition current_connection :: "'j esp \<Rightarrow> internal_wifi_data wifi_prog" where
  "current_connection E = do {
     deliver E; a \<leftarrow> reads received_ip;
     deliver E; n \<leftarrow> reads network_ip;
     deliver E; b \<leftarrow> reads broadcast_ip;
     ret \<lparr>int_ip = a, int_network = n, int_broadcast = b\<rparr> }"

definition connect_to_ap :: "'j esp \<Rightarrow> bits \<Rightarrow> bool wifi_prog" where
  "connect_to_ap E current = do {
     q \<leftarrow> receive_wifi E;
     case q of
       None \<Rightarrow> ret False
     | Some d \<Rightarrow> do {
         modify (\<lambda>v. v\<lparr>wifi_query := d\<rparr>);
         deliver E;
         name \<leftarrow> reads connected_ssid;
         same \<leftarrow> perform True (strcmp_equal (ssid d) name);
         if same then
           (if \<not> need_response d then report_success
            else do {
              a \<leftarrow> current_connection E;
              sent \<leftarrow> answer_query E a;
              if sent then report_success else ret False })
         else do {
           entered \<leftarrow> enter_state E current STATE_STA;
           if \<not> entered then ret False
           else do {
             (c, written) \<leftarrow> write_in_wifi_conf StaMode zero_config (ssid d) (password d);
             if \<not> written then ret False
             else do {
               set_attempts E d;
               create_netif E StaMode;
               ready \<leftarrow> try_calls E [WifiInit, SetMode StaMode,
                 SetConfig StaMode (c\<lparr>conf_authmode := WIFI_AUTH_WPA2_PSK\<rparr>)];
               if \<not> ready then ret False
               else do {
                 started \<leftarrow> start_with_answer E d;
                 if \<not> started then ret False else finish_connection E d } } } } } }"

definition mode_ap :: "'j esp \<Rightarrow> bits \<Rightarrow> bool wifi_prog" where
  "mode_ap E current = do {
     q \<leftarrow> receive_wifi E;
     case q of
       None \<Rightarrow> ret False
     | Some d \<Rightarrow> do {
         modify (\<lambda>v. v\<lparr>wifi_query := d\<rparr>);
         entered \<leftarrow> enter_state E current STATE_SOFTAP;
         if \<not> entered then ret False
         else do {
           (c, written) \<leftarrow> write_in_wifi_conf ApMode zero_config (ssid d) (password d);
           if \<not> written then ret False
           else do {
             create_netif E ApMode;
             ready \<leftarrow> try_calls E [WifiInit, SetMode ApMode,
               SetConfig ApMode (c\<lparr>conf_authmode := WIFI_AUTH_WPA2_PSK, conf_channel := WIFI_CHANNEL,
                 conf_max_connection := MAX_STA_CONN\<rparr>), WifiStart];
             if \<not> ready then ret False else report_success } } } }"

definition deinit_wifi :: "'j esp \<Rightarrow> bits \<Rightarrow> bool wifi_prog" where
  "deinit_wifi E current =
     (if \<not> has_bit current STATE_PRE_INIT then do {
        left \<leftarrow> leave_state E STATE_PRE_INIT;
        if left then report_success else ret False }
      else report_success)"

text \<open>
  The search of the scanned networks: \<open>strncmp\<close> up to the length of the name asked for, so a
  prefix of a network's name finds it.
\<close>

fun strncmp_equal :: "nat \<Rightarrow> string \<Rightarrow> string \<Rightarrow> bool exec" where
  "strncmp_equal 0 xs ys = ok True"
| "strncmp_equal (Suc n) (x # xs) (y # ys) =
     (if x \<noteq> y then ok False else if x = NUL then ok True else strncmp_equal n xs ys)"
| "strncmp_equal (Suc n) xs ys = abort BufferOverflow"

fun find_ap :: "string \<Rightarrow> ap_record list \<Rightarrow> ap_record option wifi_prog" where
  "find_ap name [] = ret None"
| "find_ap name (r # rs) = do {
     s \<leftarrow> array_string name;
     found \<leftarrow> perform True (strncmp_equal (length s) name (ap_ssid r));
     if found then ret (Some r) else find_ap name rs }"

text \<open>The array \<open>ap_info\<close>: what the driver wrote, and zeros after that.\<close>

definition zero_record :: ap_record where
  "zero_record = \<lparr>ap_ssid = replicate (Suc MAX_SSID_LEN) NUL, ap_rssi = 0, ap_authmode = 0\<rparr>"

definition scan_networks :: "'j esp \<Rightarrow> ap_record list option wifi_prog" where
  "scan_networks E = do {
     err \<leftarrow> wifi_call E ScanStart;
     if err \<noteq> 0 then ret None
     else do {
       m \<leftarrow> reads max_number_aps;
       records \<leftarrow> ask (e_scan_records E);
       err \<leftarrow> wifi_call E ScanRecords;
       if err \<noteq> 0 then ret None
       else do {
         let got = take m records;
         modify (\<lambda>v. v\<lparr>max_number_aps := length got\<rparr>);
         n \<leftarrow> ask (e_scan_count E);
         err \<leftarrow> wifi_call E ScanCount;
         if err \<noteq> 0 then ret None
         else ret (Some (take n (got @ replicate (SCAN_LIST_SIZE - length got) zero_record))) } } }"

definition scan_and_connect :: "'j esp \<Rightarrow> bits \<Rightarrow> bool wifi_prog" where
  "scan_and_connect E current = do {
     q \<leftarrow> receive_wifi E;
     case q of
       None \<Rightarrow> ret True
     | Some d \<Rightarrow> do {
         modify (\<lambda>v. v\<lparr>wifi_query := d\<rparr>);
         entered \<leftarrow> enter_state E current STATE_STA;
         if \<not> entered then ret False
         else do {
           set_attempts E d;
           create_netif E StaMode;
           ready \<leftarrow> try_calls E [WifiInit, SetMode StaMode];
           if \<not> ready then ret False
           else do {
             set_state E STATE_START_FOR_SCAN;
             err \<leftarrow> wifi_call E WifiStart;
             if err \<noteq> 0 then do { clear_state E STATE_START_FOR_SCAN; ret False }
             else do {
               networks \<leftarrow> scan_networks E;
               case networks of
                 None \<Rightarrow> ret False
               | Some rs \<Rightarrow> do {
                   sought \<leftarrow> find_ap (ssid d) rs;
                   case sought of
                     None \<Rightarrow> ret False
                   | Some r \<Rightarrow> do {
                       (c, written) \<leftarrow> write_in_wifi_conf StaMode
                         (zero_config\<lparr>conf_authmode := ap_authmode r, conf_rssi := ap_rssi r\<rparr>)
                         (ap_ssid r) (password d);
                       if \<not> written then ret False
                       else do {
                         clear_state E STATE_START_FOR_SCAN;
                         ready \<leftarrow> try_calls E [WifiStop, WifiInit, SetMode StaMode, SetConfig StaMode c];
                         if \<not> ready then ret False
                         else do {
                           started \<leftarrow> start_with_answer E d;
                           if \<not> started then ret False else finish_connection E d } } } } } } } } }"

section \<open>The loop\<close>

definition wifi_request :: "'j esp \<Rightarrow> bits \<Rightarrow> bits \<Rightarrow> bool wifi_prog" where
  "wifi_request E bits current =
     (if has_bit bits CONNECT_TO_AP then connect_to_ap E current
      else if has_bit bits MODE_AP then mode_ap E current
      else if has_bit bits DEINIT_WIFI then deinit_wifi E current
      else if has_bit bits SCAN_AND_CONNECT_TO_AP then scan_and_connect E current
      else ret True)"

definition wifi_pass :: "'j esp \<Rightarrow> unit wifi_prog" where
  "wifi_pass E = do {
     bits \<leftarrow> wait_bits E WifiGroup (CONNECT_TO_AP OR MODE_AP OR DEINIT_WIFI OR SCAN_AND_CONNECT_TO_AP);
     current \<leftarrow> get_state E;
     done \<leftarrow> wifi_request E bits current;
     whenever (\<not> done) (set_bits WifiGroup OPERATION_FAILED);
     deliver E;
     modify (\<lambda>v. v\<lparr>internal_queue := None\<rparr>);
     modify (\<lambda>v. v\<lparr>wifi_query := wifi_zero\<rparr>) }"

fun wifi_connection :: "'j esp \<Rightarrow> nat \<Rightarrow> unit wifi_prog" where
  "wifi_connection E 0 = skip"
| "wifi_connection E (Suc n) = do { wifi_pass E; wifi_connection E n }"

end
