(* ===== verification/WifiText.thy ===== *)
theory WifiText
  imports Wifi
begin

text \<open>
  Lemmas on the bits of the Wi-Fi state and on addresses in dotted notation: the text of an
  address fits its array, and a reader gets the address back from it.
\<close>

unbundle bit_operations_syntax

section \<open>Bits of the state\<close>

lemmas state_masks = STATE_ALL_BITS_def STATE_STA_def STATE_GOT_IP_def STATE_LOST_IP_def
  STATE_CEASELESS_C_def STATE_SEVERAL_TRIES_def STATE_START_FOR_SCAN_def STATE_SOFTAP_def
  STATE_PRE_INIT_def STATE_DEINITIALIZING_def STATE_STOPPED_def STATE_INTERNAL_QUEUE_def
  BIT0_def BIT1_def BIT2_def BIT3_def BIT4_def BIT5_def BIT6_def BIT8_def BIT9_def BIT10_def
  BIT11_def

lemma has_bit_simps [simp]:
  "has_bit (s OR b) m \<longleftrightarrow> has_bit s m \<or> has_bit b m"
  "has_bit s (m OR n) \<longleftrightarrow> has_bit s m \<or> has_bit s n"
  by (simp_all add: has_bit_def bit.conj_disj_distrib bit.conj_disj_distrib2 or_eq_0_iff)

lemma has_bit_dropped: "b AND m = 0 \<Longrightarrow> has_bit (s AND NOT b) m \<longleftrightarrow> has_bit s m"
  by (rule arg_cong [of "(s AND NOT b) AND m" "s AND m" "\<lambda>x. x \<noteq> 0", folded has_bit_def])
    (rule bit_word_eqI, drule arg_cong [of _ _ "\<lambda>x. bit x _"], auto simp: bit_simps)

lemma has_bit_cleared: "m AND NOT b = 0 \<Longrightarrow> \<not> has_bit (s AND NOT b) m"
proof -
  have "(s AND NOT b) AND m = s AND (m AND NOT b)" by (simp only: ac_simps)
  then show "m AND NOT b = 0 \<Longrightarrow> ?thesis" by (simp add: has_bit_def)
qed

lemma has_bit_subset: "has_bit (s AND NOT b) m \<Longrightarrow> has_bit s m"
proof -
  have "(s AND NOT b) AND m = (s AND m) AND NOT b" by (simp only: ac_simps)
  then show "has_bit (s AND NOT b) m \<Longrightarrow> ?thesis" by (auto simp: has_bit_def)
qed

lemma state_bits_distinct [simp]:
  "has_bit STATE_GOT_IP STATE_GOT_IP" "has_bit STATE_LOST_IP STATE_LOST_IP"
  "\<not> has_bit STATE_GOT_IP STATE_LOST_IP" "\<not> has_bit STATE_LOST_IP STATE_GOT_IP"
  "\<not> has_bit STATE_GOT_IP STATE_SEVERAL_TRIES" "\<not> has_bit STATE_LOST_IP STATE_SEVERAL_TRIES"
  "\<not> has_bit STATE_GOT_IP STATE_CEASELESS_C" "\<not> has_bit STATE_LOST_IP STATE_CEASELESS_C"
  by (simp_all add: has_bit_def state_masks)

lemma drop_simps [simp]:
  "has_bit (s AND NOT STATE_GOT_IP) STATE_LOST_IP = has_bit s STATE_LOST_IP"
  "has_bit (s AND NOT STATE_LOST_IP) STATE_GOT_IP = has_bit s STATE_GOT_IP"
  "\<not> has_bit (s AND NOT STATE_GOT_IP) STATE_GOT_IP"
  "\<not> has_bit (s AND NOT STATE_LOST_IP) STATE_LOST_IP"
  by (rule has_bit_dropped has_bit_cleared, simp add: state_masks)+

text \<open>The bits that a task or handler drops and raises beside the two.\<close>

lemma drop_other [simp]:
  "has_bit (s AND NOT STATE_INTERNAL_QUEUE) STATE_GOT_IP = has_bit s STATE_GOT_IP"
  "has_bit (s AND NOT STATE_INTERNAL_QUEUE) STATE_LOST_IP = has_bit s STATE_LOST_IP"
  "has_bit (s AND NOT STATE_SEVERAL_TRIES) STATE_GOT_IP = has_bit s STATE_GOT_IP"
  "has_bit (s AND NOT STATE_SEVERAL_TRIES) STATE_LOST_IP = has_bit s STATE_LOST_IP"
  by (rule has_bit_dropped, simp add: state_masks)+

section \<open>Addresses as text\<close>

lemma length_dotted: "length (dotted a) < IP4_MAX_SIZE"
proof -
  have "length (decimal (unat (b :: u8))) \<le> 3" for b
    using length_decimal [of "unat b" 2] unsigned_less [of b, where ?'a = nat] by (simp add: numeral_eq_Suc)
  then have "length (decimal (unat (ip_byte a i))) \<le> 3" for i by this
  from this [of 0] this [of 1] this [of 2] this [of 3] show ?thesis
    by (simp add: dotted_def IP4_MAX_SIZE_def)
qed

lemma digit_neq:
  assumes "d < 10"
  shows "char_of (48 + d :: nat) \<noteq> NUL" "char_of (48 + d :: nat) \<noteq> CHR ''.''"
proof -
  have "of_char (char_of (48 + d) :: char) = 48 + d" using assms by simp
  then show "char_of (48 + d :: nat) \<noteq> NUL" "char_of (48 + d :: nat) \<noteq> CHR ''.''"
    using assms by (auto simp: NUL_def dest: arg_cong [where f = "of_char :: char \<Rightarrow> nat"])
qed

lemma decimal_neq: "NUL \<notin> set (decimal n)" "CHR ''.'' \<notin> set (decimal n)"
  using decimal_digits digit_neq by metis+

lemma dotted_no_NUL: "NUL \<notin> set (dotted a)"
  by (simp add: dotted_def decimal_neq) (simp add: NUL_def)

lemma c_string_line: "NUL \<notin> set s \<Longrightarrow> c_string (s @ NUL # t) = s"
  by (induction s) (auto simp: c_string_def)

lemma run_print_ip:
  "length dest = IP4_MAX_SIZE \<Longrightarrow> print_ip dest a = ret (overwrite dest 0 (dotted a @ [NUL]))"
  using length_dotted [of a] dotted_no_NUL [of a]
  by (simp add: print_ip_def strcpy_into_def c_string_line)

text \<open>A reader of the dotted notation: it undoes \<open>dotted\<close>.\<close>

definition undecimal :: "string \<Rightarrow> nat" where
  "undecimal s = foldl (\<lambda>n c. 10 * n + (of_char c - 48)) 0 s"

fun read_parts :: "nat \<Rightarrow> string \<Rightarrow> nat" where
  "read_parts 0 s = 0"
| "read_parts (Suc k) s =
     undecimal (takeWhile (\<lambda>c. c \<noteq> CHR ''.'') s) +
     256 * read_parts k (tl (dropWhile (\<lambda>c. c \<noteq> CHR ''.'') s))"

definition read_ip :: "string \<Rightarrow> u32" where
  "read_ip s = word_of_nat (read_parts 4 s)"

lemma undecimal_decimal: "undecimal (decimal n) = n"
proof (induction n rule: decimal.induct)
  case (1 n)
  have "of_char (char_of (48 + n mod 10) :: char) = 48 + n mod 10"
    using pos_mod_bound [of 10 "int n"] by simp
  with 1 show ?case
    by (cases "n < 10") (simp_all add: undecimal_def decimal.simps [of n])
qed

lemma dotted_parts [simp]:
  "takeWhile (\<lambda>c. c \<noteq> CHR ''.'') (decimal n @ CHR ''.'' # s) = decimal n"
  "dropWhile (\<lambda>c. c \<noteq> CHR ''.'') (decimal n @ CHR ''.'' # s) = CHR ''.'' # s"
  "takeWhile (\<lambda>c. c \<noteq> CHR ''.'') (decimal n) = decimal n"
  using decimal_neq(2) [of n] by (auto simp: takeWhile_append dropWhile_append intro!: takeWhile_eq_all_conv [THEN iffD2])

lemma ip_byte_value: "unat (ip_byte a i) = unat a div 256 ^ i mod 256"
proof -
  have "unat (drop_bit (8 * i) a) = unat a div 256 ^ i"
    by (rule unat_drop_bit_eq [THEN trans]) (simp add: drop_bit_eq_div power_mult)
  then show ?thesis by (simp add: ip_byte_def unsigned_ucast_eq take_bit_eq_mod)
qed

lemma bytes_value:
  fixes n :: nat
  assumes "n < 256 ^ 4"
  shows "n mod 256 + 256 * (n div 256 mod 256 + 256 * (n div 256 ^ 2 mod 256 + 256 * (n div 256 ^ 3 mod 256))) = n"
proof -
  have "n div 256 ^ 3 < 256"
    by (rule less_mult_imp_div_less) (use assms in \<open>simp add: power_numeral_reduce\<close>)
  moreover have "n div 256 ^ 3 = n div 256 div 256 div 256" "n div 256 ^ 2 = n div 256 div 256"
    by (simp_all add: div_mult2_eq [symmetric])
  ultimately show ?thesis by (simp only: mod_less mod_mult_div_eq)
qed

lemma read_ip_dotted: "read_ip (dotted a) = a"
proof -
  have "read_parts 4 s = read_parts (Suc (Suc (Suc (Suc 0)))) s" for s
    by (rule arg_cong [where f = "\<lambda>k. read_parts k s"]) simp
  moreover have "unat a < 256 ^ 4" using unsigned_less [of a, where ?'a = nat] by simp
  ultimately have "read_parts 4 (dotted a) = unat a"
    using bytes_value [of "unat a"] by (simp add: dotted_def undecimal_decimal ip_byte_value)
  then show ?thesis by (simp add: read_ip_def)
qed

end
