(* ===== verification/WifiInv.thy ===== *)
theory WifiInv
  imports WifiText
begin

text \<open>
  An invariant of the variables that the Wi-Fi task shares with the handlers of events, kept
  at every step of either, whatever events arrive and whatever the system answers: the arrays
  of addresses hold terminated texts, the bits for an address and for its loss are never set
  together, and while the first is set the arrays hold an address with its network and its
  broadcast address.
\<close>

unbundle bit_operations_syntax

section \<open>Invariants of variables\<close>

text \<open>The program keeps \<open>I\<close>, also when it runs into a fault.\<close>

definition stays :: "('d \<Rightarrow> bool) \<Rightarrow> ('e, 'd, 'a) prog \<Rightarrow> bool" where
  "stays I m \<longleftrightarrow> (\<forall>w. I (vars w) \<longrightarrow> I (vars (snd (run_state m w))))"

lemma stays_bind: "stays I m \<Longrightarrow> (\<And>a. stays I (k a)) \<Longrightarrow> stays I (State_Monad.bind m k)"
  by (auto simp: stays_def split: prod.splits)

lemma stays_primitive:
  "stays I (ret a)" "stays I (emit e)" "stays I (crash x)" "stays I (reads g)" "stays I (ask q)"
  "stays I (call q ev)" "stays I skip"
  by (simp_all add: stays_def)

lemma stays_bind_reads:
  "(\<And>v. I v \<Longrightarrow> stays I (k (g v))) \<Longrightarrow> stays I (State_Monad.bind (reads g) k)"
  by (simp add: stays_def)

lemma stays_modify: "(\<And>v. I v \<Longrightarrow> I (f v)) \<Longrightarrow> stays I (modify f)"
  by (simp add: stays_def)

lemma stays_control:
  "(b1 \<Longrightarrow> stays I m1) \<Longrightarrow> (\<not> b1 \<Longrightarrow> stays I n1) \<Longrightarrow> stays I (if b1 then m1 else n1)"
  "(b2 \<Longrightarrow> stays I m2) \<Longrightarrow> stays I (whenever b2 m2)"
  "stays I m3 \<Longrightarrow> (\<And>a. stays I (n3 a)) \<Longrightarrow> stays I (case x3 of None \<Rightarrow> m3 | Some a \<Rightarrow> n3 a)"
  "(\<And>a b. stays I (n4 a b)) \<Longrightarrow> stays I (case x4 of (a, b) \<Rightarrow> n4 a b)"
  "(\<And>x. x = v \<Longrightarrow> stays I (n5 x)) \<Longrightarrow> stays I (Let v n5)"
  by (auto simp: whenever_def stays_primitive split: option.split prod.split)

lemma stays_for_each: "(\<And>x. stays I (g x)) \<Longrightarrow> stays I (for_each xs g)"
  by (induction xs) (auto intro: stays_bind stays_primitive)

lemma stays_perform: "stays I (perform d x)"
  by (auto simp: perform_def intro!: stays_bind stays_primitive split: option.split sum.split)

lemmas stays_rules = stays_bind stays_primitive stays_control stays_for_each stays_perform

section \<open>The invariant\<close>

definition ip_text :: "string \<Rightarrow> bool" where
  "ip_text s \<longleftrightarrow> length s = IP4_MAX_SIZE \<and> NUL \<in> set s"

text \<open>The three texts belong to an address and a mask.\<close>

definition addresses_of :: "u32 \<Rightarrow> u32 \<Rightarrow> string \<Rightarrow> string \<Rightarrow> string \<Rightarrow> bool" where
  "addresses_of ip netmask a n b \<longleftrightarrow>
     c_string a = dotted ip \<and> c_string n = dotted (get_network ip netmask) \<and>
     c_string b = dotted (get_broadcast ip netmask)"

definition wifi_ok :: "wifi_task \<Rightarrow> bool" where
  "wifi_ok v \<longleftrightarrow>
     ip_text (received_ip v) \<and> ip_text (network_ip v) \<and> ip_text (broadcast_ip v) \<and>
     (\<forall>d. internal_queue v = Some d \<longrightarrow>
        ip_text (int_ip d) \<and> ip_text (int_network d) \<and> ip_text (int_broadcast d) \<and>
        (\<exists>ip netmask. addresses_of ip netmask (int_ip d) (int_network d) (int_broadcast d))) \<and>
     \<not> (has_bit (state_bits v) STATE_GOT_IP \<and> has_bit (state_bits v) STATE_LOST_IP) \<and>
     (has_bit (state_bits v) STATE_GOT_IP \<longrightarrow>
        (\<exists>ip netmask. addresses_of ip netmask (received_ip v) (network_ip v) (broadcast_ip v))) \<and>
     length (connected_ssid v) \<le> MAX_SSID_LEN \<and> max_number_aps v \<le> SCAN_LIST_SIZE"

section \<open>The handler of a new address\<close>

definition printed :: "(nat \<Rightarrow> char) \<Rightarrow> nat \<Rightarrow> u32 \<Rightarrow> string" where
  "printed junk k a = overwrite (map junk [k * IP4_MAX_SIZE..<Suc k * IP4_MAX_SIZE]) 0 (dotted a @ [NUL])"

lemma printed_text: "ip_text (printed junk k a)" "c_string (printed junk k a) = dotted a"
  using length_dotted [of a] dotted_no_NUL [of a]
  by (simp_all add: printed_def ip_text_def overwrite_def c_string_line)

lemma print_ip_printed:
  "print_ip (map junk [0..<IP4_MAX_SIZE]) a = ret (printed junk 0 a)"
  "print_ip (map junk [IP4_MAX_SIZE..<2 * IP4_MAX_SIZE]) a = ret (printed junk 1 a)"
  "print_ip (map junk [2 * IP4_MAX_SIZE..<3 * IP4_MAX_SIZE]) a = ret (printed junk 2 a)"
  by (simp_all add: run_print_ip printed_def) (simp_all add: numeral_eq_Suc)

definition new_address :: "u32 \<Rightarrow> u32 \<Rightarrow> (nat \<Rightarrow> char) \<Rightarrow> internal_wifi_data" where
  "new_address ip netmask junk = \<lparr>int_ip = printed junk 0 ip,
     int_network = printed junk 1 (get_network ip netmask),
     int_broadcast = printed junk 2 (get_broadcast ip netmask)\<rparr>"

lemma new_address_of:
  "d = new_address ip netmask junk \<Longrightarrow> addresses_of ip netmask (int_ip d) (int_network d) (int_broadcast d)"
  "d = new_address ip netmask junk \<Longrightarrow> ip_text (int_ip d) \<and> ip_text (int_network d) \<and> ip_text (int_broadcast d)"
  by (simp_all add: new_address_def addresses_of_def printed_text)

definition after_got_ip :: "internal_wifi_data \<Rightarrow> wifi_task \<Rightarrow> wifi_task" where
  "after_got_ip d v = v\<lparr>
     received_ip := int_ip d, network_ip := int_network d, broadcast_ip := int_broadcast d,
     internal_queue :=
       (if has_bit (state_bits v) STATE_INTERNAL_QUEUE \<and> internal_queue v = None then Some d
        else internal_queue v),
     attempts_left := 0,
     state_bits := (((state_bits v AND NOT STATE_INTERNAL_QUEUE) AND NOT STATE_SEVERAL_TRIES)
       AND NOT STATE_LOST_IP) OR STATE_GOT_IP\<rparr>"

lemma run_on_got_ip:
  "run_state (on_got_ip E ip netmask junk) w =
     ((), if fault w = None then w\<lparr>vars := after_got_ip (new_address ip netmask junk) (vars w)\<rparr> else w)"
proof (cases "fault w")
  case None
  then show ?thesis
    by (simp add: on_got_ip_def print_ip_printed drop_bits_def raise_bits_def whenever_def
        after_got_ip_def new_address_def)
next
  case (Some f)
  then show ?thesis
    by (simp add: on_got_ip_def print_ip_printed drop_bits_def raise_bits_def whenever_def)
qed

section \<open>Every step keeps the invariant\<close>

lemma wifi_ok_got_ip:
  assumes "wifi_ok v"
  shows "wifi_ok (after_got_ip (new_address ip netmask junk) v)"
  using assms new_address_of [OF refl, of ip netmask junk]
  by (auto simp: wifi_ok_def after_got_ip_def)

lemma stays_on_got_ip: "stays wifi_ok (on_got_ip E ip netmask junk)"
  by (simp add: stays_def run_on_got_ip wifi_ok_got_ip)

lemma ip_text_zero: "ip_text (replicate IP4_MAX_SIZE NUL)"
  by (simp add: ip_text_def IP4_MAX_SIZE_def)

lemma stays_drop: "stays wifi_ok (drop_bits b)"
  unfolding drop_bits_def by (rule stays_modify) (auto simp: wifi_ok_def dest: has_bit_subset)

text \<open>Raising a bit other than the two; losing the address drops one and raises the other.\<close>

lemma stays_raise:
  "\<not> has_bit b STATE_GOT_IP \<Longrightarrow> \<not> has_bit b STATE_LOST_IP \<Longrightarrow> stays wifi_ok (raise_bits b)"
  unfolding raise_bits_def by (rule stays_modify) (simp add: wifi_ok_def)

lemma lose_address:
  "do { drop_bits STATE_GOT_IP; raise_bits STATE_LOST_IP } =
   modify (\<lambda>v. v\<lparr>state_bits := (state_bits v AND NOT STATE_GOT_IP) OR STATE_LOST_IP\<rparr>)"
  by (rule State_Monad.state.expand) (auto simp: drop_bits_def raise_bits_def fun_eq_iff)

lemma stays_lose: "stays wifi_ok (do { drop_bits STATE_GOT_IP; raise_bits STATE_LOST_IP })"
  unfolding lose_address by (rule stays_modify) (auto simp: wifi_ok_def)

lemma stays_lose_bind:
  assumes "stays wifi_ok (k ())"
  shows "stays wifi_ok (do { drop_bits STATE_GOT_IP; u \<leftarrow> raise_bits STATE_LOST_IP; k u })"
  using stays_bind [OF stays_lose, of "\<lambda>_. k ()"] assms by simp

lemma stays_wifi_call: "stays wifi_ok (wifi_call E c)"
  by (simp add: wifi_call_def stays_primitive)

lemmas wifi_stays = stays_lose_bind stays_lose stays_wifi_call stays_drop stays_rules

lemma stays_disconnect: "stays wifi_ok (on_wifi_disconnect E)"
  unfolding on_wifi_disconnect_def
  by (rule wifi_stays | (rule stays_modify, auto simp: wifi_ok_def; fail))+

text \<open>The arrays are cleared before the bit is dropped; the handler as a whole keeps the invariant.\<close>

lemma stays_lost_ip: "stays wifi_ok on_lost_ip"
proof -
  have "on_lost_ip = modify (\<lambda>v. v\<lparr>received_ip := replicate IP4_MAX_SIZE NUL,
      broadcast_ip := replicate IP4_MAX_SIZE NUL, network_ip := replicate IP4_MAX_SIZE NUL,
      state_bits := (state_bits v AND NOT STATE_GOT_IP) OR STATE_LOST_IP\<rparr>)"
    by (rule State_Monad.state.expand) (auto simp: on_lost_ip_def drop_bits_def raise_bits_def fun_eq_iff)
  from this [THEN arg_cong [where f = "stays wifi_ok"]] show ?thesis
    by (rule iffD2) (rule stays_modify, simp add: wifi_ok_def ip_text_zero)
qed

lemma stays_handle: "stays wifi_ok (handle_event E e)"
proof -
  have "stays wifi_ok (on_sta_start E)"
    unfolding on_sta_start_def by (rule wifi_stays)+
  moreover have "stays wifi_ok (on_wifi_connect name)" for name
    unfolding on_wifi_connect_def by (rule stays_modify) (simp add: wifi_ok_def)
  moreover have "stays wifi_ok on_wifi_stop"
    unfolding on_wifi_stop_def
    by (rule wifi_stays stays_raise | simp add: has_bit_def state_masks)+
  ultimately show ?thesis
    unfolding handle_event_def
    by (cases e) (auto intro!: stays_bind stays_primitive stays_on_got_ip stays_disconnect stays_lost_ip)
qed

section \<open>The task keeps it\<close>

lemma stays_deliver: "stays wifi_ok (deliver E)"
  unfolding deliver_def by (rule stays_handle stays_rules)+

lemma stays_access: "stays wifi_ok (get_state E)" "stays wifi_ok (clear_state E b)"
  unfolding get_state_def clear_state_def by (rule stays_deliver wifi_stays)+

lemma stays_set_state:
  "\<not> has_bit b STATE_GOT_IP \<Longrightarrow> \<not> has_bit b STATE_LOST_IP \<Longrightarrow> stays wifi_ok (set_state E b)"
  unfolding set_state_def by (intro stays_bind stays_deliver stays_raise)

lemma stays_await: "stays wifi_ok (await E netmask es)"
proof (induction es)
  case Nil
  then show ?case by (subst await.simps) (simp add: stays_rules)
next
  case (Cons e es)
  then show ?case
    by (subst await.simps) (auto intro!: stays_bind stays_primitive stays_handle)
qed

lemma stays_waits: "stays wifi_ok (wait_stopped E)" "stays wifi_ok (wait_ip E)"
  unfolding wait_stopped_def wait_ip_def by (rule stays_await wifi_stays)+

lemma stays_data:
  "stays wifi_ok (modify (\<lambda>v. v\<lparr>wifi_query := d\<rparr>))"
  "stays wifi_ok (modify (\<lambda>v. v\<lparr>attempts_left := n\<rparr>))"
  "stays wifi_ok (modify (\<lambda>v. v\<lparr>default_netif := x\<rparr>))"
  "stays wifi_ok (modify (\<lambda>v. v\<lparr>internal_queue := None\<rparr>))"
  by (rule stays_modify, simp add: wifi_ok_def)+

lemma stays_calls:
  "stays wifi_ok (wait_bits E g b)" "stays wifi_ok (set_bits g b)" "stays wifi_ok (queue_reset q)"
  "stays wifi_ok (queue_send E q x)" "stays wifi_ok (receive_wifi E)" "stays wifi_ok (array_string s)"
  unfolding wait_bits_def set_bits_def queue_reset_def queue_send_def receive_wifi_def array_string_def
  by (rule stays_rules)+

lemmas task_stays = stays_deliver stays_access stays_waits stays_data stays_calls wifi_stays

lemma stays_try_calls: "stays wifi_ok (try_calls E cs)"
  by (induction cs) (auto intro!: task_stays)

lemma stays_state_bits:
  "stays wifi_ok (set_state E STATE_STA)" "stays wifi_ok (set_state E STATE_SOFTAP)"
  "stays wifi_ok (set_state E STATE_PRE_INIT)" "stays wifi_ok (set_state E STATE_DEINITIALIZING)"
  "stays wifi_ok (set_state E STATE_SEVERAL_TRIES)" "stays wifi_ok (set_state E STATE_CEASELESS_C)"
  "stays wifi_ok (set_state E STATE_START_FOR_SCAN)" "stays wifi_ok (set_state E STATE_INTERNAL_QUEUE)"
  by (rule stays_set_state; simp add: has_bit_def state_masks)+

lemma stays_enter:
  assumes "stays wifi_ok (set_state E target)"
  shows "stays wifi_ok (leave_state E target)" "stays wifi_ok (enter_state E current target)"
  unfolding enter_state_def leave_state_def deinitialize_wifi_block_def
  by (rule assms stays_state_bits task_stays)+

lemma stays_write_conf: "stays wifi_ok (write_in_wifi_conf m c name psw)"
  unfolding write_in_wifi_conf_def by (cases m) (auto intro!: task_stays)

lemma stays_finish: "stays wifi_ok (finish_connection E d)"
  unfolding finish_connection_def report_success_def receive_internal_def answer_query_def
  by (rule task_stays)+

lemma stays_start: "stays wifi_ok (start_with_answer E d)" "stays wifi_ok (set_attempts E d)"
  "stays wifi_ok (create_netif E m)"
  unfolding start_with_answer_def set_attempts_def create_netif_def
  by (rule stays_state_bits task_stays)+

lemma stays_find_ap: "stays wifi_ok (find_ap name rs)"
  by (induction rs) (auto intro!: task_stays)

lemma stays_scan: "stays wifi_ok (scan_networks E)"
  unfolding scan_networks_def
  by (rule stays_bind_reads task_stays
      | (rule stays_modify, simp add: wifi_ok_def min.coboundedI2; fail))+

lemmas branch_stays = stays_try_calls stays_enter [OF stays_state_bits(1)] stays_enter [OF stays_state_bits(2)]
  stays_enter [OF stays_state_bits(3)] stays_state_bits stays_write_conf stays_finish stays_start
  stays_find_ap stays_scan task_stays

lemma stays_request: "stays wifi_ok (wifi_request E bits current)"
  unfolding wifi_request_def connect_to_ap_def mode_ap_def deinit_wifi_def scan_and_connect_def
    current_connection_def answer_query_def report_success_def
  by (rule branch_stays)+

lemma stays_connection: "stays wifi_ok (wifi_connection E n)"
  by (induction n) (auto simp: wifi_pass_def intro!: stays_request task_stays)

end
