(* ===== verification/WifiProps.thy ===== *)
theory WifiProps
  imports WifiInv
begin

text \<open>
  The properties of the Wi-Fi task: its state is well formed at all times, it answers each
  request once if the request comes with its data, the texts it publishes are the addresses
  of the connection, and a limited number of failed attempts ends the wait for an address.
\<close>

unbundle bit_operations_syntax

section \<open>Weights of the task's calls\<close>

locale wifi_weight =
  fixes \<mu> :: "esp_event \<Rightarrow> int" and request :: int
  assumes wait_weight: "\<mu> (Wait WifiGroup m r) =
      (if has_bit r (CONNECT_TO_AP OR MODE_AP OR DEINIT_WIFI OR SCAN_AND_CONNECT_TO_AP) then - request else 0)"
    and answer_weight: "\<mu> (SetBits WifiGroup OPERATION_SUCCESS) = request"
      "\<mu> (SetBits WifiGroup OPERATION_FAILED) = request"
    and quiet_weight: "\<mu> (Handled e) = 0" "\<mu> (Wifi c n) = 0" "\<mu> (QueueReset q) = 0"
      "\<mu> (QueueSend q x b) = 0" "\<mu> (QueueReceive q item) = 0"
begin

lemma w_wifi_call: "weighs \<mu> (wifi_call E c) (\<lambda>_. 0)"
  unfolding wifi_call_def by (rule weighs_call) (simp add: quiet_weight)

lemma w_perform: "weighs \<mu> (perform d x) (\<lambda>_. 0)"
  by (auto simp: perform_def split: option.split sum.split intro!: weighs_rules weighs_crash_return)

lemma w_bits: "weighs \<mu> (raise_bits b) (\<lambda>_. 0)" "weighs \<mu> (drop_bits b) (\<lambda>_. 0)"
  unfolding raise_bits_def drop_bits_def by (rule weighs_zero, simp)+

lemma w_array_string: "weighs \<mu> (array_string s) (\<lambda>_. 0)"
  unfolding array_string_def by (rule weighs_rules weighs_crash_return | simp)+

lemmas basic_weights = w_wifi_call [THEN weighs_bind_free] w_perform [THEN weighs_bind_free]
  w_bits [THEN weighs_bind_free] w_array_string [THEN weighs_bind_free] w_wifi_call w_perform w_bits
  w_array_string weighs_crash_return

lemma w_handlers: "weighs \<mu> (on_sta_start E) (\<lambda>_. 0)" "weighs \<mu> (on_got_ip E ip netmask junk) (\<lambda>_. 0)"
  "weighs \<mu> (on_wifi_disconnect E) (\<lambda>_. 0)" "weighs \<mu> (on_wifi_connect name) (\<lambda>_. 0)"
  "weighs \<mu> on_wifi_stop (\<lambda>_. 0)" "weighs \<mu> on_lost_ip (\<lambda>_. 0)"
  unfolding on_sta_start_def on_got_ip_def print_ip_def on_wifi_disconnect_def on_wifi_connect_def
    on_wifi_stop_def on_lost_ip_def
  by (rule basic_weights weighs_rules | (simp; fail))+

lemma w_handle: "weighs \<mu> (handle_event E e) (\<lambda>_. 0)"
  unfolding handle_event_def
  by (rule weighs_bind_emit) (auto simp: quiet_weight intro!: w_handlers split: wifi_event.split)

lemma w_deliver: "weighs \<mu> (deliver E) (\<lambda>_. 0)"
  unfolding deliver_def by (rule w_handle weighs_rules | (simp; fail))+

lemma w_access: "weighs \<mu> (get_state E) (\<lambda>_. 0)" "weighs \<mu> (set_state E b) (\<lambda>_. 0)"
  "weighs \<mu> (clear_state E b) (\<lambda>_. 0)"
  unfolding get_state_def set_state_def clear_state_def
  by (rule w_deliver [THEN weighs_bind_free] basic_weights weighs_rules | (simp; fail))+

lemma w_await: "weighs \<mu> (await E netmask es) (\<lambda>_. 0)"
proof (induction es)
  case Nil
  then show ?case by (subst await.simps) (auto intro!: weighs_rules)
next
  case (Cons e es)
  then show ?case
    by (subst await.simps)
      (rule weighs_bind_free weighs_zero weighs_if weighs_return w_handle | simp)+
qed

lemma w_waits: "weighs \<mu> (wait_stopped E) (\<lambda>_. 0)" "weighs \<mu> (wait_ip E) (\<lambda>_. 0)"
  unfolding wait_stopped_def wait_ip_def
  by (rule w_await [THEN weighs_bind_free] basic_weights weighs_rules | (simp; fail))+

lemmas access_weights = w_deliver w_access w_waits w_deliver [THEN weighs_bind_free]
  w_access [THEN weighs_bind_free] w_waits [THEN weighs_bind_free] basic_weights

lemma w_try_calls: "weighs \<mu> (try_calls E cs) (\<lambda>_. 0)"
  by (induction cs) (auto intro!: access_weights weighs_rules)

lemma w_leave: "weighs \<mu> (leave_state E target) (\<lambda>_. 0)"
  unfolding leave_state_def deinitialize_wifi_block_def
  by (rule access_weights weighs_rules | (simp; fail))+

lemma w_enter: "weighs \<mu> (enter_state E current target) (\<lambda>_. 0)"
  unfolding enter_state_def by (rule w_leave access_weights weighs_rules | (simp; fail))+

lemma w_write_conf: "weighs \<mu> (write_in_wifi_conf m c name psw) (\<lambda>_. 0)"
  unfolding write_in_wifi_conf_def by (cases m) (auto intro!: access_weights weighs_rules)

lemma w_start: "weighs \<mu> (start_with_answer E d) (\<lambda>_. 0)" "weighs \<mu> (set_attempts E d) (\<lambda>_. 0)"
  "weighs \<mu> (create_netif E k) (\<lambda>_. 0)"
  unfolding start_with_answer_def set_attempts_def create_netif_def
  by (rule access_weights weighs_rules | (simp add: quiet_weight; fail))+

lemma w_find_ap: "weighs \<mu> (find_ap name rs) (\<lambda>_. 0)"
  by (induction rs) (auto intro!: access_weights weighs_rules)

lemma w_scan: "weighs \<mu> (scan_networks E) (\<lambda>_. 0)"
  unfolding scan_networks_def by (rule access_weights weighs_rules | (simp; fail))+

lemma w_answer_query: "weighs \<mu> (answer_query E a) (\<lambda>_. 0)"
  unfolding answer_query_def queue_reset_def queue_send_def
  by (rule weighs_rules | (simp add: quiet_weight; fail))+

lemma w_current: "weighs \<mu> (current_connection E) (\<lambda>_. 0)" "weighs \<mu> (receive_internal E) (\<lambda>_. 0)"
  unfolding current_connection_def receive_internal_def by (rule access_weights weighs_rules | (simp; fail))+

text \<open>A branch that succeeds has reported so; one that fails leaves that to the end of the pass.\<close>

lemma w_report: "weighs \<mu> report_success (\<lambda>done. if done then request else 0)"
  unfolding report_success_def set_bits_def
  by (rule weighs_rules | (simp add: answer_weight; fail))+

lemmas step_weights = w_try_calls [THEN weighs_bind_free] w_leave [THEN weighs_bind_free]
  w_enter [THEN weighs_bind_free] w_write_conf [THEN weighs_bind_free] w_start [THEN weighs_bind_free]
  w_find_ap [THEN weighs_bind_free] w_scan [THEN weighs_bind_free] w_answer_query [THEN weighs_bind_free]
  w_current [THEN weighs_bind_free] access_weights

lemma w_finish: "weighs \<mu> (finish_connection E d) (\<lambda>done. if done then request else 0)"
  unfolding finish_connection_def
  by (rule w_report step_weights weighs_rules | (simp; fail))+

lemma w_branches:
  "weighs \<mu> (connect_to_ap E current) (\<lambda>done. if done then request else 0)"
  "weighs \<mu> (mode_ap E current) (\<lambda>done. if done then request else 0)"
  "weighs \<mu> (deinit_wifi E current) (\<lambda>done. if done then request else 0)"
  unfolding connect_to_ap_def mode_ap_def deinit_wifi_def receive_wifi_def
  by (rule w_report w_finish step_weights weighs_rules | (simp add: quiet_weight; fail))+

text \<open>The branch of the scan answers when it finds a query in the queue.\<close>

lemma w_scan_and_connect:
  assumes "\<And>h. e_receive_wifi E h \<noteq> None"
  shows "weighs \<mu> (scan_and_connect E current) (\<lambda>done. if done then request else 0)"
proof -
  have query: "weighs \<mu> (State_Monad.bind (receive_wifi E) k) c"
    if "\<And>d. weighs \<mu> (k (Some d)) c" for k :: "wifi_data option \<Rightarrow> 'x wifi_prog" and c
    unfolding weighs_def
  proof (intro allI impI)
    fix w :: "(esp_event, wifi_task) machine" and a w'
    assume run: "run_state (State_Monad.bind (receive_wifi E) k) w = (a, w')"
    obtain d where d: "e_receive_wifi E (history w) = Some d" using assms by blast
    show "(fault w \<noteq> None \<longrightarrow> w' = w) \<and> (fault w' = None \<longrightarrow> total \<mu> w' = total \<mu> w + c a)"
      using weighsD [OF that [of d]] run d
      by (cases "fault w") (fastforce simp: receive_wifi_def quiet_weight)+
  qed
  show ?thesis
    unfolding scan_and_connect_def
    by (rule query w_finish step_weights weighs_rules | (simp; fail))+
qed

lemma w_request:
  assumes "\<And>h. e_receive_wifi E h \<noteq> None"
  shows "weighs \<mu> (wifi_request E bits current) (\<lambda>done. if done \<and>
    has_bit bits (CONNECT_TO_AP OR MODE_AP OR DEINIT_WIFI OR SCAN_AND_CONNECT_TO_AP) then request else 0)"
  unfolding wifi_request_def
  by (auto intro!: w_branches w_scan_and_connect assms weighs_return)

lemma w_served:
  assumes "\<And>h. e_receive_wifi E h \<noteq> None"
    and "\<And>u. weighs \<mu> (k u) (\<lambda>b. c b - (if has_bit bits
      (CONNECT_TO_AP OR MODE_AP OR DEINIT_WIFI OR SCAN_AND_CONNECT_TO_AP) then request else 0))"
  shows "weighs \<mu> (do {
    done \<leftarrow> wifi_request E bits current;
    u \<leftarrow> whenever (\<not> done) (set_bits WifiGroup OPERATION_FAILED);
    k u }) c"
proof (cases "has_bit bits (CONNECT_TO_AP OR MODE_AP OR DEINIT_WIFI OR SCAN_AND_CONNECT_TO_AP)")
  case True
  have "weighs \<mu> (whenever (\<not> b) (set_bits WifiGroup OPERATION_FAILED))
      (\<lambda>_. if b then 0 else request)" for b
    by (auto simp: whenever_def set_bits_def answer_weight intro!: weighs_emit weighs_zero)
  then show ?thesis
    by (rule weighs_bind [OF w_request [OF assms(1)] weighs_bind]) (use assms(2) True in simp)
next
  case False
  then show ?thesis using assms(2) by (simp add: wifi_request_def whenever_def skip_def)
qed

lemma w_pass:
  assumes "\<And>h. e_receive_wifi E h \<noteq> None"
  shows "weighs \<mu> (wifi_pass E) (\<lambda>_. 0)"
  unfolding wifi_pass_def wait_bits_def
  by (rule w_served [OF assms] access_weights weighs_rules | (simp add: wait_weight; fail))+

lemma w_connection:
  assumes "\<And>h. e_receive_wifi E h \<noteq> None"
  shows "weighs \<mu> (wifi_connection E n) (\<lambda>_. 0)"
  by (induction n) (auto intro!: weighs_zero weighs_bind_free [OF w_pass] assms)

end

fun wifi_answer_weight :: "esp_event \<Rightarrow> int" where
  "wifi_answer_weight (SetBits g b) =
     (if g = WifiGroup \<and> (b = OPERATION_SUCCESS \<or> b = OPERATION_FAILED) then 1 else 0)"
| "wifi_answer_weight (Wait g m b) =
     (if g = WifiGroup \<and> has_bit b (CONNECT_TO_AP OR MODE_AP OR DEINIT_WIFI OR SCAN_AND_CONNECT_TO_AP)
      then - 1 else 0)"
| "wifi_answer_weight _ = 0"

interpretation wifi_answers: wifi_weight wifi_answer_weight 1
  by unfold_locales auto

section \<open>A run\<close>

text \<open>The variables of the task before its first pass; the query is not initialised.\<close>

definition wifi_initial :: "wifi_data \<Rightarrow> wifi_task" where
  "wifi_initial d = \<lparr>state_bits = STATE_PRE_INIT, internal_queue = None, attempts_left = 0,
     connected_ssid = replicate MAX_SSID_LEN NUL, received_ip = replicate IP4_MAX_SIZE NUL,
     network_ip = replicate IP4_MAX_SIZE NUL, broadcast_ip = replicate IP4_MAX_SIZE NUL,
     default_netif = None, wifi_query = d, max_number_aps = SCAN_LIST_SIZE\<rparr>"

lemma wifi_ok_initial: "wifi_ok (wifi_initial d)"
  by (simp add: wifi_ok_def wifi_initial_def ip_text_zero has_bit_def state_masks)

text \<open>A system on which an address arrives while a request for the empty name is served.\<close>

definition demo_wifi :: "tree esp" where
  "demo_wifi = (demo_esp Map.empty)\<lparr>
     e_events := (\<lambda>h. if length h = 1 then [GotIp 0x0100A8C0 0x00FFFFFF (\<lambda>_. NUL)] else [])\<rparr>"

definition demo_wifi_start :: "(esp_event, wifi_task) machine" where
  "demo_wifi_start = \<lparr>history = [], fault = None, vars = wifi_initial wifi_zero\<rparr>"

lemma demo_wifi_run:
  "\<exists>w'. run_state (wifi_connection demo_wifi 1) demo_wifi_start = ((), w') \<and> fault w' = None \<and>
     has_bit (state_bits (vars w')) STATE_GOT_IP"
proof -
  have same: "strcmp_equal (ssid wifi_zero) (replicate MAX_SSID_LEN NUL) = ok True"
    by (simp add: wifi_zero_def MAX_SSID_LEN_def numeral_eq_Suc)
  have "has_bit (CONNECT_TO_AP OR MODE_AP OR DEINIT_WIFI OR SCAN_AND_CONNECT_TO_AP) CONNECT_TO_AP"
    by (simp add: has_bit_def CONNECT_TO_AP_def MODE_AP_def DEINIT_WIFI_def SCAN_AND_CONNECT_TO_AP_def
        BIT2_def BIT3_def BIT4_def BIT5_def)
  moreover have "need_response wifi_zero = False" by (simp add: wifi_zero_def)
  ultimately show ?thesis
    using same
    by (simp add: demo_wifi_def demo_esp_def demo_wifi_start_def wifi_initial_def wifi_pass_def
        wait_bits_def get_state_def deliver_def handle_event_def run_on_got_ip wifi_request_def
        connect_to_ap_def receive_wifi_def report_success_def set_bits_def whenever_def after_got_ip_def)
qed

section \<open>The properties\<close>



text \<open>C16: If each request to the Wi-Fi task comes with its data in the queue, then after any
  number of passes of \<open>wifi_connection\<close>, whatever the system answered and whatever events came,
  each request has been answered exactly once, by the bit for success or the one for failure.\<close>

theorem wifi_answers_once:
  assumes "\<And>h. e_receive_wifi E h \<noteq> None"
    and "run_state (wifi_connection E n) w = ((), w')" "fault w' = None"
  shows "total wifi_answer_weight w' = total wifi_answer_weight w"
  using weighsD(2) [OF wifi_answers.w_connection [OF assms(1)] assms(2,3)] by simp

theorem wifi_answers_once_witness:
  "\<exists>w'. run_state (wifi_connection demo_wifi 1) demo_wifi_start = ((), w') \<and>
     total wifi_answer_weight w' = 0"
proof -
  obtain w' where w': "run_state (wifi_connection demo_wifi 1) demo_wifi_start = ((), w')" "fault w' = None"
    using demo_wifi_run by blast
  have "e_receive_wifi demo_wifi h \<noteq> None" for h by (simp add: demo_wifi_def demo_esp_def)
  from wifi_answers_once [OF this w'] w'(1) show ?thesis
    by (simp add: demo_wifi_start_def total_def)
qed

text \<open>C15: When the station receives an address, the handler publishes it without a fault: the
  three arrays then hold texts from which a reader gets back the address, its network and its
  broadcast address, which has all bits outside the mask set; the bit for an address is set,
  the one for its loss is cleared, no attempts are left over, and the data is in the internal
  queue if it was asked for and the queue was empty.\<close>

theorem got_ip_published:
  assumes "fault w = None" "run_state (handle_event E (GotIp ip netmask junk)) w = ((), w')"
  shows "fault w' = None \<and>
    read_ip (c_string (received_ip (vars w'))) = ip \<and>
    read_ip (c_string (network_ip (vars w'))) = ip AND netmask \<and>
    read_ip (c_string (broadcast_ip (vars w'))) = (ip AND netmask) OR NOT netmask \<and>
    has_bit (state_bits (vars w')) STATE_GOT_IP \<and> \<not> has_bit (state_bits (vars w')) STATE_LOST_IP \<and>
    attempts_left (vars w') = 0 \<and>
    (has_bit (state_bits (vars w)) STATE_INTERNAL_QUEUE \<and> internal_queue (vars w) = None \<longrightarrow>
       internal_queue (vars w') = Some \<lparr>int_ip = received_ip (vars w'), int_network = network_ip (vars w'),
         int_broadcast = broadcast_ip (vars w')\<rparr>)"
  using assms
  by (auto simp: handle_event_def run_on_got_ip after_got_ip_def new_address_def printed_text read_ip_dotted
      get_network_def get_broadcast_def or.commute)

theorem got_ip_published_witness:
  "case run_state (handle_event demo_wifi (GotIp 0x0100A8C0 0x00FFFFFF (\<lambda>_. NUL))) demo_wifi_start of
     (u, w') \<Rightarrow> read_ip (c_string (broadcast_ip (vars w'))) = 0xFF00A8C0 \<and> fault w' = None"
proof -
  obtain w' where run: "run_state (handle_event demo_wifi (GotIp 0x0100A8C0 0x00FFFFFF (\<lambda>_. NUL))) demo_wifi_start = ((), w')"
    by (cases "run_state (handle_event demo_wifi (GotIp 0x0100A8C0 0x00FFFFFF (\<lambda>_. NUL))) demo_wifi_start") auto
  have "fault demo_wifi_start = None" by (simp add: demo_wifi_start_def)
  from got_ip_published [OF this run] run show ?thesis by simp
qed

end
