(* ===== verification/WifiAttempts.thy ===== *)
theory WifiAttempts
  imports WifiProps
begin

text \<open>
  The wait for an address in \<open>wifi_connection\<close>: while attempts are left each loss of the
  connection starts a new attempt, and the loss after the last one ends the wait.
\<close>

unbundle bit_operations_syntax

fun connect_weight :: "esp_event \<Rightarrow> int" where
  "connect_weight (Wifi c n) = (if c = WifiConnect then 1 else 0)"
| "connect_weight _ = 0"

text \<open>The station is connecting, with \<open>n\<close> attempts left after the present one.\<close>

definition connecting :: "nat \<Rightarrow> bits \<Rightarrow> (esp_event, wifi_task) machine \<Rightarrow> bool" where
  "connecting n s w \<longleftrightarrow> fault w = None \<and> state_bits (vars w) = s \<and> unat (attempts_left (vars w)) = n \<and>
     has_bit s STATE_SEVERAL_TRIES \<and> \<not> has_bit s STATE_GOT_IP \<and> \<not> has_bit s STATE_LOST_IP"

lemma disconnect_retries:
  assumes "connecting (Suc n) s w"
  obtains w' where "run_state (handle_event E Disconnected) w = ((), w')" "connecting n s w'"
    "total connect_weight w' = total connect_weight w + 1"
proof
  let ?w = "w\<lparr>history := Wifi WifiConnect (e_wifi E (Handled Disconnected # history w) WifiConnect) #
      Handled Disconnected # history w,
    vars := (vars w)\<lparr>connected_ssid := replicate MAX_SSID_LEN NUL,
      attempts_left := attempts_left (vars w) - 1\<rparr>\<rparr>"
  have "attempts_left (vars w) \<noteq> 0" using assms by (auto simp: connecting_def)
  then show "run_state (handle_event E Disconnected) w = ((), ?w)"
    using assms
    by (simp add: handle_event_def on_wifi_disconnect_def connecting_def wifi_call_def)
  show "connecting n s ?w"
    using assms by (simp add: connecting_def unat_minus_one [OF \<open>attempts_left (vars w) \<noteq> 0\<close>])
  show "total connect_weight ?w = total connect_weight w + 1"
    by (simp add: total_def)
qed

lemma disconnect_gives_up:
  assumes "connecting 0 s w"
  obtains w' where "run_state (handle_event E Disconnected) w = ((), w')" "fault w' = None"
    "has_bit (state_bits (vars w')) STATE_LOST_IP" "\<not> has_bit (state_bits (vars w')) STATE_GOT_IP"
    "total connect_weight w' = total connect_weight w + (if has_bit s STATE_CEASELESS_C then 1 else 0)"
proof -
  have "attempts_left (vars w) = 0" using assms by (auto simp: connecting_def unat_eq_0)
  with assms show ?thesis
    by (intro that [of "snd (run_state (handle_event E Disconnected) w)"])
      (auto simp: handle_event_def on_wifi_disconnect_def connecting_def wifi_call_def drop_bits_def
        raise_bits_def whenever_def total_def)
qed

lemma await_retries:
  assumes "connecting (k + n) s w"
  shows "\<exists>w'. run_state (await E (STATE_GOT_IP OR STATE_LOST_IP) (replicate k Disconnected @ es)) w =
      run_state (await E (STATE_GOT_IP OR STATE_LOST_IP) es) w' \<and>
    connecting n s w' \<and> total connect_weight w' = total connect_weight w + int k"
  using assms
proof (induction k arbitrary: w)
  case 0
  then show ?case by auto
next
  case (Suc k)
  then obtain w1 where w1: "run_state (handle_event E Disconnected) w = ((), w1)" "connecting (k + n) s w1"
    "total connect_weight w1 = total connect_weight w + 1"
    using disconnect_retries [of "k + n" s w E] by auto
  from Suc.IH [OF w1(2)] Suc.prems w1(1,3) show ?case
    by (auto simp: await.simps [of E _ "Disconnected # _"] connecting_def)
qed

section \<open>The end of the wait\<close>

text \<open>C12: A connection attempt with \<open>n\<close> further attempts allowed. If at most \<open>n\<close> losses of the
  connection come before an address, the wait ends with the bit for the address, after as many
  reconnections as there were losses. The \<open>n + 1\<close>st loss ends it with the bit for the loss, after
  exactly \<open>n\<close> reconnections, and one more in the background when the connection is to be kept
  up without end. Neither bit comes with the other.\<close>

theorem attempts_limited:
  assumes "connecting n s w"
    and "e_events E (history w) = replicate k Disconnected @ e # es"
    and "k \<le> n" "e = GotIp ip netmask junk \<or> e = Disconnected \<and> k = n"
  shows "\<exists>r w'. run_state (wait_ip E) w = (r, w') \<and> fault w' = None \<and>
    (has_bit r STATE_GOT_IP \<longleftrightarrow> e \<noteq> Disconnected) \<and> (has_bit r STATE_LOST_IP \<longleftrightarrow> e = Disconnected) \<and>
    total connect_weight w' = total connect_weight w + int k +
      (if e = Disconnected \<and> has_bit s STATE_CEASELESS_C then 1 else 0)"
proof -
  let ?m = "STATE_GOT_IP OR STATE_LOST_IP"
  obtain w1 where w1: "run_state (await E ?m (replicate k Disconnected @ e # es)) w = run_state (await E ?m (e # es)) w1"
    "connecting (n - k) s w1" "total connect_weight w1 = total connect_weight w + int k"
    using await_retries [of k "n - k" s w E "e # es"] assms(1,3) by auto
  obtain w2 where w2: "run_state (handle_event E e) w1 = ((), w2)" "fault w2 = None"
    "has_bit (state_bits (vars w2)) STATE_GOT_IP \<longleftrightarrow> e \<noteq> Disconnected"
    "has_bit (state_bits (vars w2)) STATE_LOST_IP \<longleftrightarrow> e = Disconnected"
    "total connect_weight w2 = total connect_weight w1 +
      (if e = Disconnected \<and> has_bit s STATE_CEASELESS_C then 1 else 0)"
    using assms(4)
  proof
    assume "e = Disconnected \<and> k = n"
    with disconnect_gives_up [of s w1 E] w1(2) that show ?thesis by auto
  next
    assume "e = GotIp ip netmask junk"
    with w1(2) that [of "snd (run_state (handle_event E e) w1)"] show ?thesis
      by (auto simp: handle_event_def run_on_got_ip after_got_ip_def connecting_def total_def)
  qed
  have "run_state (await E ?m (e # es)) w1 = (Some (state_bits (vars w2)), w2)"
    using w1(2) w2 by (cases "e = Disconnected") (auto simp: await.simps [of E ?m] connecting_def)
  then have "run_state (wait_ip E) w = (state_bits (vars w2), w2)"
    using assms(2) w1(1) by (simp add: wait_ip_def)
  then show ?thesis using w1(3) w2 by auto
qed

definition demo_losses :: "tree esp" where
  "demo_losses = (demo_esp Map.empty)\<lparr>e_events := (\<lambda>h. replicate 3 Disconnected)\<rparr>"

definition demo_connecting :: "(esp_event, wifi_task) machine" where
  "demo_connecting = \<lparr>history = [], fault = None, vars = (wifi_initial wifi_zero)\<lparr>
     state_bits := STATE_SEVERAL_TRIES OR STATE_CEASELESS_C, attempts_left := 2\<rparr>\<rparr>"

theorem attempts_limited_witness:
  "\<exists>r w'. run_state (wait_ip demo_losses) demo_connecting = (r, w') \<and> has_bit r STATE_LOST_IP \<and>
     total connect_weight w' = 3"
proof -
  let ?s = "STATE_SEVERAL_TRIES OR STATE_CEASELESS_C"
  have "connecting 2 ?s demo_connecting"
    by (simp add: connecting_def demo_connecting_def) (simp add: has_bit_def state_masks)
  moreover have "e_events demo_losses (history demo_connecting) = replicate 2 Disconnected @ [Disconnected]"
    by (simp add: demo_losses_def numeral_eq_Suc)
  moreover have "has_bit ?s STATE_CEASELESS_C" by (simp add: has_bit_def state_masks)
  ultimately show ?thesis
    using attempts_limited [of 2 ?s demo_connecting demo_losses 2 Disconnected "[]"]
    by (auto simp: demo_connecting_def total_def)
qed

section \<open>A scan without a query\<close>

lemma run_scan_without_query:
  assumes "\<And>h. e_receive_wifi E h = None"
  shows "run_state (scan_and_connect E current) w = (True, snd (run_state (receive_wifi E) w))"
  using assms by (simp add: scan_and_connect_def receive_wifi_def)

lemma weighs_scan_without_query:
  assumes "\<And>h. e_receive_wifi E h = None" "\<And>h m. e_wait E h WifiGroup m = SCAN_AND_CONNECT_TO_AP"
  shows "weighs wifi_answer_weight (wifi_pass E) (\<lambda>_. - 1)"
proof -
  let ?m = "CONNECT_TO_AP OR MODE_AP OR DEINIT_WIFI OR SCAN_AND_CONNECT_TO_AP"
  have bits: "\<not> has_bit SCAN_AND_CONNECT_TO_AP CONNECT_TO_AP" "\<not> has_bit SCAN_AND_CONNECT_TO_AP MODE_AP"
    "\<not> has_bit SCAN_AND_CONNECT_TO_AP DEINIT_WIFI" "has_bit SCAN_AND_CONNECT_TO_AP SCAN_AND_CONNECT_TO_AP"
    by (simp_all add: has_bit_def CONNECT_TO_AP_def MODE_AP_def DEINIT_WIFI_def SCAN_AND_CONNECT_TO_AP_def
        BIT2_def BIT3_def BIT4_def BIT5_def)
  have wait: "weighs wifi_answer_weight (wait_bits E WifiGroup ?m) (\<lambda>_. - 1)"
    by (auto simp: weighs_def wait_bits_def assms(2) bits)
  have pass: "wifi_pass E = do {
      wait_bits E WifiGroup ?m;
      get_state E;
      receive_wifi E;
      deliver E;
      modify (\<lambda>v. v\<lparr>internal_queue := None\<rparr>);
      modify (\<lambda>v. v\<lparr>wifi_query := wifi_zero\<rparr>) }"
    by (rule State_Monad.state.expand)
      (auto simp: wifi_pass_def wait_bits_def assms(2) bits wifi_request_def run_scan_without_query [OF assms(1)]
        whenever_def fun_eq_iff split: prod.split)
  have receive: "weighs wifi_answer_weight (receive_wifi E) (\<lambda>_. 0)"
    unfolding receive_wifi_def by (rule weighs_call) simp
  show ?thesis
    unfolding pass
    by (rule weighs_bind [OF wait] wifi_answers.w_access [THEN weighs_bind_free]
        receive [THEN weighs_bind_free] wifi_answers.w_deliver [THEN weighs_bind_free] weighs_rules | simp)+
qed

text \<open>A request to scan and connect that comes without its data is not answered at all: the
  branch has no \<open>else\<close>, as the other two have. After \<open>n\<close> such requests there are \<open>n\<close> more
  requests than answers, whatever events came; a task that waits for its answer, as the client
  of the air conditioners does, waits for ever.\<close>

theorem scan_without_query_unanswered:
  assumes "\<And>h. e_receive_wifi E h = None" "\<And>h m. e_wait E h WifiGroup m = SCAN_AND_CONNECT_TO_AP"
    and "run_state (wifi_connection E n) w = ((), w')" "fault w' = None"
  shows "total wifi_answer_weight w' = total wifi_answer_weight w - int n"
proof -
  have "weighs wifi_answer_weight (wifi_connection E n) (\<lambda>_. - int n)"
    by (induction n)
      (auto intro!: weighs_zero weighs_bind [OF weighs_scan_without_query [OF assms(1,2)]] elim: weighs_cong)
  from weighsD(2) [OF this assms(3,4)] show ?thesis by simp
qed

definition demo_silent :: "tree esp" where
  "demo_silent = (demo_esp Map.empty)\<lparr>e_receive_wifi := (\<lambda>h. None),
     e_wait := (\<lambda>h g m. SCAN_AND_CONNECT_TO_AP)\<rparr>"

theorem scan_without_query_unanswered_witness:
  "\<exists>w'. run_state (wifi_connection demo_silent 1) demo_wifi_start = ((), w') \<and>
     total wifi_answer_weight w' = - 1"
proof -
  have silent: "e_receive_wifi demo_silent h = None" "e_wait demo_silent h g m = SCAN_AND_CONNECT_TO_AP"
    "e_events demo_silent h = []" for h g m
    by (simp_all add: demo_silent_def demo_esp_def)
  obtain w' where run: "run_state (wifi_connection demo_silent 1) demo_wifi_start = ((), w')"
    by (cases "run_state (wifi_connection demo_silent 1) demo_wifi_start") auto
  moreover have "fault (snd (run_state (wifi_connection demo_silent 1) demo_wifi_start)) = None"
    by (simp add: wifi_pass_def wait_bits_def get_state_def deliver_def silent wifi_request_def
        run_scan_without_query [OF silent(1)] receive_wifi_def whenever_def demo_wifi_start_def
        has_bit_def CONNECT_TO_AP_def MODE_AP_def DEINIT_WIFI_def SCAN_AND_CONNECT_TO_AP_def
        BIT2_def BIT3_def BIT4_def BIT5_def)
  ultimately have "fault w' = None" by simp
  from scan_without_query_unanswered [OF silent(1,2) run this] run show ?thesis
    by (simp add: demo_wifi_start_def total_def)
qed

end
