(* ===== verification/Pipes.thy ===== *)
theory Pipes
  imports Machine
begin

text \<open>
  The set-up of the firmware: the pipes that \<open>ac_cli_init\<close>, \<open>udp_cli_init\<close> and \<open>wifi_init\<close>
  create (\<open>ac_gree.c\<close>, \<open>udp_client.c\<close>, \<open>wifi.c\<close>), \<open>init_nvs\<close> of \<open>custom_setup.c\<close>, and the start
  of \<open>app_main\<close> in \<open>main.c\<close>. A kernel object has a handle, a number that is not used again; a
  null handle is \<open>None\<close>. The members of a new pipe hold whatever \<open>malloc\<close> found in memory, and
  deleting a handle that belongs to no live object of its kind is a fault, as is deleting or
  using a null handle.
\<close>

section \<open>The kernel\<close>

datatype kernel_object = EventGroup | Queue nat | MessageBuffer nat | Mutex

type_synonym handle = "nat option"

record pipe_interconnection =
  pipeEventGroup :: handle
  pipeQueueHandle :: handle
  pipeMessageBuffer :: handle
  pipeMutex :: handle

datatype setup_call = NvsInit | NvsErase | NetifStart | LoopCreate | Register string string

datatype setup_event =
    Create kernel_object bool
  | Delete nat
  | NewPipe bool
  | FreePipe nat
  | Call setup_call int
  | RaiseState nat
  | CreateTask string

record rtos =
  k_create :: "setup_event list \<Rightarrow> kernel_object \<Rightarrow> bool"
  k_malloc :: "setup_event list \<Rightarrow> pipe_interconnection option"
  k_call :: "setup_event list \<Rightarrow> setup_call \<Rightarrow> int"

record setup_state =
  state_group :: handle
  internal_queue_handle :: handle
  objects :: "nat \<rightharpoonup> kernel_object"
  next_handle :: nat
  pipes :: "nat \<rightharpoonup> pipe_interconnection"
  next_pipe :: nat

type_synonym 'a setup_prog = "(setup_event, setup_state, 'a) prog"

definition create_object :: "rtos \<Rightarrow> kernel_object \<Rightarrow> handle setup_prog" where
  "create_object K x = do {
     b \<leftarrow> call (\<lambda>h. k_create K h x) (Create x);
     if \<not> b then ret None
     else do {
       n \<leftarrow> reads next_handle;
       modify (\<lambda>s. s\<lparr>objects := (objects s)(n \<mapsto> x), next_handle := Suc n\<rparr>);
       ret (Some n) } }"

text \<open>Deleting an object that must satisfy \<open>kind\<close>.\<close>

definition delete_object :: "(kernel_object \<Rightarrow> bool) \<Rightarrow> handle \<Rightarrow> unit setup_prog" where
  "delete_object kind x =
     (case x of
        None \<Rightarrow> crash NullDeref
      | Some n \<Rightarrow> do {
          m \<leftarrow> reads objects;
          case m n of
            None \<Rightarrow> crash DanglingPointer
          | Some k \<Rightarrow>
              if \<not> kind k then crash TypeConfusion
              else do { emit (Delete n); modify (\<lambda>s. s\<lparr>objects := (objects s)(n := None)\<rparr>) } })"

definition is_queue :: "kernel_object \<Rightarrow> bool" where
  "is_queue x \<longleftrightarrow> (case x of Queue n \<Rightarrow> True | _ \<Rightarrow> False)"

definition malloc_pipe :: "rtos \<Rightarrow> nat option setup_prog" where
  "malloc_pipe K = do {
     r \<leftarrow> call (k_malloc K) (\<lambda>r. NewPipe (r \<noteq> None));
     case r of
       None \<Rightarrow> ret None
     | Some junk \<Rightarrow> do {
         a \<leftarrow> reads next_pipe;
         modify (\<lambda>s. s\<lparr>pipes := (pipes s)(a \<mapsto> junk), next_pipe := Suc a\<rparr>);
         ret (Some a) } }"

definition load_pipe :: "nat option \<Rightarrow> pipe_interconnection setup_prog" where
  "load_pipe p =
     (case p of
        None \<Rightarrow> do { crash NullDeref; ret \<lparr>pipeEventGroup = None, pipeQueueHandle = None,
          pipeMessageBuffer = None, pipeMutex = None\<rparr> }
      | Some a \<Rightarrow> do {
          m \<leftarrow> reads pipes;
          case m a of
            None \<Rightarrow> do { crash DanglingPointer; ret \<lparr>pipeEventGroup = None, pipeQueueHandle = None,
              pipeMessageBuffer = None, pipeMutex = None\<rparr> }
          | Some r \<Rightarrow> ret r })"

definition put_pipe :: "nat option \<Rightarrow> (pipe_interconnection \<Rightarrow> pipe_interconnection) \<Rightarrow> unit setup_prog" where
  "put_pipe p f = do {
     r \<leftarrow> load_pipe p;
     modify (\<lambda>s. s\<lparr>pipes := (pipes s)(the p \<mapsto> f r)\<rparr>) }"

definition kernel_call :: "rtos \<Rightarrow> setup_call \<Rightarrow> int setup_prog" where
  "kernel_call K c = call (\<lambda>h. k_call K h c) (Call c)"

section \<open>The pipes of the two clients\<close>

text \<open>The number is the size of what the queue or the buffer holds.\<close>

definition AC_DATA_SIZE :: nat where "AC_DATA_SIZE = 96"
definition UDP_DATA_SIZE :: nat where "UDP_DATA_SIZE = 24"
definition WIFI_DATA_SIZE :: nat where "WIFI_DATA_SIZE = 100"
definition INTERNAL_WIFI_DATA_SIZE :: nat where "INTERNAL_WIFI_DATA_SIZE = 48"
definition SIZE_MESSAGE_BUFFER_AC :: nat where "SIZE_MESSAGE_BUFFER_AC = 256"

definition client_init :: "rtos \<Rightarrow> nat \<Rightarrow> nat \<Rightarrow> nat option setup_prog" where
  "client_init K item buffer = do {
     p \<leftarrow> malloc_pipe K;
     g \<leftarrow> create_object K EventGroup;
     put_pipe p (\<lambda>r. r\<lparr>pipeEventGroup := g\<rparr>);
     q \<leftarrow> create_object K (Queue item);
     put_pipe p (\<lambda>r. r\<lparr>pipeQueueHandle := q\<rparr>);
     b \<leftarrow> create_object K (MessageBuffer buffer);
     put_pipe p (\<lambda>r. r\<lparr>pipeMessageBuffer := b\<rparr>);
     m \<leftarrow> create_object K Mutex;
     put_pipe p (\<lambda>r. r\<lparr>pipeMutex := m\<rparr>);
     ret p }"

definition ac_cli_init :: "rtos \<Rightarrow> nat option setup_prog" where
  "ac_cli_init K = client_init K AC_DATA_SIZE SIZE_MESSAGE_BUFFER_AC"

definition udp_cli_init :: "rtos \<Rightarrow> nat option setup_prog" where
  "udp_cli_init K = client_init K UDP_DATA_SIZE 1024"

section \<open>The pipe of the Wi-Fi task\<close>

text \<open>\<open>end\<close>: the bit \<open>STATE_PRE_INIT\<close> (0x100) is raised in the group of the state.\<close>

definition finish_wifi_init :: "nat option \<Rightarrow> nat option setup_prog" where
  "finish_wifi_init p = do {
     g \<leftarrow> reads state_group;
     (if g = None then crash NullDeref else emit (RaiseState 0x100));
     ret p }"

definition abandon_pipe :: "nat option \<Rightarrow> nat option setup_prog" where
  "abandon_pipe p = do {
     r \<leftarrow> load_pipe p;
     delete_object (\<lambda>x. x = Mutex) (pipeMutex r);
     r \<leftarrow> load_pipe p;
     delete_object is_queue (pipeQueueHandle r);
     r \<leftarrow> load_pipe p;
     delete_object (\<lambda>x. x = EventGroup) (pipeEventGroup r);
     emit (FreePipe (the p));
     modify (\<lambda>s. s\<lparr>pipes := (pipes s)(the p := None)\<rparr>);
     finish_wifi_init p }"

text \<open>A static handle that is created at the first call; \<open>False\<close> when it cannot be.\<close>

definition ensure_state_group :: "rtos \<Rightarrow> bool setup_prog" where
  "ensure_state_group K = do {
     g \<leftarrow> reads state_group;
     if g \<noteq> None then ret True
     else do {
       h \<leftarrow> create_object K EventGroup;
       modify (\<lambda>s. s\<lparr>state_group := h\<rparr>);
       ret (h \<noteq> None) } }"

definition ensure_internal_queue :: "rtos \<Rightarrow> bool setup_prog" where
  "ensure_internal_queue K = do {
     q \<leftarrow> reads internal_queue_handle;
     if q \<noteq> None then ret True
     else do {
       h \<leftarrow> create_object K (Queue INTERNAL_WIFI_DATA_SIZE);
       modify (\<lambda>s. s\<lparr>internal_queue_handle := h\<rparr>);
       ret (h \<noteq> None) } }"

fun kernel_calls :: "rtos \<Rightarrow> setup_call list \<Rightarrow> bool setup_prog" where
  "kernel_calls K [] = ret True"
| "kernel_calls K (c # cs) = do { r \<leftarrow> kernel_call K c; if r \<noteq> 0 then ret False else kernel_calls K cs }"

definition wifi_handlers :: "setup_call list" where
  "wifi_handlers =
     [Register ''IP_EVENT_STA_LOST_IP'' ''on_lost_ip'', Register ''IP_EVENT_STA_GOT_IP'' ''on_got_ip'',
      Register ''WIFI_EVENT_AP_STOP'' ''on_wifi_stop'', Register ''WIFI_EVENT_STA_CONNECTED'' ''on_wifi_connect'',
      Register ''WIFI_EVENT_STA_STOP'' ''on_wifi_stop'', Register ''WIFI_EVENT_STA_START'' ''on_sta_start'',
      Register ''WIFI_EVENT_STA_DISCONNECTED'' ''on_wifi_disconnect'']"

definition register_handlers :: "rtos \<Rightarrow> nat option \<Rightarrow> nat option setup_prog" where
  "register_handlers K p = do {
     registered \<leftarrow> kernel_calls K wifi_handlers;
     if registered then finish_wifi_init p else abandon_pipe p }"

definition new_wifi_pipe :: "rtos \<Rightarrow> nat option setup_prog" where
  "new_wifi_pipe K = do {
     p \<leftarrow> malloc_pipe K;
     if p = None then finish_wifi_init None
     else do {
     g \<leftarrow> create_object K EventGroup;
     put_pipe p (\<lambda>r. r\<lparr>pipeEventGroup := g\<rparr>);
     if g = None then abandon_pipe p
     else do {
     q \<leftarrow> create_object K (Queue WIFI_DATA_SIZE);
     put_pipe p (\<lambda>r. r\<lparr>pipeQueueHandle := q\<rparr>);
     if q = None then abandon_pipe p
     else do {
     put_pipe p (\<lambda>r. r\<lparr>pipeMessageBuffer := None\<rparr>);
     m \<leftarrow> create_object K Mutex;
     put_pipe p (\<lambda>r. r\<lparr>pipeMutex := m\<rparr>);
     if m = None then abandon_pipe p else register_handlers K p } } } }"

definition wifi_init :: "rtos \<Rightarrow> nat option setup_prog" where
  "wifi_init K = do {
     have_group \<leftarrow> ensure_state_group K;
     if \<not> have_group then finish_wifi_init None
     else do {
       have_queue \<leftarrow> ensure_internal_queue K;
       if \<not> have_queue then finish_wifi_init None
       else do {
         started \<leftarrow> kernel_calls K [NetifStart, LoopCreate];
         if started then new_wifi_pipe K else finish_wifi_init None } } }"

section \<open>The start of the program\<close>

definition NO_FREE_PAGES :: int where "NO_FREE_PAGES = 0x110d"
definition NEW_VERSION_FOUND :: int where "NEW_VERSION_FOUND = 0x1110"

definition init_nvs :: "rtos \<Rightarrow> bool setup_prog" where
  "init_nvs K = do {
     r \<leftarrow> kernel_call K NvsInit;
     if r = NO_FREE_PAGES \<or> r = NEW_VERSION_FOUND then do {
       r \<leftarrow> kernel_call K NvsErase;
       if r \<noteq> 0 then ret False
       else do { r \<leftarrow> kernel_call K NvsInit; ret (r = 0) } }
     else ret True }"

text \<open>
  The start of \<open>app_main\<close>, up to its first use of a pipe of its own: the result of \<open>init_nvs\<close> is
  not looked at, the three pipes are created, the three tasks started with them, and the
  members of the Wi-Fi pipe are read.
\<close>

definition start_program :: "rtos \<Rightarrow> (nat option \<times> nat option \<times> nat option) setup_prog" where
  "start_program K = do {
     init_nvs K;
     a \<leftarrow> ac_cli_init K;
     w \<leftarrow> wifi_init K;
     u \<leftarrow> udp_cli_init K;
     emit (CreateTask ''wifi connection'');
     emit (CreateTask ''UDP client'');
     emit (CreateTask ''AC client'');
     load_pipe w;
     ret (a, w, u) }"

end
