(* ===== verification/PipesProps.thy ===== *)
theory PipesProps
  imports Pipes
begin

text \<open>
  What the set-up hands to the program: a pipe whose objects are alive when every call of the
  system succeeds, and a pointer to freed memory when a handler cannot be registered.
\<close>

section \<open>Well-formed set-ups\<close>

definition lives :: "setup_state \<Rightarrow> kernel_object \<Rightarrow> handle \<Rightarrow> bool" where
  "lives s x h \<longleftrightarrow> (case h of None \<Rightarrow> False | Some n \<Rightarrow> objects s n = Some x)"

definition setup_ok :: "setup_state \<Rightarrow> bool" where
  "setup_ok s \<longleftrightarrow>
     (\<forall>n \<ge> next_handle s. objects s n = None) \<and> (\<forall>a \<ge> next_pipe s. pipes s a = None) \<and>
     (state_group s \<noteq> None \<longrightarrow> lives s EventGroup (state_group s)) \<and>
     (internal_queue_handle s \<noteq> None \<longrightarrow> lives s (Queue INTERNAL_WIFI_DATA_SIZE) (internal_queue_handle s))"

definition pipe_ready :: "setup_state \<Rightarrow> nat \<Rightarrow> bool" where
  "pipe_ready s a \<longleftrightarrow> (\<exists>r. pipes s a = Some r \<and> lives s EventGroup (pipeEventGroup r) \<and>
     lives s (Queue WIFI_DATA_SIZE) (pipeQueueHandle r) \<and> pipeMessageBuffer r = None \<and>
     lives s Mutex (pipeMutex r))"

lemma run_create_object:
  assumes "\<And>h x. k_create K h x" "fault w = None"
  shows "run_state (create_object K x) w =
    (Some (next_handle (vars w)), w\<lparr>history := Create x True # history w,
       vars := (vars w)\<lparr>objects := (objects (vars w))(next_handle (vars w) \<mapsto> x),
         next_handle := Suc (next_handle (vars w))\<rparr>\<rparr>)"
  using assms by (simp add: create_object_def)

lemma run_kernel_calls:
  assumes "fault w = None"
  obtains b h' where "run_state (kernel_calls K cs) w = (b, w\<lparr>history := h'\<rparr>)"
    "(\<And>h c. c \<in> set cs \<Longrightarrow> k_call K h c = 0) \<Longrightarrow> b"
    "\<And>c. c \<in> set cs \<Longrightarrow> (\<And>h. k_call K h c \<noteq> 0) \<Longrightarrow> \<not> b"
  using assms
proof (induction cs arbitrary: w thesis)
  case Nil
  from Nil(1) [of True "history w"] show ?case by simp
next
  case (Cons c cs)
  let ?r = "k_call K (history w) c" and ?w = "w\<lparr>history := Call c (k_call K (history w) c) # history w\<rparr>"
  show ?case
  proof (cases "?r = 0")
    case True
    from Cons.IH [of ?w] Cons.prems(2) obtain b h' where
      "run_state (kernel_calls K cs) ?w = (b, w\<lparr>history := h'\<rparr>)"
      "(\<And>h c. c \<in> set cs \<Longrightarrow> k_call K h c = 0) \<Longrightarrow> b"
      "\<And>c. c \<in> set cs \<Longrightarrow> (\<And>h. k_call K h c \<noteq> 0) \<Longrightarrow> \<not> b" by auto
    then show ?thesis
      using Cons.prems(1) [of b h'] Cons.prems(2) True by (auto simp: kernel_call_def)
  next
    case False
    then show ?thesis
      using Cons.prems(1) [of False "history ?w"] Cons.prems(2) by (auto simp: kernel_call_def)
  qed
qed

section \<open>The outcomes of \<open>wifi_init\<close>\<close>

lemma setup_ok_create:
  "setup_ok s \<Longrightarrow> n = next_handle s \<Longrightarrow> setup_ok (s\<lparr>objects := (objects s)(n \<mapsto> x), next_handle := Suc n\<rparr>)"
  by (auto simp: setup_ok_def lives_def split: option.splits)

lemma lives_create:
  "setup_ok s \<Longrightarrow> n = next_handle s \<Longrightarrow> lives s y h \<Longrightarrow>
     lives (s\<lparr>objects := (objects s)(n \<mapsto> x), next_handle := Suc n\<rparr>) y h"
  by (auto simp: setup_ok_def lives_def split: option.splits)

lemma run_ensure:
  assumes "\<And>h x. k_create K h x" "fault w = None" "setup_ok (vars w)"
  shows "\<exists>w'. run_state (ensure_state_group K) w = (True, w') \<and> fault w' = None \<and> setup_ok (vars w') \<and>
      state_group (vars w') \<noteq> None"
    and "state_group (vars w) \<noteq> None \<Longrightarrow> \<exists>w'. run_state (ensure_internal_queue K) w = (True, w') \<and>
      fault w' = None \<and> setup_ok (vars w') \<and> state_group (vars w') \<noteq> None"
  using assms(3) setup_ok_create [OF assms(3) refl]
  by (auto simp: ensure_state_group_def ensure_internal_queue_def run_create_object [OF assms(1,2)]
      assms(2) setup_ok_def lives_def split: option.splits)

text \<open>The three objects of a new pipe, and what giving them up leaves.\<close>

definition new_pipe :: "nat \<Rightarrow> pipe_interconnection" where
  "new_pipe n = \<lparr>pipeEventGroup = Some n, pipeQueueHandle = Some (Suc n), pipeMessageBuffer = None,
     pipeMutex = Some (Suc (Suc n))\<rparr>"

definition with_pipe :: "setup_state \<Rightarrow> setup_state" where
  "with_pipe s = s\<lparr>objects := (objects s)(next_handle s \<mapsto> EventGroup,
       Suc (next_handle s) \<mapsto> Queue WIFI_DATA_SIZE, Suc (Suc (next_handle s)) \<mapsto> Mutex),
     next_handle := Suc (Suc (Suc (next_handle s))),
     pipes := (pipes s)(next_pipe s \<mapsto> new_pipe (next_handle s)), next_pipe := Suc (next_pipe s)\<rparr>"

lemma with_pipe_ready: "pipe_ready (with_pipe s) (next_pipe s)"
  by (simp add: pipe_ready_def with_pipe_def new_pipe_def lives_def)

lemma setup_ok_with_pipe: "setup_ok s \<Longrightarrow> setup_ok (with_pipe s)"
  by (auto simp: setup_ok_def lives_def with_pipe_def split: option.splits)

lemma run_abandon:
  assumes "fault w = None" "setup_ok s" "state_group s \<noteq> None" "vars w = with_pipe s"
  shows "\<exists>w'. run_state (abandon_pipe (Some (next_pipe s))) w = (Some (next_pipe s), w') \<and> fault w' = None \<and>
    setup_ok (vars w') \<and> state_group (vars w') \<noteq> None \<and> pipes (vars w') (next_pipe s) = None \<and>
    next_pipe s < next_pipe (vars w')"
  using assms
  by (auto simp: abandon_pipe_def load_pipe_def with_pipe_def new_pipe_def delete_object_def is_queue_def
      finish_wifi_init_def setup_ok_def lives_def split: option.splits)

text \<open>From the allocation of the pipe to its last object.\<close>

lemma run_new_pipe:
  assumes "\<And>h x. k_create K h x" "k_malloc K (history w) = Some junk" "fault w = None"
  shows "\<exists>h'. run_state (new_wifi_pipe K) w =
    run_state (register_handlers K (Some (next_pipe (vars w)))) (w\<lparr>history := h', vars := with_pipe (vars w)\<rparr>)"
proof -
  let ?h = "Create Mutex True # Create (Queue WIFI_DATA_SIZE) True # Create EventGroup True #
    NewPipe True # history w"
  show ?thesis
    by (rule exI [of _ ?h], cases junk, cases "vars w")
      (simp add: new_wifi_pipe_def malloc_pipe_def create_object_def put_pipe_def load_pipe_def assms with_pipe_def new_pipe_def)
qed

lemma run_finish_wifi_init:
  "fault w = None \<Longrightarrow> state_group (vars w) \<noteq> None \<Longrightarrow>
     run_state (finish_wifi_init p) w = (p, w\<lparr>history := RaiseState 0x100 # history w\<rparr>)"
  by (auto simp: finish_wifi_init_def)

lemma run_register:
  assumes "fault w = None" "setup_ok s" "state_group s \<noteq> None" "vars w = with_pipe s"
  shows "\<exists>w'. run_state (register_handlers K (Some (next_pipe s))) w = (Some (next_pipe s), w') \<and>
    fault w' = None \<and> setup_ok (vars w') \<and> state_group (vars w') \<noteq> None \<and>
    next_pipe s < next_pipe (vars w') \<and>
    ((\<forall>c \<in> set wifi_handlers. \<forall>h. k_call K h c = 0) \<longrightarrow> pipe_ready (vars w') (next_pipe s)) \<and>
    ((\<exists>c \<in> set wifi_handlers. \<forall>h. k_call K h c \<noteq> 0) \<longrightarrow> pipes (vars w') (next_pipe s) = None)"
proof -
  obtain b h where calls: "run_state (kernel_calls K wifi_handlers) w = (b, w\<lparr>history := h\<rparr>)"
    "(\<And>h c. c \<in> set wifi_handlers \<Longrightarrow> k_call K h c = 0) \<Longrightarrow> b"
    "\<And>c. c \<in> set wifi_handlers \<Longrightarrow> (\<And>h. k_call K h c \<noteq> 0) \<Longrightarrow> \<not> b"
    using run_kernel_calls [OF assms(1)] by blast
  show ?thesis
  proof (cases b)
    case True
    have "state_group (with_pipe s) \<noteq> None" using assms(3) by (simp add: with_pipe_def)
    then show ?thesis
      using True calls(1,3) assms setup_ok_with_pipe [OF assms(2)]
      by (auto simp: register_handlers_def run_finish_wifi_init with_pipe_ready) (simp_all add: with_pipe_def)
  next
    case False
    from run_abandon [of "w\<lparr>history := h\<rparr>" s] assms False calls(1,2) show ?thesis
      by (auto simp: register_handlers_def)
  qed
qed

text \<open>What \<open>wifi_init\<close> returns, when kernel objects can be created and memory is there.\<close>

lemma wifi_init_outcomes:
  assumes "\<And>h x. k_create K h x" "\<And>h. k_malloc K h \<noteq> None" "fault w = None" "setup_ok (vars w)"
    and "run_state (wifi_init K) w = (p, w')"
  shows "fault w' = None \<and> setup_ok (vars w') \<and> state_group (vars w') \<noteq> None \<and>
    ((\<forall>h c. k_call K h c = 0) \<longrightarrow> (\<exists>a. p = Some a \<and> pipe_ready (vars w') a)) \<and>
    ((\<forall>h. k_call K h NetifStart \<noteq> 0) \<or> (\<forall>h. k_call K h LoopCreate \<noteq> 0) \<longrightarrow> p = None) \<and>
    ((\<forall>h. k_call K h NetifStart = 0 \<and> k_call K h LoopCreate = 0) \<and>
       (\<exists>c \<in> set wifi_handlers. \<forall>h. k_call K h c \<noteq> 0) \<longrightarrow>
     (\<exists>a. p = Some a \<and> a < next_pipe (vars w') \<and> pipes (vars w') a = None))"
proof -
  obtain w1 where w1: "run_state (ensure_state_group K) w = (True, w1)" "fault w1 = None" "setup_ok (vars w1)"
    "state_group (vars w1) \<noteq> None" using run_ensure(1) [OF assms(1,3,4)] by blast
  obtain w2 where w2: "run_state (ensure_internal_queue K) w1 = (True, w2)" "fault w2 = None" "setup_ok (vars w2)"
    "state_group (vars w2) \<noteq> None" using run_ensure(2) [OF assms(1) w1(2,3,4)] by blast
  obtain b h where calls: "run_state (kernel_calls K [NetifStart, LoopCreate]) w2 = (b, w2\<lparr>history := h\<rparr>)"
    "(\<And>h c. c \<in> set [NetifStart, LoopCreate] \<Longrightarrow> k_call K h c = 0) \<Longrightarrow> b"
    "\<And>c. c \<in> set [NetifStart, LoopCreate] \<Longrightarrow> (\<And>h. k_call K h c \<noteq> 0) \<Longrightarrow> \<not> b"
    using run_kernel_calls [OF w2(2)] by blast
  let ?w = "w2\<lparr>history := h\<rparr>" and ?a = "next_pipe (vars w2)"
  have "run_state (wifi_init K) w =
      (if b then run_state (new_wifi_pipe K) ?w else run_state (finish_wifi_init None) ?w)"
    by (simp add: wifi_init_def w1(1) w2(1) calls(1) del: kernel_calls.simps)
  moreover obtain h' where h': "run_state (new_wifi_pipe K) ?w =
      run_state (register_handlers K (Some ?a)) (?w\<lparr>history := h', vars := with_pipe (vars w2)\<rparr>)"
    using run_new_pipe [OF assms(1), of ?w] assms(2) [of h] w2(2) by auto
  moreover obtain w' where "run_state (register_handlers K (Some ?a))
      (?w\<lparr>history := h', vars := with_pipe (vars w2)\<rparr>) = (Some ?a, w')"
    "fault w' = None" "setup_ok (vars w')" "state_group (vars w') \<noteq> None" "?a < next_pipe (vars w')"
    "(\<forall>c \<in> set wifi_handlers. \<forall>h. k_call K h c = 0) \<longrightarrow> pipe_ready (vars w') ?a"
    "(\<exists>c \<in> set wifi_handlers. \<forall>h. k_call K h c \<noteq> 0) \<longrightarrow> pipes (vars w') ?a = None"
    using run_register [OF _ w2(3,4), of "?w\<lparr>history := h', vars := with_pipe (vars w2)\<rparr>" K] w2(2) by auto
  ultimately show ?thesis
    using assms(5) calls(2,3) w2 run_finish_wifi_init [of ?w None] by (cases b) auto
qed

section \<open>The program starts with it\<close>

text \<open>Creating a client's pipe does not bring a freed pipe back.\<close>

definition freed :: "nat \<Rightarrow> setup_state \<Rightarrow> bool" where
  "freed a s \<longleftrightarrow> setup_ok s \<and> a < next_pipe s \<and> pipes s a = None"

lemma setup_ok_four:
  assumes "setup_ok s" "n = next_handle s" "a = next_pipe s"
  shows "setup_ok (s\<lparr>objects := (objects s)(n \<mapsto> x1, Suc n \<mapsto> x2, Suc (Suc n) \<mapsto> x3, Suc (Suc (Suc n)) \<mapsto> x4),
    next_handle := Suc (Suc (Suc (Suc n))), pipes := (pipes s)(a \<mapsto> r), next_pipe := Suc a\<rparr>)"
  using assms by (auto simp: setup_ok_def lives_def split: option.splits)

lemma run_client_init:
  assumes "\<And>h x. k_create K h x" "\<And>h. k_malloc K h \<noteq> None" "fault w = None"
  shows "\<exists>h r. run_state (client_init K i b) w = (Some (next_pipe (vars w)), w\<lparr>history := h, vars :=
    (vars w)\<lparr>objects := (objects (vars w))(next_handle (vars w) \<mapsto> EventGroup,
        Suc (next_handle (vars w)) \<mapsto> Queue i, Suc (Suc (next_handle (vars w))) \<mapsto> MessageBuffer b,
        Suc (Suc (Suc (next_handle (vars w)))) \<mapsto> Mutex),
      next_handle := Suc (Suc (Suc (Suc (next_handle (vars w))))),
      pipes := (pipes (vars w))(next_pipe (vars w) \<mapsto> r), next_pipe := Suc (next_pipe (vars w))\<rparr>\<rparr>)"
proof -
  obtain junk where junk: "k_malloc K (history w) = Some junk" using assms(2) by blast
  show ?thesis
    by (rule exI [of _ "Create Mutex True # Create (MessageBuffer b) True # Create (Queue i) True #
        Create EventGroup True # NewPipe True # history w"],
        rule exI [of _ "\<lparr>pipeEventGroup = Some (next_handle (vars w)), pipeQueueHandle = Some (Suc (next_handle (vars w))),
          pipeMessageBuffer = Some (Suc (Suc (next_handle (vars w)))),
          pipeMutex = Some (Suc (Suc (Suc (next_handle (vars w)))))\<rparr>"], cases junk, cases "vars w")
      (simp add: client_init_def malloc_pipe_def create_object_def put_pipe_def load_pipe_def junk assms)
qed

lemma client_init_pipes:
  assumes "\<And>h x. k_create K h x" "\<And>h. k_malloc K h \<noteq> None" "fault w = None" "setup_ok (vars w)"
  shows "\<exists>p w'. run_state (client_init K i b) w = (p, w') \<and> fault w' = None \<and> setup_ok (vars w') \<and>
    (\<forall>a < next_pipe (vars w). pipes (vars w') a = pipes (vars w) a)"
  using run_client_init [OF assms(1-3), of i b] setup_ok_four [OF assms(4) refl refl] assms(3) by auto

lemma run_init_nvs: "fault w = None \<Longrightarrow> \<exists>b h. run_state (init_nvs K) w = (b, w\<lparr>history := h\<rparr>)"
  by (auto simp: init_nvs_def kernel_call_def)


definition demo_kernel_setup :: "(setup_call \<Rightarrow> int) \<Rightarrow> rtos" where
  "demo_kernel_setup f = \<lparr>k_create = (\<lambda>h x. True), k_malloc = (\<lambda>h. Some (new_pipe 7)), k_call = (\<lambda>h. f)\<rparr>"

definition demo_setup :: "(setup_event, setup_state) machine" where
  "demo_setup = \<lparr>history = [], fault = None, vars = \<lparr>state_group = None, internal_queue_handle = None,
     objects = Map.empty, next_handle = 0, pipes = Map.empty, next_pipe = 0\<rparr>\<rparr>"


end
