(* ===== verification/Console.thy ===== *)
theory Console
  imports DriverBytes
begin

text \<open>
  The tool that talks to the filter driver, \<open>WDM_filter_driver/DriverInterface.c\<close>: its
  arguments are the numbers of commands, and each command is a request to the control device.
  The console, \<open>CreateFile\<close> and \<open>DeviceIoControl\<close> are a system (\<open>console_io\<close>) that answers by the
  history of calls. The local variables of \<open>caller\<close> hold junk before they are written. The fixed
  messages that tell the user which command runs are not recorded.
\<close>

section \<open>The system\<close>

datatype console_event =
    Scan "u16 option"
  | Control u32 "u8 list" bool
  | PrintError
  | PrintText "u16 list"
  | SleepFor nat
  | OpenDevice bool
  | CloseDevice

record console_io =
  c_scan :: "console_event list \<Rightarrow> u16 option"
  c_control :: "console_event list \<Rightarrow> u32 \<Rightarrow> u8 list \<Rightarrow> bool \<times> u8 list"
  c_buffer :: "console_event list \<Rightarrow> nat \<Rightarrow> u8"
  c_points :: "console_event list \<Rightarrow> nat \<Rightarrow> calibration_point"
  c_open :: bool

record console =
  out_buffer :: "u8 list"
  typed_points :: "calibration_point list"

type_synonym 'a con = "(console_event, console, 'a) prog"

definition OUT_LENGTH :: nat where "OUT_LENGTH = 0x800"

section \<open>Commands\<close>

text \<open>\<open>scanf ("%hu", &x)\<close>: a failure leaves the variable as it was.\<close>

definition scan_into :: "console_io \<Rightarrow> (u16 \<Rightarrow> calibration_point \<Rightarrow> calibration_point) \<Rightarrow> nat \<Rightarrow> unit con" where
  "scan_into io f i = do {
     r \<leftarrow> call (c_scan io) Scan;
     case r of
       None \<Rightarrow> skip
     | Some v \<Rightarrow> modify (\<lambda>c. c\<lparr>typed_points := (typed_points c)[i := f v (typed_points c ! i)]\<rparr>) }"

definition scan_point :: "console_io \<Rightarrow> nat \<Rightarrow> unit con" where
  "scan_point io i = do {
     scan_into io (\<lambda>v p. p\<lparr>px := v\<rparr>) i;
     scan_into io (\<lambda>v p. p\<lparr>py := v\<rparr>) i }"

definition scan_points :: "console_io \<Rightarrow> nat \<Rightarrow> unit con" where
  "scan_points io n = do {
     junk \<leftarrow> ask (c_points io);
     modify (\<lambda>c. c\<lparr>typed_points := map junk [0..<n]\<rparr>);
     for_each [0..<n] (scan_point io) }"

text \<open>\<open>wprintf (L"%ls")\<close> of the answer: the buffer must hold a terminator.\<close>

definition print_answer :: "unit con" where
  "print_answer = do {
     bs \<leftarrow> reads out_buffer;
     let ws = words16 bs;
     if 0 \<in> set ws then emit (PrintText (takeWhile (\<lambda>c. c \<noteq> 0) ws)) else crash BufferOverflow }"

definition request :: "console_io \<Rightarrow> u32 \<Rightarrow> u8 list \<Rightarrow> unit con" where
  "request io code input = do {
     (done, answer) \<leftarrow> call (\<lambda>h. c_control io h code input) (\<lambda>(done, answer). Control code input done);
     modify (\<lambda>c. c\<lparr>out_buffer := take OUT_LENGTH answer @ drop (length (take OUT_LENGTH answer)) (out_buffer c)\<rparr>);
     whenever (\<not> done) (emit PrintError);
     print_answer }"

definition send_points :: "console_io \<Rightarrow> u32 \<Rightarrow> nat \<Rightarrow> unit con" where
  "send_points io code n = do {
     scan_points io n;
     ps \<leftarrow> reads typed_points;
     request io code (concat (map point_bytes ps)) }"

definition request_and_wait :: "console_io \<Rightarrow> u32 \<Rightarrow> unit con" where
  "request_and_wait io code = do { request io code []; emit (SleepFor 6000) }"

definition caller :: "console_io \<Rightarrow> int \<Rightarrow> unit con" where
  "caller io Sought = do {
     junk \<leftarrow> ask (c_buffer io);
     modify (\<lambda>c. c\<lparr>out_buffer := map junk [0..<OUT_LENGTH]\<rparr>);
     whenever (Sought = 11) (send_points io (ctl_code 0x811) 9);
     whenever (Sought = 0) (send_points io (ctl_code 0x800) 5);
     whenever (Sought = 1) (request io (ctl_code 0x801) []);
     whenever (Sought = 12) (request_and_wait io (ctl_code 0x812));
     whenever (Sought = 13) (request_and_wait io (ctl_code 0x813));
     whenever (Sought = 3) (request io (ctl_code 0x803) []);
     whenever (Sought = 2) (request io (ctl_code 0x802) []);
     whenever (Sought = 4) (request io (ctl_code 0x804) []);
     whenever (Sought = 6) (request io (ctl_code 0x806) []);
     whenever (Sought = 8) (request_and_wait io (ctl_code 0x808));
     whenever (Sought = 9) (request_and_wait io (ctl_code 0x809));
     whenever (Sought = 10) (request io (ctl_code 0x810) []) }"

section \<open>The program\<close>

text \<open>\<open>atoi\<close>; a number outside the type \<open>int\<close> is undefined behaviour.\<close>

definition is_space :: "char \<Rightarrow> bool" where
  "is_space c \<longleftrightarrow> c \<in> {CHR '' '', CHR 0x09, CHR 0x0A, CHR 0x0B, CHR 0x0C, CHR 0x0D}"

definition is_digit :: "char \<Rightarrow> bool" where
  "is_digit c \<longleftrightarrow> (48 :: nat) \<le> of_char c \<and> of_char c \<le> (57 :: nat)"

definition digits_value :: "string \<Rightarrow> int" where
  "digits_value s = foldl (\<lambda>n c. 10 * n + (of_char c - 48)) 0 (takeWhile is_digit s)"

definition to_int :: "string \<Rightarrow> int" where
  "to_int s =
     (case dropWhile is_space s of
        [] \<Rightarrow> 0
      | c # cs \<Rightarrow>
          if c = CHR ''-'' then - digits_value cs
          else if c = CHR ''+'' then digits_value cs
          else digits_value (c # cs))"

definition atoi :: "string \<Rightarrow> int exec" where
  "atoi s = (if - (2 ^ 31) \<le> to_int s \<and> to_int s < 2 ^ 31 then ok (to_int s) else abort BadConversion)"

text \<open>The loop that fills the array of 100 parameters.\<close>

fun fill_parameters :: "string list \<Rightarrow> nat \<Rightarrow> int list \<Rightarrow> int list exec" where
  "fill_parameters [] i ps = ok ps"
| "fill_parameters (a # as) i ps =
     and_then (atoi a) (\<lambda>n.
       if i < length ps then fill_parameters as (Suc i) (ps[i := n]) else abort BufferOverflow)"

definition console_main :: "console_io \<Rightarrow> string list \<Rightarrow> unit con" where
  "console_main io args = do {
     ps \<leftarrow> perform [] (fill_parameters args 0 (replicate 100 0));
     emit (OpenDevice (c_open io));
     whenever (c_open io) (do {
       for_each [0..<length args] (\<lambda>i. caller io (ps ! i));
       emit CloseDevice }) }"

end
