(* ===== verification/ConsoleProps.thy ===== *)
theory ConsoleProps
  imports Console
begin

text \<open>
  What the configuration tool sends: a run without a fault sends the requests of its
  arguments in their order, and the points that are typed in are those the driver reads.
\<close>

section \<open>The requests of a run\<close>

fun codes :: "console_event \<Rightarrow> u32 list" where
  "codes (Control c input b) = [c]"
| "codes _ = []"

definition sent :: "(console_event, 'd) machine \<Rightarrow> u32 list" where
  "sent w = concat (map codes (rev (history w)))"

lemma sent_simps [simp]:
  "sent (w\<lparr>history := e # history w\<rparr>) = sent w @ codes e"
  "sent (w\<lparr>vars := d\<rparr>) = sent w" "sent (w\<lparr>fault := x\<rparr>) = sent w"
  by (simp_all add: sent_def)

text \<open>Without a fault the program sends the requests \<open>xs\<close>.\<close>

definition sends :: "'a con \<Rightarrow> u32 list \<Rightarrow> bool" where
  "sends m xs \<longleftrightarrow> (\<forall>w. (fault w \<noteq> None \<longrightarrow> snd (run_state m w) = w) \<and>
     (fault (snd (run_state m w)) = None \<longrightarrow> sent (snd (run_state m w)) = sent w @ xs))"

lemma sends_bind:
  assumes "sends m xs" "\<And>a. sends (k a) ys" "zs = xs @ ys"
  shows "sends (State_Monad.bind m k) zs"
  unfolding sends_def
proof (intro allI conjI impI)
  fix w :: "(console_event, console) machine"
  obtain a w1 where m: "run_state m w = (a, w1)" by (cases "run_state m w")
  note first = assms(1) [unfolded sends_def, rule_format, of w, unfolded m snd_conv]
  note rest = assms(2) [unfolded sends_def, rule_format, of w1 a]
  show "fault w \<noteq> None \<Longrightarrow> snd (run_state (State_Monad.bind m k) w) = w"
    using first rest by (simp add: m)
  show "sent (snd (run_state (State_Monad.bind m k) w)) = sent w @ zs"
    if "fault (snd (run_state (State_Monad.bind m k) w)) = None"
  proof -
    from that rest have "fault w1 = None" by (auto simp: m)
    with that first rest show ?thesis by (simp add: m assms(3))
  qed
qed

lemma sends_quiet: "sends m [] \<Longrightarrow> (\<And>a. sends (k a) zs) \<Longrightarrow> sends (State_Monad.bind m k) zs"
  by (rule sends_bind) auto

lemma sends_primitive:
  "sends (ret a) []" "sends (modify f) []" "sends (reads g) []" "sends (ask q) []" "sends skip []"
  "codes e = [] \<Longrightarrow> sends (emit e) []" "(\<And>a. codes (ev a) = xs) \<Longrightarrow> sends (call q ev) xs"
  by (auto simp: sends_def)

lemma sends_crash: "sends (crash x) xs"
  by (auto simp: sends_def)

lemma sends_whenever: "sends m xs \<Longrightarrow> sends (whenever b m) (if b then xs else [])"
  by (simp add: whenever_def sends_primitive)

lemma sends_for_each:
  assumes "\<And>x. sends (g x) (f x)"
  shows "sends (for_each xs g) (concat (map f xs))"
  by (induction xs) (auto intro!: sends_primitive sends_bind assms)

lemma sends_perform: "sends (perform d x) []"
  by (auto simp: perform_def intro!: sends_primitive sends_bind [where ys = "[]"] sends_crash
      split: option.split sum.split)

lemma sends_scan: "sends (scan_into io f i) []"
  unfolding scan_into_def
  by (rule sends_quiet sends_primitive | simp split: option.split | intro allI impI conjI)+

lemma sends_for_each_quiet: "(\<And>x. sends (g x) []) \<Longrightarrow> sends (for_each xs g) []"
  by (induction xs) (auto intro!: sends_primitive sends_quiet)

lemma sends_scan_points: "sends (scan_points io n) []"
  unfolding scan_points_def
  by (rule sends_quiet [OF sends_primitive(4)], rule sends_quiet [OF sends_primitive(2)],
      rule sends_for_each_quiet, unfold scan_point_def, rule sends_quiet, rule sends_scan, rule sends_scan)

lemma sends_request: "sends (request io code input) [code]"
proof -
  have "sends print_answer []"
    unfolding print_answer_def Let_def
    by (rule sends_quiet [OF sends_primitive(3)]) (auto intro: sends_primitive sends_crash)
  then show ?thesis
    unfolding request_def
    by (intro sends_bind [where xs = "[code]" and ys = "[]"] sends_primitive(7))
      (auto intro!: sends_quiet [OF sends_primitive(2)] sends_quiet
        sends_whenever [of "emit PrintError" "[]", simplified if_cancel] sends_primitive)
qed

lemma sends_commands: "sends (send_points io code n) [code]" "sends (request_and_wait io code) [code]"
  unfolding send_points_def request_and_wait_def
  by (rule sends_quiet [OF sends_scan_points], rule sends_quiet [OF sends_primitive(3)], rule sends_request)
    (rule sends_bind [OF sends_request], rule sends_primitive(6), simp_all)

text \<open>The numbers of the commands and their codes.\<close>

definition requests :: "int \<Rightarrow> u32 list" where
  "requests n =
     (case map_of [(0, 0x800), (1, 0x801), (2, 0x802), (3, 0x803), (4, 0x804), (6, 0x806), (8, 0x808),
        (9, 0x809), (10, 0x810), (11, 0x811), (12, 0x812), (13, 0x813)] n of
        None \<Rightarrow> []
      | Some c \<Rightarrow> [ctl_code c])"

lemma sends_caller: "sends (caller io n) (requests n)"
  unfolding caller_def
  by (rule sends_quiet [OF sends_primitive(4)], rule sends_quiet [OF sends_primitive(2)],
      (rule sends_bind [OF sends_whenever] sends_commands sends_request)+, rule sends_whenever, rule sends_request)
    (auto simp: requests_def)

section \<open>The arguments\<close>

lemma fill_parameters_spec:
  "fill_parameters args i ps = ok qs \<Longrightarrow> i \<le> length ps \<Longrightarrow>
     i + length args \<le> length ps \<and> qs = take i ps @ map to_int args @ drop (i + length args) ps"
proof (induction args i ps rule: fill_parameters.induct)
  case (2 a as i ps)
  then have "atoi a = ok (to_int a)" "i < length ps"
    by (auto simp: atoi_def split: if_splits)
  with 2 show ?case by (auto simp: take_Suc_conv_app_nth)
qed auto

text \<open>C26: A run of the tool that meets no fault has at most 100 arguments, and if the device could
  be opened it has sent, in the order of the arguments, the control code of each argument that
  is the number of a command, and nothing for the others. More arguments overflow the array of
  parameters.\<close>

theorem console_requests:
  assumes "run_state (console_main io args) w = ((), w')" "fault w' = None"
  shows "length args \<le> 100 \<and>
    sent w' = sent w @ (if c_open io then concat (map (\<lambda>a. requests (to_int a)) args) else [])"
proof -
  define rest where "rest ps = do {
      emit (OpenDevice (c_open io));
      whenever (c_open io) (do {
        for_each [0..<length args] (\<lambda>i. caller io (ps ! i));
        emit CloseDevice }) }" for ps
  have calls: "sends (rest ps)
      (if c_open io then concat (map (\<lambda>i. requests (ps ! i)) [0..<length args]) else [])" for ps
    unfolding rest_def
    by (rule sends_quiet [OF sends_primitive(6)], simp, rule sends_whenever, rule sends_bind [OF sends_for_each])
      (rule sends_caller, rule sends_primitive(6), simp_all)
  have run: "snd (run_state (perform [] (fill_parameters args 0 (replicate 100 0)) \<bind> rest) w) = w'"
    using assms(1) by (simp add: console_main_def rest_def [abs_def])
  obtain qs where qs: "fill_parameters args 0 (replicate 100 0) = ok qs"
  proof (cases "fill_parameters args 0 (replicate 100 0)" rule: exec_cases)
    case diverges
    with run assms(2) calls show ?thesis
      by (cases "fault w") (auto simp: perform_def sends_def split: prod.splits)
  next
    case (faults e)
    with run assms(2) calls show ?thesis
      by (cases "fault w") (auto simp: sends_def split: prod.splits)
  qed
  from fill_parameters_spec [OF qs] have qs_args: "length args \<le> 100"
    "qs = map to_int args @ replicate (100 - length args) 0" by simp_all
  have "map (\<lambda>i. requests (qs ! i)) [0..<length args] = map (\<lambda>a. requests (to_int a)) args"
    by (rule nth_equalityI) (simp_all add: qs_args(2) nth_append)
  moreover have "sent w' = sent w @ (if c_open io then concat (map (\<lambda>i. requests (qs ! i)) [0..<length args]) else [])"
    using run qs assms(2) calls by (auto simp: sends_def)
  ultimately show ?thesis using qs_args(1) by simp
qed

definition demo_console_io :: console_io where
  "demo_console_io = \<lparr>c_scan = (\<lambda>h. Some (of_nat (length h))), c_control = (\<lambda>h c bs. (True, [0, 0])),
     c_buffer = (\<lambda>h i. 1), c_points = (\<lambda>h i. \<lparr>px = 0, py = 0\<rparr>), c_open = True\<rparr>"

definition demo_console :: "(console_event, console) machine" where
  "demo_console = \<lparr>history = [], fault = None, vars = \<lparr>out_buffer = [], typed_points = []\<rparr>\<rparr>"

lemma run_demo_request:
  "fault w = None \<Longrightarrow> \<exists>w'. run_state (request demo_console_io code bs) w = ((), w') \<and> fault w' = None"
proof -
  have "take OUT_LENGTH [0 :: u8, 0] = [0, 0]" by (simp add: OUT_LENGTH_def)
  then show "fault w = None \<Longrightarrow> ?thesis"
    by (simp add: request_def demo_console_io_def print_answer_def whenever_def)
qed

lemma run_demo_caller:
  assumes "fault w = None" "n = 6 \<or> n = 4"
  shows "\<exists>w'. run_state (caller demo_console_io n) w = ((), w') \<and> fault w' = None"
proof -
  let ?w = "w\<lparr>vars := (vars w)\<lparr>out_buffer := map (c_buffer demo_console_io (history w)) [0..<OUT_LENGTH]\<rparr>\<rparr>"
  have "run_state (caller demo_console_io n) w =
      run_state (request demo_console_io (if n = 6 then ctl_code 0x806 else ctl_code 0x804) []) ?w"
    using assms by (auto simp: caller_def whenever_def split: prod.split)
  with run_demo_request [of ?w] assms(1) show ?thesis by simp
qed

theorem console_requests_witness:
  "\<exists>w'. run_state (console_main demo_console_io [''6'', ''4'']) demo_console = ((), w') \<and>
     sent w' = [ctl_code 0x806, ctl_code 0x804]"
proof -
  let ?m = "console_main demo_console_io [''6'', ''4'']"
  have args: "atoi ''6'' = ok 6" "atoi ''4'' = ok 4" "to_int ''6'' = 6" "to_int ''4'' = 4"
    by (simp_all add: atoi_def to_int_def is_space_def digits_value_def is_digit_def)
  let ?w = "demo_console\<lparr>history := [OpenDevice True]\<rparr>"
  obtain w1 where w1: "run_state (caller demo_console_io 6) ?w = ((), w1)" "fault w1 = None"
    using run_demo_caller [of ?w 6] by (auto simp: demo_console_def)
  obtain w2 where w2: "run_state (caller demo_console_io 4) w1 = ((), w2)" "fault w2 = None"
    using run_demo_caller [OF w1(2), of 4] by auto
  have "c_open demo_console_io" by (simp add: demo_console_io_def)
  moreover have "[0..<length [''6'', ''4'']] = [0, 1]" by (simp add: upt_rec)
  moreover have "demo_console\<lparr>history := OpenDevice True # history demo_console\<rparr> = ?w"
    "fault demo_console = None" by (simp_all add: demo_console_def)
  ultimately have run: "run_state ?m demo_console = ((), w2\<lparr>history := CloseDevice # history w2\<rparr>)"
    using w1 w2 by (simp add: console_main_def args whenever_def)
  from console_requests [OF this] w2(2) \<open>c_open demo_console_io\<close> show ?thesis
    unfolding run by (simp add: args requests_def) (simp add: sent_def demo_console_def)
qed

section \<open>The points of a calibration\<close>

fun scanned :: "console_event \<Rightarrow> u16 list" where
  "scanned (Scan (Some v)) = [v]"
| "scanned _ = []"

definition typed :: "(console_event, 'd) machine \<Rightarrow> u16 list" where
  "typed w = concat (map scanned (rev (history w)))"

definition coordinates :: "calibration_point list \<Rightarrow> u16 list" where
  "coordinates ps = concat (map (\<lambda>p. [px p, py p]) ps)"

lemma run_scan_point:
  assumes "\<And>h. c_scan io h \<noteq> None" "fault w = None" "i < length (typed_points (vars w))"
  obtains p w' where "run_state (scan_point io i) w = ((), w')" "fault w' = None"
    "typed_points (vars w') = (typed_points (vars w))[i := p]" "typed w' = typed w @ [px p, py p]"
proof -
  obtain x where x: "c_scan io (history w) = Some x" using assms(1) by blast
  obtain y where y: "c_scan io (Scan (Some x) # history w) = Some y" using assms(1) by blast
  have point: "p\<lparr>px := x, py := y\<rparr> = \<lparr>px = x, py = y\<rparr>" for p :: calibration_point
    by (cases p) simp
  show thesis
    by (rule that [of "w\<lparr>history := Scan (Some y) # Scan (Some x) # history w,
        vars := (vars w)\<lparr>typed_points := (typed_points (vars w))[i := \<lparr>px = x, py = y\<rparr>]\<rparr>\<rparr>"
        "\<lparr>px = x, py = y\<rparr>"])
      (use assms(2,3) x y in \<open>simp_all add: scan_point_def scan_into_def point typed_def\<close>)
qed

lemma run_scan_points_from:
  assumes "\<And>h. c_scan io h \<noteq> None" "fault w = None" "length (typed_points (vars w)) = k + m"
  shows "\<exists>ps w'. run_state (for_each [k..<k + m] (scan_point io)) w = ((), w') \<and> fault w' = None \<and> length ps = m \<and>
    typed_points (vars w') = take k (typed_points (vars w)) @ ps \<and> typed w' = typed w @ coordinates ps"
  using assms(2,3)
proof (induction m arbitrary: k w)
  case 0
  then show ?case by (auto simp: coordinates_def)
next
  case (Suc m)
  obtain p w1 where w1: "run_state (scan_point io k) w = ((), w1)" "fault w1 = None"
    "typed_points (vars w1) = (typed_points (vars w))[k := p]" "typed w1 = typed w @ [px p, py p]"
    by (rule run_scan_point [OF assms(1), of w k]) (use Suc.prems in simp_all)
  from Suc.IH [of w1 "Suc k"] w1(2,3) Suc.prems obtain ps w2 where w2:
    "run_state (for_each [Suc k..<Suc k + m] (scan_point io)) w1 = ((), w2)" "fault w2 = None" "length ps = m"
    "typed_points (vars w2) = take (Suc k) (typed_points (vars w1)) @ ps" "typed w2 = typed w1 @ coordinates ps"
    by auto
  have "[k..<k + Suc m] = k # [Suc k..<Suc k + m]" by (simp add: upt_conv_Cons)
  then show ?case
    using w1 w2 Suc.prems
    by (intro exI [of _ "p # ps"] exI [of _ w2])
      (auto simp: coordinates_def take_Suc_conv_app_nth split: prod.splits)
qed

lemma run_scan_points:
  assumes "\<And>h. c_scan io h \<noteq> None" "fault w = None"
  obtains ps w' where "run_state (scan_points io n) w = ((), w')" "fault w' = None" "length ps = n"
    "typed_points (vars w') = ps" "typed w' = typed w @ coordinates ps"
proof -
  let ?w = "w\<lparr>vars := (vars w)\<lparr>typed_points := map (c_points io (history w)) [0..<n]\<rparr>\<rparr>"
  have "run_state (scan_points io n) w = run_state (for_each [0..<n] (scan_point io)) ?w"
    using assms(2) by (simp add: scan_points_def)
  with run_scan_points_from [OF assms(1), of ?w 0 n] assms(2) that show thesis
    by (auto simp: typed_def)
qed

text \<open>C18: The points that are typed in for the commands 0 and 11 are the points the driver reads:
  the request for five or nine points carries exactly the coordinates of the input in their
  order, in a buffer of four bytes for each point, as \<open>GetAndCheckCalibrationPoints\<close> requires,
  and what the driver reads from the buffer at each index is the point typed there.\<close>

theorem typed_points_reach_driver:
  assumes "\<And>h. c_scan io h \<noteq> None" "fault w = None" "(n, c, k) \<in> {(0, 0x800, 5), (11, 0x811, 9)}"
    and "run_state (caller io n) w = ((), w')"
  shows "\<exists>ps b. typed w' = typed w @ coordinates ps \<and> length ps = k \<and>
    Control (ctl_code c) (concat (map point_bytes ps)) b \<in> set (history w') \<and>
    length (concat (map point_bytes ps)) = 4 * k \<and>
    (\<forall>i < k. point_of (concat (map point_bytes ps)) i = Some (ps ! i))"
proof -
  let ?w = "w\<lparr>vars := (vars w)\<lparr>out_buffer := map (c_buffer io (history w)) [0..<OUT_LENGTH]\<rparr>\<rparr>"
  obtain ps w1 where scan: "run_state (scan_points io k) ?w = ((), w1)" "fault w1 = None" "length ps = k"
    "typed_points (vars w1) = ps" "typed w1 = typed ?w @ coordinates ps"
    by (rule run_scan_points [OF assms(1), of ?w k]) (use assms(2) in simp_all)
  have "run_state (caller io n) w = run_state (send_points io (ctl_code c) k) ?w"
    using assms(2,3) by (auto simp: caller_def whenever_def split: prod.split)
  also have "\<dots> = run_state (request io (ctl_code c) (concat (map point_bytes ps))) w1"
    by (simp add: send_points_def scan(1,4))
  finally have "run_state (request io (ctl_code c) (concat (map point_bytes ps))) w1 = ((), w')"
    using assms(4) by simp
  then have "typed w' = typed w1 \<and>
      (\<exists>b. Control (ctl_code c) (concat (map point_bytes ps)) b \<in> set (history w'))"
    using scan(2)
    by (auto simp: request_def print_answer_def whenever_def typed_def Let_def split: prod.splits if_splits)
  moreover have "typed ?w = typed w" by (simp add: typed_def)
  ultimately show ?thesis
    using scan(3,5) length_points [of ps] point_of_points [of _ ps] by (metis append_assoc)
qed

theorem typed_points_reach_driver_witness:
  "\<exists>ps b. Control (ctl_code 0x800) (concat (map point_bytes ps)) b \<in>
     set (history (snd (run_state (caller demo_console_io 0) demo_console))) \<and> length ps = 5"
proof -
  have "c_scan demo_console_io h \<noteq> None" for h by (simp add: demo_console_io_def)
  moreover have "fault demo_console = None" by (simp add: demo_console_def)
  moreover obtain w' where run: "run_state (caller demo_console_io 0) demo_console = ((), w')"
    by (cases "run_state (caller demo_console_io 0) demo_console") auto
  ultimately show ?thesis
    using typed_points_reach_driver [of demo_console_io demo_console 0 "0x800" 5 w'] by auto
qed

end
