(* ===== verification/Sockets.thy ===== *)
theory Sockets
  imports Prelude
begin

text \<open>
  The socket programs: \<open>unix_tcp_sv.c\<close>, \<open>unix_tcp_cl.c\<close>, \<open>server_unix.c\<close> and \<open>client_unix.c\<close> of
  \<open>c_examples\<close>, and \<open>pair_server/server.c\<close>. Each is a machine whose state holds the call of the
  system it waits in (\<open>place\<close>) and its variables, and whose step takes the answer of that call
  and runs to the next call. An answer that the call cannot give has no step. The messages to
  \<open>stderr\<close> and the pauses of \<open>sleep\<close> have no effect on the state and are left out.
\<close>

section \<open>Places and answers\<close>

datatype place =
    AtSocket | AtRemove | AtBind | AtListen | AtConnect | AtAccept | AtName | AtRead | AtWrite
  | AtReceive | AtChar | AtSend | AtEnd

text \<open>The order in which a program comes to its places for the first time.\<close>

primrec rank :: "place \<Rightarrow> nat" where
  "rank AtSocket = 0"
| "rank AtRemove = 1"
| "rank AtBind = 2"
| "rank AtListen = 3"
| "rank AtConnect = 4"
| "rank AtAccept = 5"
| "rank AtName = 6"
| "rank AtRead = 7"
| "rank AtWrite = 8"
| "rank AtReceive = 9"
| "rank AtChar = 10"
| "rank AtSend = 11"
| "rank AtEnd = 12"

lemma rank_inject: "rank p = rank q \<Longrightarrow> p = q"
  by (cases p; cases q) simp_all

instantiation place :: linorder
begin

definition less_eq_place :: "place \<Rightarrow> place \<Rightarrow> bool" where
  "less_eq_place p q \<longleftrightarrow> rank p \<le> rank q"

definition less_place :: "place \<Rightarrow> place \<Rightarrow> bool" where
  "less_place p q \<longleftrightarrow> rank p < rank q"

instance
  by standard (auto simp: less_eq_place_def less_place_def intro: rank_inject)

end

text \<open>
  \<open>Returns\<close>: an integer, -1 for an error. \<open>RemoveReturns\<close>: the same, and whether \<open>errno\<close> is
  \<open>ENOENT\<close>. \<open>Bytes\<close>: the bytes read, \<open>None\<close> for -1. \<open>Datagram\<close>: the bytes and the path of the
  sender's address. \<open>Names\<close>: the host and the service, \<open>None\<close> for a failure.
\<close>

datatype answer =
    Returns int
  | RemoveReturns int bool
  | Bytes "u8 list option"
  | Datagram "u8 list" "u8 list"
  | Names "(string \<times> string) option"

text \<open>A run over the answers of the system, and the states that some run reaches.\<close>

fun run_program :: "('s \<Rightarrow> answer \<Rightarrow> 's option) \<Rightarrow> 's \<Rightarrow> answer list \<Rightarrow> 's option" where
  "run_program f s [] = Some s"
| "run_program f s (a # as) = (case f s a of None \<Rightarrow> None | Some s' \<Rightarrow> run_program f s' as)"

inductive reaches :: "('s \<Rightarrow> answer \<Rightarrow> 's option) \<Rightarrow> 's \<Rightarrow> 's \<Rightarrow> bool" for f s where
  reaches_start: "reaches f s s"
| reaches_step: "reaches f s t \<Longrightarrow> f t a = Some u \<Longrightarrow> reaches f s u"

section \<open>The stream server\<close>

text \<open>
  \<open>pending\<close> is \<open>numBytes\<close>; \<open>consumed\<close> and \<open>produced\<close> are the bytes read from the clients and
  written to the standard output so far, \<open>descriptors\<close> the number of descriptors that
  \<open>accept\<close> has opened.
\<close>

definition STREAM_BUF_SIZE :: nat where "STREAM_BUF_SIZE = 16"

record stream_server =
  sv_place :: place
  sv_buf :: "u8 list"
  pending :: int
  consumed :: "u8 list"
  produced :: "u8 list"
  descriptors :: nat

definition stream_start :: "u8 list \<Rightarrow> stream_server" where
  "stream_start junk = \<lparr>sv_place = AtSocket, sv_buf = take STREAM_BUF_SIZE junk, pending = 0,
     consumed = [], produced = [], descriptors = 0\<rparr>"

text \<open>
  \<open>write\<close> returns -1 or a number of bytes up to the count. After a failed \<open>read\<close> the count is
  -1 as a \<open>size_t\<close>, which lies beyond the address space, and \<open>write\<close> returns -1.
\<close>

definition read_next :: "stream_server \<Rightarrow> u8 list option \<Rightarrow> stream_server option" where
  "read_next s r =
     (case r of
        None \<Rightarrow> Some (s\<lparr>sv_place := AtWrite, pending := -1\<rparr>)
      | Some bs \<Rightarrow>
          if length bs > STREAM_BUF_SIZE then None
          else if bs = [] then Some (s\<lparr>sv_place := AtAccept, pending := 0\<rparr>)
          else Some (s\<lparr>sv_place := AtWrite, pending := int (length bs),
            sv_buf := bs @ drop (length bs) (sv_buf s), consumed := consumed s @ bs\<rparr>))"

definition write_next :: "stream_server \<Rightarrow> int \<Rightarrow> stream_server option" where
  "write_next s r =
     (if r < -1 \<or> r > pending s then None
      else Some (s\<lparr>sv_place := (if r = pending s then AtRead else AtEnd),
        produced := produced s @ take (nat r) (sv_buf s)\<rparr>))"

definition stream_server_step :: "stream_server \<Rightarrow> answer \<Rightarrow> stream_server option" where
  "stream_server_step s a =
     (case (sv_place s, a) of
        (AtSocket, Returns r) \<Rightarrow> Some (s\<lparr>sv_place := (if r = -1 then AtEnd else AtRemove)\<rparr>)
      | (AtRemove, RemoveReturns r missing) \<Rightarrow>
          Some (s\<lparr>sv_place := (if r = -1 \<and> \<not> missing then AtEnd else AtBind)\<rparr>)
      | (AtBind, Returns r) \<Rightarrow> Some (s\<lparr>sv_place := (if r = -1 then AtEnd else AtListen)\<rparr>)
      | (AtListen, Returns r) \<Rightarrow> Some (s\<lparr>sv_place := (if r = -1 then AtEnd else AtAccept)\<rparr>)
      | (AtAccept, Returns r) \<Rightarrow>
          if r = -1 then Some (s\<lparr>sv_place := AtEnd\<rparr>)
          else Some (s\<lparr>sv_place := AtRead, descriptors := Suc (descriptors s)\<rparr>)
      | (AtRead, Bytes r) \<Rightarrow> read_next s r
      | (AtWrite, Returns r) \<Rightarrow> write_next s r
      | _ \<Rightarrow> None)"

section \<open>The clients\<close>

definition client_message :: string where
  "client_message = ''message from client''"

definition message_bytes :: "u8 list" where
  "message_bytes = map of_char client_message"

record client =
  cl_place :: place
  sent_messages :: nat

definition client_start :: client where
  "client_start = \<lparr>cl_place = AtSocket, sent_messages = 0\<rparr>"

definition deliver_message :: "client \<Rightarrow> int \<Rightarrow> client option" where
  "deliver_message s r =
     (if r = int (length client_message)
      then Some (s\<lparr>cl_place := AtChar, sent_messages := Suc (sent_messages s)\<rparr>)
      else Some (s\<lparr>cl_place := AtEnd\<rparr>))"

definition stream_client_step :: "client \<Rightarrow> answer \<Rightarrow> client option" where
  "stream_client_step s a =
     (case (cl_place s, a) of
        (AtSocket, Returns r) \<Rightarrow> Some (s\<lparr>cl_place := (if r = -1 then AtEnd else AtConnect)\<rparr>)
      | (AtConnect, Returns r) \<Rightarrow> Some (s\<lparr>cl_place := (if r = -1 then AtEnd else AtChar)\<rparr>)
      | (AtChar, Returns c) \<Rightarrow> Some (s\<lparr>cl_place := AtWrite\<rparr>)
      | (AtWrite, Returns r) \<Rightarrow> deliver_message s r
      | _ \<Rightarrow> None)"

definition datagram_client_step :: "client \<Rightarrow> answer \<Rightarrow> client option" where
  "datagram_client_step s a =
     (case (cl_place s, a) of
        (AtSocket, Returns r) \<Rightarrow> Some (s\<lparr>cl_place := (if r = -1 then AtEnd else AtBind)\<rparr>)
      | (AtBind, Returns r) \<Rightarrow> Some (s\<lparr>cl_place := (if r = -1 then AtEnd else AtChar)\<rparr>)
      | (AtChar, Returns c) \<Rightarrow> Some (s\<lparr>cl_place := AtSend\<rparr>)
      | (AtSend, Returns r) \<Rightarrow> deliver_message s r
      | _ \<Rightarrow> None)"

section \<open>The datagram server\<close>

text \<open>
  \<open>printf ("%s")\<close> reads the buffer and the path up to a zero byte: without one it reads beyond
  the array, which is the fault in \<open>broken\<close>.
\<close>

definition DATAGRAM_BUF_SIZE :: nat where "DATAGRAM_BUF_SIZE = 512"
definition SUN_PATH_SIZE :: nat where "SUN_PATH_SIZE = 108"

record datagram_server =
  dg_place :: place
  dg_buf :: "u8 list"
  claddr_path :: "u8 list"
  lines :: "(u8 list \<times> u8 list) list"
  broken :: "fault option"

definition datagram_start :: "u8 list \<Rightarrow> u8 list \<Rightarrow> datagram_server" where
  "datagram_start junk path = \<lparr>dg_place = AtSocket, dg_buf = junk, claddr_path = path, lines = [], broken = None\<rparr>"

definition overlay :: "u8 list \<Rightarrow> u8 list \<Rightarrow> u8 list" where
  "overlay bs old = bs @ drop (length bs) old"

definition c_text :: "u8 list \<Rightarrow> u8 list" where
  "c_text bs = takeWhile (\<lambda>b. b \<noteq> 0) bs"

definition print_datagram :: "datagram_server \<Rightarrow> datagram_server" where
  "print_datagram s =
     (if 0 \<in> set (dg_buf s) \<and> 0 \<in> set (claddr_path s)
      then s\<lparr>lines := lines s @ [(c_text (dg_buf s), c_text (claddr_path s))]\<rparr>
      else s\<lparr>dg_place := AtEnd, broken := Some BufferOverflow\<rparr>)"

definition datagram_server_step :: "datagram_server \<Rightarrow> answer \<Rightarrow> datagram_server option" where
  "datagram_server_step s a =
     (case (dg_place s, a) of
        (AtSocket, Returns r) \<Rightarrow> Some (s\<lparr>dg_place := (if r = -1 then AtEnd else AtRemove)\<rparr>)
      | (AtRemove, RemoveReturns r missing) \<Rightarrow>
          Some (s\<lparr>dg_place := (if r = -1 \<and> \<not> missing then AtEnd else AtBind)\<rparr>)
      | (AtBind, Returns r) \<Rightarrow> Some (s\<lparr>dg_place := (if r = -1 then AtEnd else AtReceive)\<rparr>)
      | (AtReceive, Bytes None) \<Rightarrow> Some (s\<lparr>dg_place := AtEnd\<rparr>)
      | (AtReceive, Datagram bs path) \<Rightarrow>
          if length bs > DATAGRAM_BUF_SIZE \<or> length path > SUN_PATH_SIZE then None
          else Some (print_datagram
            (s\<lparr>dg_buf := overlay bs (dg_buf s), claddr_path := overlay path (claddr_path s)\<rparr>))
      | _ \<Rightarrow> None)"

section \<open>The server of pairs\<close>

text \<open>
  \<open>svaddr.sin_addr\<close> is taken to be the address \<open>INADDR_ANY\<close>. \<open>peers\<close> are the answers of
  \<open>getnameinfo\<close> so far.
\<close>

definition NI_MAXHOST :: nat where "NI_MAXHOST = 1025"
definition NI_MAXSERV :: nat where "NI_MAXSERV = 32"
definition ADDRSTRLEN :: nat where "ADDRSTRLEN = NI_MAXHOST + NI_MAXSERV + 10"

record pair_server =
  ps_place :: place
  connections :: "string list"
  peers :: "(string \<times> string) option list"

definition pair_start :: pair_server where
  "pair_start = \<lparr>ps_place = AtSocket, connections = [], peers = []\<rparr>"

definition snprintf :: "nat \<Rightarrow> string \<Rightarrow> string" where
  "snprintf n s = take (n - 1) s"

definition peer_text :: "(string \<times> string) option \<Rightarrow> string" where
  "peer_text x =
     (case x of
        Some (host, service) \<Rightarrow> snprintf ADDRSTRLEN (''('' @ host @ '', '' @ service @ '')'')
      | None \<Rightarrow> snprintf ADDRSTRLEN ''(?UNKNOWN?)'')"

definition names_fit :: "(string \<times> string) option \<Rightarrow> bool" where
  "names_fit x \<longleftrightarrow>
     (case x of None \<Rightarrow> True | Some (host, service) \<Rightarrow> length host < NI_MAXHOST \<and> length service < NI_MAXSERV)"

definition pair_server_step :: "pair_server \<Rightarrow> answer \<Rightarrow> pair_server option" where
  "pair_server_step s a =
     (case (ps_place s, a) of
        (AtSocket, Returns r) \<Rightarrow> Some (s\<lparr>ps_place := (if r = -1 then AtEnd else AtBind)\<rparr>)
      | (AtBind, Returns r) \<Rightarrow> Some (s\<lparr>ps_place := (if r = -1 then AtEnd else AtListen)\<rparr>)
      | (AtListen, Returns r) \<Rightarrow> Some (s\<lparr>ps_place := (if r \<noteq> 0 then AtEnd else AtAccept)\<rparr>)
      | (AtAccept, Returns r) \<Rightarrow> Some (s\<lparr>ps_place := (if r = -1 then AtEnd else AtName)\<rparr>)
      | (AtName, Names x) \<Rightarrow>
          if \<not> names_fit x then None
          else Some (s\<lparr>ps_place := AtAccept, connections := connections s @ [peer_text x], peers := peers s @ [x]\<rparr>)
      | _ \<Rightarrow> None)"

end
