(* ===== verification/SocketsProps.thy ===== *)
theory SocketsProps
  imports Sockets "HOL-Library.Sublist"
begin

text \<open>
  What the socket programs do: the stream server copies what its clients send, and is caught by
  a connection whose \<open>read\<close> fails; the datagram server prints what earlier datagrams left in its
  buffer; the texts of the server of pairs are never cut off. The locale \<open>set_up\<close> is the part
  that all programs share: they reach their service, or their end, and never come back.
\<close>

section \<open>Runs\<close>

lemma run_ConsE:
  assumes "run_program f s (a # as) = Some t"
  obtains u where "f s a = Some u" "run_program f u as = Some t"
  using assms by (auto split: option.splits)

lemma run_append:
  "run_program f s (as @ bs) = (case run_program f s as of None \<Rightarrow> None | Some t \<Rightarrow> run_program f t bs)"
  by (induction as arbitrary: s) (auto split: option.split)

lemma run_reaches: "run_program f s as = Some t \<Longrightarrow> reaches f s t"
proof (induction as arbitrary: t rule: rev_induct)
  case (snoc a as)
  then show ?case by (auto simp: run_append intro: reaches_step split: option.splits)
qed (auto intro: reaches_start)

lemma reaches_run: "reaches f s t \<Longrightarrow> \<exists>as. run_program f s as = Some t"
proof (induction rule: reaches.induct)
  case reaches_start
  then show ?case by (metis run_program.simps(1))
next
  case (reaches_step t a u)
  then obtain as where "run_program f s as = Some t" by blast
  with reaches_step(2) have "run_program f s (as @ [a]) = Some u" by (simp add: run_append)
  then show ?case by blast
qed

section \<open>The set-up of a program\<close>

locale set_up =
  fixes step :: "'s \<Rightarrow> answer \<Rightarrow> 's option" and at :: "'s \<Rightarrow> place" and service :: place
  assumes forward: "step s a = Some s' \<Longrightarrow> at s < service \<Longrightarrow> at s < at s'"
    and kept: "step s a = Some s' \<Longrightarrow> service \<le> at s \<Longrightarrow> service \<le> at s'"
begin

lemma ends_within:
  assumes "run_program step s as = Some t" "rank service - rank (at s) \<le> length as"
  shows "\<exists>k u. k \<le> rank service - rank (at s) \<and> run_program step s (take k as) = Some u \<and> service \<le> at u"
  using assms
proof (induction as arbitrary: s)
  case Nil
  then show ?case by (intro exI [of _ 0]) (auto simp: less_eq_place_def)
next
  case (Cons a as)
  show ?case
  proof (cases "at s < service")
    case True
    from Cons.prems(1) obtain v where v: "step s a = Some v" "run_program step v as = Some t"
      by (rule run_ConsE)
    with True have "at s < at v" using forward by blast
    with True Cons.IH [OF v(2)] Cons.prems(2) obtain k u where
      "k \<le> rank service - rank (at v)" "run_program step v (take k as) = Some u" "service \<le> at u"
      by (fastforce simp: less_place_def)
    with v(1) True \<open>at s < at v\<close> show ?thesis
      by (intro exI [of _ "Suc k"]) (auto simp: less_place_def)
  next
    case False
    then show ?thesis by (intro exI [of _ 0] exI [of _ s]) (simp add: not_less)
  qed
qed

lemma never_back: "reaches step s t \<Longrightarrow> service \<le> at s \<Longrightarrow> service \<le> at t"
  by (induction rule: reaches.induct) (auto intro: kept)

end

lemmas place_simps = less_place_def less_eq_place_def stream_server_step_def stream_client_step_def
  datagram_client_step_def datagram_server_step_def pair_server_step_def read_next_def write_next_def print_datagram_def
  deliver_message_def

interpretation stream_set_up: set_up stream_server_step sv_place AtAccept
  by unfold_locales (auto simp: place_simps split: place.splits answer.splits if_splits option.splits)

interpretation stream_client: set_up stream_client_step cl_place AtWrite
  by unfold_locales (auto simp: place_simps split: place.splits answer.splits if_splits option.splits)

interpretation datagram_client: set_up datagram_client_step cl_place AtChar
  by unfold_locales (auto simp: place_simps split: place.splits answer.splits if_splits option.splits)

interpretation datagram_set_up: set_up datagram_server_step dg_place AtReceive
  by unfold_locales (auto simp: place_simps split: place.splits answer.splits if_splits option.splits)

interpretation pair_set_up: set_up pair_server_step ps_place AtAccept
  by unfold_locales (auto simp: place_simps split: place.splits answer.splits if_splits option.splits)

section \<open>The stream server\<close>

definition stream_ok :: "stream_server \<Rightarrow> bool" where
  "stream_ok s \<longleftrightarrow> length (sv_buf s) = STREAM_BUF_SIZE \<and> prefix (produced s) (consumed s) \<and>
     (sv_place s \<le> AtRead \<longrightarrow> produced s = consumed s) \<and>
     (sv_place s = AtWrite \<longrightarrow> pending s \<le> int STREAM_BUF_SIZE \<and>
        consumed s = produced s @ take (nat (pending s)) (sv_buf s))"

lemma stream_ok_start: "length junk = STREAM_BUF_SIZE \<Longrightarrow> stream_ok (stream_start junk)"
  by (simp add: stream_ok_def stream_start_def)

lemma prefix_append_take: "m \<le> n \<Longrightarrow> prefix (xs @ take m ys) (xs @ take n ys)"
  by (simp add: take_is_prefix min_def prefix_def)
    (metis append_take_drop_id min.absorb1 take_take)

lemma stream_ok_read: "stream_ok s \<Longrightarrow> sv_place s = AtRead \<Longrightarrow> read_next s r = Some t \<Longrightarrow> stream_ok t"
  by (auto simp: stream_ok_def read_next_def less_eq_place_def split: option.splits if_splits)

lemma stream_ok_write:
  assumes "stream_ok s" "sv_place s = AtWrite" "write_next s r = Some t"
  shows "stream_ok t"
proof -
  have "prefix (produced s @ take (nat r) (sv_buf s)) (consumed s)" "r \<le> pending s"
    using assms prefix_append_take [of "nat r" "nat (pending s)" "produced s" "sv_buf s"]
    by (auto simp: stream_ok_def write_next_def split: if_splits)
  with assms show ?thesis
    by (auto simp: stream_ok_def write_next_def less_eq_place_def split: if_splits)
qed

lemma stream_ok_step: "stream_ok s \<Longrightarrow> stream_server_step s a = Some t \<Longrightarrow> stream_ok t"
proof -
  assume ok: "stream_ok s" and step: "stream_server_step s a = Some t"
  show "stream_ok t"
  proof (cases "sv_place s = AtRead \<or> sv_place s = AtWrite")
    case True
    with ok step show ?thesis
      by (auto simp: stream_server_step_def intro: stream_ok_read stream_ok_write split: answer.splits)
  next
    case False
    with ok step show ?thesis
      by (auto simp: stream_ok_def stream_server_step_def less_eq_place_def
          split: place.splits answer.splits if_splits)
  qed
qed

lemma stream_ok_reaches: "reaches stream_server_step s t \<Longrightarrow> stream_ok s \<Longrightarrow> stream_ok t"
  by (induction rule: reaches.induct) (auto intro: stream_ok_step)

text \<open>C25: What the stream server has written to the standard output is, in every state it can
  reach, a prefix of what it has read from its clients, in the same order; whenever it waits for
  a connection or for more bytes it has written all of it, and while it writes the rest lies in
  the first \<open>numBytes\<close> bytes of the buffer.\<close>

theorem stream_server_copies:
  assumes "reaches stream_server_step (stream_start junk) s" "length junk = STREAM_BUF_SIZE"
  shows "prefix (produced s) (consumed s) \<and>
    (sv_place s \<in> {AtAccept, AtRead} \<longrightarrow> produced s = consumed s) \<and>
    (sv_place s = AtWrite \<longrightarrow> consumed s = produced s @ take (nat (pending s)) (sv_buf s))"
  using stream_ok_reaches [OF assms(1) stream_ok_start [OF assms(2)]]
  by (auto simp: stream_ok_def less_eq_place_def)

definition demo_answers :: "answer list" where
  "demo_answers = [Returns 3, RemoveReturns (-1) True, Returns 0, Returns 0, Returns 4,
     Bytes (Some [104, 105]), Returns 2, Bytes (Some [33]), Returns 1, Bytes (Some [])]"

lemma demo_stream_run:
  "\<exists>s. run_program stream_server_step (stream_start (replicate 16 7)) demo_answers = Some s \<and>
     sv_place s = AtAccept \<and> consumed s = [104, 105, 33]"
  by (simp add: demo_answers_def stream_server_step_def stream_start_def STREAM_BUF_SIZE_def read_next_def
      write_next_def)

theorem stream_server_copies_witness:
  "\<exists>s. reaches stream_server_step (stream_start (replicate 16 7)) s \<and> sv_place s = AtAccept \<and>
     produced s = [104, 105, 33]"
proof -
  obtain s where s: "run_program stream_server_step (stream_start (replicate 16 7)) demo_answers = Some s"
    "sv_place s = AtAccept" "consumed s = [104, 105, 33]" using demo_stream_run by blast
  from stream_server_copies [OF run_reaches [OF s(1)]] s show ?thesis
    by (auto simp: STREAM_BUF_SIZE_def intro: run_reaches)
qed

text \<open>A connection whose \<open>read\<close> fails from now on: no answer of the system ends the service of it.\<close>

definition failing :: "answer \<Rightarrow> bool" where
  "failing a \<longleftrightarrow> (case a of Bytes r \<Rightarrow> r = None | _ \<Rightarrow> True)"

lemma failing_step:
  assumes "stream_server_step s a = Some t" "failing a" "sv_place s = AtRead \<or> sv_place s = AtWrite \<and> pending s = -1"
  shows "(sv_place t = AtRead \<or> sv_place t = AtWrite \<and> pending t = -1) \<and> produced t = produced s \<and>
    consumed t = consumed s \<and> descriptors t = descriptors s"
  using assms
  by (auto simp: stream_server_step_def read_next_def write_next_def failing_def
      split: place.splits answer.splits if_splits option.splits)

text \<open>C39: A failed \<open>read\<close> makes the count of the following \<open>write\<close> equal to its error, so the test for
  a failed write passes: when the reads of a connection fail, the stream server neither ends nor
  returns to \<open>accept\<close>, whatever the calls answer and however long it runs, and after each failed
  read it stands at the same read again.\<close>

theorem stream_server_spins:
  assumes "sv_place s = AtRead" "run_program stream_server_step s as = Some t" "\<forall>a \<in> set as. failing a"
  shows "sv_place t \<in> {AtRead, AtWrite} \<and> produced t = produced s \<and> descriptors t = descriptors s \<and>
    run_program stream_server_step s [Bytes None, Returns (-1)] = Some (s\<lparr>pending := -1\<rparr>)"
proof -
  have "(sv_place t = AtRead \<or> sv_place t = AtWrite \<and> pending t = -1) \<and> produced t = produced s \<and>
      descriptors t = descriptors s"
    if "sv_place s = AtRead \<or> sv_place s = AtWrite \<and> pending s = -1"
    using assms(2,3) that
  proof (induction as arbitrary: s)
    case (Cons a as)
    from Cons.prems(1) obtain u where u: "stream_server_step s a = Some u" "run_program stream_server_step u as = Some t"
      by (rule run_ConsE)
    with Cons failing_step [OF u(1) _ Cons.prems(3)] show ?case by auto
  qed simp
  with assms(1) show ?thesis
    by (auto simp: stream_server_step_def read_next_def write_next_def)
qed

theorem stream_server_spins_witness:
  "\<exists>s t. run_program stream_server_step s [Bytes None, Returns (-1), Bytes None] = Some t \<and>
     sv_place s = AtRead \<and> sv_place t = AtWrite \<and> produced t = produced s"
proof -
  let ?s = "(stream_start (replicate 16 7))\<lparr>sv_place := AtRead\<rparr>"
  obtain t where t: "run_program stream_server_step ?s [Bytes None, Returns (-1), Bytes None] = Some t"
    "sv_place t = AtWrite"
    by (simp add: stream_server_step_def read_next_def write_next_def)
  with stream_server_spins [OF _ t(1)] show ?thesis
    by (intro exI [of _ ?s] exI [of _ t]) (auto simp: failing_def)
qed

section \<open>The datagram server\<close>

text \<open>
  A byte of the buffer after the datagrams \<open>ds\<close>: that of the last datagram which is long enough
  to have it, or what the stack of the server held there.
\<close>

definition last_byte :: "u8 list \<Rightarrow> u8 list list \<Rightarrow> nat \<Rightarrow> u8" where
  "last_byte junk ds i =
     (case filter (\<lambda>d. i < length d) (rev ds) of [] \<Rightarrow> junk ! i | d # _ \<Rightarrow> d ! i)"

definition left_in :: "u8 list \<Rightarrow> u8 list list \<Rightarrow> u8 list" where
  "left_in junk ds = map (last_byte junk ds) [0..<length junk]"

lemma left_in_Nil [simp]: "left_in junk [] = junk"
  by (rule nth_equalityI) (simp_all add: left_in_def last_byte_def)

lemma overlay_left_in:
  "length d \<le> length junk \<Longrightarrow> overlay d (left_in junk ds) = left_in junk (ds @ [d])"
  by (rule nth_equalityI) (auto simp: overlay_def left_in_def last_byte_def nth_append)

text \<open>What is printed for each of the datagrams, after the datagrams \<open>before\<close>.\<close>

fun printed :: "u8 list \<Rightarrow> u8 list list \<Rightarrow> u8 list list \<Rightarrow> u8 list list" where
  "printed junk before [] = []"
| "printed junk before (d # ds) = c_text (left_in junk (before @ [d])) # printed junk (before @ [d]) ds"

lemma datagram_lines_from:
  assumes "run_program datagram_server_step s (map (\<lambda>(d, p). Datagram d p) ds) = Some t" "broken t = None"
    and "length junk = DATAGRAM_BUF_SIZE" "length path = SUN_PATH_SIZE" "dg_place s = AtReceive"
    and "dg_buf s = left_in junk before" "claddr_path s = left_in path pbefore"
  shows "lines t = lines s @ zip (printed junk before (map fst ds)) (printed path pbefore (map snd ds))"
  using assms(1,2,5-)
proof (induction ds arbitrary: s before pbefore)
  case (Cons x ds)
  obtain d p where x: "x = (d, p)" by (cases x)
  from Cons.prems(1) obtain u where u: "datagram_server_step s (Datagram d p) = Some u"
    "run_program datagram_server_step u (map (\<lambda>(d, p). Datagram d p) ds) = Some t"
    unfolding x by (auto elim: run_ConsE simp del: run_program.simps)
  from u(1) Cons.prems(3-) have fits: "length d \<le> length junk" "length p \<le> length path"
    and u': "u = print_datagram (s\<lparr>dg_buf := left_in junk (before @ [d]), claddr_path := left_in path (pbefore @ [p])\<rparr>)"
    by (auto simp: datagram_server_step_def assms(3,4) overlay_left_in split: if_splits)
  show ?case
  proof (cases "dg_place u = AtReceive")
    case True
    with u' Cons.prems(3) have "dg_buf u = left_in junk (before @ [d])" "claddr_path u = left_in path (pbefore @ [p])"
      "lines u = lines s @ [(c_text (left_in junk (before @ [d])), c_text (left_in path (pbefore @ [p])))]"
      by (auto simp: print_datagram_def split: if_splits)
    with Cons.IH [OF u(2) Cons.prems(2) True] show ?thesis by (simp add: x)
  next
    case False
    with u' Cons.prems(3) have "dg_place u = AtEnd" "broken u \<noteq> None"
      by (auto simp: print_datagram_def split: if_splits)
    with u(2) Cons.prems(2) show ?thesis
      by (cases ds) (auto simp: datagram_server_step_def)
  qed
qed simp

text \<open>The message of the client has no terminator.\<close>

lemma left_in_messages:
  assumes "length m \<le> length junk" "ds \<noteq> []" "set ds = {m}"
  shows "left_in junk ds = m @ drop (length m) junk"
  using assms(2,3)
proof (induction ds rule: rev_induct)
  case (snoc d ds)
  then have d: "d = m" by simp
  have "left_in junk (ds @ [m]) = overlay m (left_in junk ds)" using assms(1) by (simp add: overlay_left_in)
  moreover have "ds = [] \<or> set ds = {m}" using snoc.prems(2) d by (cases ds) auto
  ultimately show ?case using snoc.IH d by (cases "ds = []") (auto simp: overlay_def)
qed simp

lemma printed_messages:
  assumes "length message_bytes \<le> length junk" "set (before @ ds) \<subseteq> {message_bytes}"
  shows "printed junk before ds =
    replicate (length ds) (message_bytes @ c_text (drop (length message_bytes) junk))"
  using assms(2)
proof (induction ds arbitrary: before)
  case (Cons d ds)
  have "left_in junk (before @ [d]) = message_bytes @ drop (length message_bytes) junk"
    using Cons.prems by (intro left_in_messages [OF assms(1)]) auto
  moreover have "0 \<notin> set message_bytes" by (simp add: message_bytes_def client_message_def)
  then have "c_text (message_bytes @ xs) = message_bytes @ c_text xs" for xs
    by (auto simp: c_text_def takeWhile_append)
  ultimately show ?case using Cons.IH [of "before @ [d]"] Cons.prems by simp
qed simp

lemma length_printed: "length (printed junk before ds) = length ds"
  by (induction ds arbitrary: before) simp_all

text \<open>C21: The datagram server prints, for each datagram, the bytes up to the first zero of its buffer,
  and the buffer holds at each place the byte of the last datagram that was long enough: a
  datagram without a terminator is printed together with what longer ones before it, or the
  stack of the server, left behind it. The same is true of the path of the sender.\<close>

theorem datagram_lines:
  assumes "run_program datagram_server_step ((datagram_start junk path)\<lparr>dg_place := AtReceive\<rparr>)
      (map (\<lambda>(d, p). Datagram d p) ds) = Some t" "broken t = None"
    and "length junk = DATAGRAM_BUF_SIZE" "length path = SUN_PATH_SIZE"
  shows "lines t = zip (printed junk [] (map fst ds)) (printed path [] (map snd ds)) \<and>
    (set (map fst ds) \<subseteq> {message_bytes} \<longrightarrow>
       map fst (lines t) = replicate (length ds) (message_bytes @ c_text (drop (length message_bytes) junk)))"
proof -
  have "lines t = zip (printed junk [] (map fst ds)) (printed path [] (map snd ds))"
    using datagram_lines_from [OF assms, of "[]" "[]"] by (simp add: datagram_start_def)
  moreover have "length message_bytes \<le> length junk"
    by (simp add: assms(3) DATAGRAM_BUF_SIZE_def message_bytes_def client_message_def)
  ultimately show ?thesis
    using printed_messages [of junk "[]" "map fst ds"] by (simp add: length_printed)
qed

theorem datagram_lines_witness:
  "\<exists>t. lines t = zip (printed (replicate 512 0) [] [message_bytes, [104, 105]])
       (printed (replicate 108 0) [] [[47, 0], [47, 0]]) \<and>
     run_program datagram_server_step ((datagram_start (replicate 512 0) (replicate 108 0))\<lparr>dg_place := AtReceive\<rparr>)
       [Datagram message_bytes [47, 0], Datagram [104, 105] [47, 0]] = Some t"
proof -
  let ?ds = "[(message_bytes, [47, 0]), ([104, 105], [47, 0])] :: (u8 list \<times> u8 list) list"
  have len: "length message_bytes = 19" by (simp add: message_bytes_def client_message_def)
  obtain t where t: "run_program datagram_server_step ((datagram_start (replicate 512 0) (replicate 108 0))
      \<lparr>dg_place := AtReceive\<rparr>) (map (\<lambda>(d, p). Datagram d p) ?ds) = Some t" "broken t = None"
    by (simp add: datagram_server_step_def datagram_start_def print_datagram_def overlay_def len
        DATAGRAM_BUF_SIZE_def SUN_PATH_SIZE_def)
  from datagram_lines [OF t, THEN conjunct1] t(1) show ?thesis
    by (auto simp: DATAGRAM_BUF_SIZE_def SUN_PATH_SIZE_def)
qed

section \<open>The server of pairs\<close>

definition whole_text :: "(string \<times> string) option \<Rightarrow> string" where
  "whole_text x =
     (case x of Some (host, service) \<Rightarrow> ''('' @ host @ '', '' @ service @ '')'' | None \<Rightarrow> ''(?UNKNOWN?)'')"

lemma peer_text_fits: "names_fit x \<Longrightarrow> peer_text x = whole_text x"
  by (auto simp: names_fit_def whole_text_def peer_text_def snprintf_def ADDRSTRLEN_def NI_MAXHOST_def NI_MAXSERV_def
      split: option.splits)

text \<open>C40: The server of pairs announces each connection with the whole names of its peer: the array
  is long enough for every host and service that \<open>getnameinfo\<close> can return, so no text is cut
  off, and a failed look-up is announced as unknown.\<close>

theorem connections_announced:
  assumes "reaches pair_server_step pair_start s"
  shows "connections s = map whole_text (peers s)"
  using assms
proof (induction rule: reaches.induct)
  case reaches_start
  then show ?case by (simp add: pair_start_def)
next
  case (reaches_step t a u)
  then show ?case
    by (auto simp: pair_server_step_def peer_text_fits split: place.splits answer.splits if_splits)
qed

theorem connections_announced_witness:
  "\<exists>s. reaches pair_server_step pair_start s \<and> connections s = [''(localhost, ssh)'']"
proof -
  obtain s where s: "run_program pair_server_step pair_start
      [Returns 3, Returns 0, Returns 0, Returns 4, Names (Some (''localhost'', ''ssh''))] = Some s"
    "peers s = [Some (''localhost'', ''ssh'')]"
    by (simp add: pair_server_step_def pair_start_def names_fit_def NI_MAXHOST_def NI_MAXSERV_def)
  from connections_announced [OF run_reaches [OF s(1)]] s(2) run_reaches [OF s(1)] show ?thesis
    by (intro exI [of _ s]) (simp add: whole_text_def)
qed

end
