(* ===== verification/AppMain.thy ===== *)
theory AppMain
  imports WifiProps
begin

text \<open>
  The use that \<open>app_main\<close> of \<open>firmware_esp32/main/main.c\<close> makes of the Wi-Fi task: after the
  start of the program (theory \<open>Pipes\<close>) it asks twice for a connection to its network and logs
  the address of the second answer. The endless loop behind it only logs the free memory.
  The last part puts \<open>app_main\<close> and \<open>wifi_connection\<close> together: what one sends the other receives.
\<close>

unbundle bit_operations_syntax

section \<open>The program\<close>

record app_main =
  main_wifi_data :: wifi_data

type_synonym 'a main_prog = "(esp_event, app_main, 'a) prog"

definition filled :: "nat \<Rightarrow> string \<Rightarrow> string" where
  "filled n s = s @ replicate (n - length s) NUL"

definition main_query :: wifi_data where
  "main_query = \<lparr>ssid = filled MAX_SSID_LEN ''idesk2.4'', password = filled MAX_PASSPHRASE_LEN ''57883830'',
     ceaseless_conn = True, need_response = True, number_attempts = 6\<rparr>"

definition request_connection :: "'j esp \<Rightarrow> bits main_prog" where
  "request_connection E = do {
     queue_reset WifiQueue;
     d \<leftarrow> reads main_wifi_data;
     queue_send E WifiQueue (WifiItem d);
     set_bits WifiGroup CONNECT_TO_AP;
     wait_bits E WifiGroup (OPERATION_SUCCESS OR OPERATION_FAILED) }"

text \<open>The logged text: \<open>ip\<close> of the answer, which lies over the first bytes of \<open>ssid\<close>.\<close>

definition log_address :: "'j esp \<Rightarrow> string main_prog" where
  "log_address E = do {
     r \<leftarrow> receive_wifi E;
     (case r of None \<Rightarrow> skip | Some d \<Rightarrow> modify (\<lambda>v. v\<lparr>main_wifi_data := d\<rparr>));
     d \<leftarrow> reads main_wifi_data;
     array_string (take IP4_MAX_SIZE (ssid d)) }"

definition use_wifi :: "'j esp \<Rightarrow> string option main_prog" where
  "use_wifi E = do {
     modify (\<lambda>v. v\<lparr>main_wifi_data := main_query\<rparr>);
     take_mutex E WifiMutex;
     request_connection E;
     bits \<leftarrow> request_connection E;
     if has_bit bits OPERATION_SUCCESS then do {
       text \<leftarrow> log_address E;
       give_mutex WifiMutex;
       ret (Some text) }
     else do { give_mutex WifiMutex; ret None } }"

section \<open>The two tasks together\<close>

text \<open>
  The system as the Wi-Fi task sees it when the query \<open>d\<close> waits in its queue, and as \<open>app_main\<close>
  sees it when the history \<open>h\<close> of the Wi-Fi task ends with its reply.
\<close>

definition with_query :: "wifi_data \<Rightarrow> 'j esp \<Rightarrow> 'j esp" where
  "with_query d E = E\<lparr>e_wait := (\<lambda>h g b. CONNECT_TO_AP), e_receive_wifi := (\<lambda>h. Some d)\<rparr>"

fun reply_bits :: "esp_event list \<Rightarrow> bits" where
  "reply_bits (SetBits WifiGroup b # h) = b"
| "reply_bits (e # h) = reply_bits h"
| "reply_bits [] = 0"

fun reply_item :: "esp_event list \<Rightarrow> wifi_data option" where
  "reply_item (QueueSend WifiQueue (WifiItem d) True # h) = Some d"
| "reply_item (QueueReset WifiQueue # h) = None"
| "reply_item (e # h) = reply_item h"
| "reply_item [] = None"

definition with_reply :: "esp_event list \<Rightarrow> 'j esp \<Rightarrow> 'j esp" where
  "with_reply h E = E\<lparr>e_wait := (\<lambda>h' g b. reply_bits h), e_receive_wifi := (\<lambda>h'. reply_item h)\<rparr>"

lemma wifi_requests: "has_bit CONNECT_TO_AP CONNECT_TO_AP"
  "has_bit OPERATION_SUCCESS OPERATION_SUCCESS" "\<not> has_bit OPERATION_FAILED OPERATION_SUCCESS"
  by (simp_all add: has_bit_def CONNECT_TO_AP_def OPERATION_SUCCESS_def OPERATION_FAILED_def
      BIT0_def BIT1_def BIT2_def)

lemma query_name: "NUL \<in> set (ssid main_query)" "c_string (ssid main_query) = ''idesk2.4''"
  by (simp_all add: main_query_def filled_def MAX_SSID_LEN_def c_string_def NUL_def numeral_eq_Suc)

text \<open>The pass of the Wi-Fi task for a network it is connected to.\<close>

lemma run_connected_pass:
  assumes "fault w = None" "\<And>h. e_events E h = []" "\<And>h q. e_send E h q"
    and "NUL \<in> set (connected_ssid (vars w))" "c_string (connected_ssid (vars w)) = ''idesk2.4''"
  shows "\<exists>w'. run_state (wifi_pass (with_query main_query E)) w = ((), w') \<and> fault w' = None \<and>
    reply_bits (history w') = OPERATION_SUCCESS \<and>
    reply_item (history w') = Some (wifi_answer \<lparr>int_ip = received_ip (vars w),
      int_network = network_ip (vars w), int_broadcast = broadcast_ip (vars w)\<rparr>)"
proof -
  have same: "strcmp_equal (ssid main_query) (connected_ssid (vars w)) = ok True"
    using strcmp_equal_strings [OF query_name(1) assms(4)] query_name(2) assms(5) by simp
  have deliver: "deliver (with_query main_query E) = skip"
    by (rule State_Monad.state.expand) (simp add: deliver_def with_query_def assms(2) fun_eq_iff)
  have system: "e_wait (with_query main_query E) h g b = CONNECT_TO_AP"
    "e_receive_wifi (with_query main_query E) h = Some main_query" "e_send (with_query main_query E) h q" for h g b q
    by (simp_all add: with_query_def assms(3))
  have "need_response main_query" by (simp add: main_query_def)
  then show ?thesis
    using assms(1) same wifi_requests(1)
    by (simp add: wifi_pass_def deliver get_state_def wait_bits_def system wifi_request_def
        connect_to_ap_def receive_wifi_def current_connection_def answer_query_def queue_reset_def
        queue_send_def report_success_def set_bits_def whenever_def)
qed

text \<open>What \<open>app_main\<close> logs of the reply.\<close>

lemma take_answer: "length (int_ip d) = IP4_MAX_SIZE \<Longrightarrow> take IP4_MAX_SIZE (ssid (wifi_answer d)) = int_ip d"
  by (simp add: wifi_answer_def)

lemma run_request_connection:
  "fault w = None \<Longrightarrow> \<exists>h'. run_state (request_connection (with_reply h E)) w = (reply_bits h, w\<lparr>history := h'\<rparr>)"
  by (simp add: request_connection_def queue_reset_def queue_send_def set_bits_def wait_bits_def with_reply_def)
    (rule exI, rule refl)

lemma run_log_address:
  assumes "fault w = None" "reply_item h = Some (wifi_answer d)" "ip_text (int_ip d)"
  shows "\<exists>w'. run_state (log_address (with_reply h E)) w = (c_string (int_ip d), w') \<and> fault w' = None"
proof -
  have "NUL \<in> set (int_ip d)" "length (int_ip d) = IP4_MAX_SIZE" using assms(3) by (simp_all add: ip_text_def)
  with assms(1,2) show ?thesis
    by (simp add: log_address_def receive_wifi_def with_reply_def array_string_def take_answer)
qed

lemma run_use_wifi:
  assumes "fault w = None" "reply_bits h = OPERATION_SUCCESS" "reply_item h = Some (wifi_answer d)" "ip_text (int_ip d)"
  shows "\<exists>w'. run_state (use_wifi (with_reply h E)) w = (Some (c_string (int_ip d)), w') \<and> fault w' = None"
proof -
  let ?w = "w\<lparr>vars := (vars w)\<lparr>main_wifi_data := main_query\<rparr>,
    history := Take WifiMutex (e_take (with_reply h E) (history w) WifiMutex) # history w\<rparr>"
  obtain h1 where h1: "run_state (request_connection (with_reply h E)) ?w = (reply_bits h, ?w\<lparr>history := h1\<rparr>)"
    using run_request_connection [of ?w h E] assms(1) by auto
  obtain h2 where h2: "run_state (request_connection (with_reply h E)) (?w\<lparr>history := h1\<rparr>) =
      (reply_bits h, ?w\<lparr>history := h2\<rparr>)"
    using run_request_connection [of "?w\<lparr>history := h1\<rparr>" h E] assms(1) by auto
  obtain w' where w': "run_state (log_address (with_reply h E)) (?w\<lparr>history := h2\<rparr>) = (c_string (int_ip d), w')"
    "fault w' = None"
    using run_log_address [OF _ assms(3,4), of "?w\<lparr>history := h2\<rparr>" E] assms(1) by auto
  show ?thesis
    using assms(1) h1 h2 w' by (simp add: use_wifi_def take_mutex_def assms(2) wifi_requests give_mutex_def)
qed


definition demo_station :: "(esp_event, wifi_task) machine" where
  "demo_station = \<lparr>history = [], fault = None, vars = (wifi_initial wifi_zero)\<lparr>connected_ssid := ssid main_query\<rparr>\<rparr>"

definition demo_main :: "(esp_event, app_main) machine" where
  "demo_main = \<lparr>history = [], fault = None, vars = \<lparr>main_wifi_data = wifi_zero\<rparr>\<rparr>"


end
