(* ===== verification/Spec2Isabelle.thy ===== *)
theory Spec2Isabelle
  imports StorageProps ReadLine DriverBytes Show AcClientProps UdpClient WifiAttempts
    PipesProps ConsoleProps SocketsProps AppMain
begin

text \<open>
  A verification library for the C programs of this repository.

  \<^bold>\<open>The programs and how they interact.\<close>

  \<^item> \<open>WDM_filter_driver\<close>: a Windows filter driver (\<open>TouchscreenFilterDriver.c\<close>, \<open>.h\<close>,
    \<open>TSFD_IOCTL.h\<close>) that sits above each touch panel, recalibrates the touches of the packets
    that are read through it, and is configured through a control device by the tool
    \<open>DriverInterface.c\<close>.
  \<^item> \<open>firmware_esp32/main\<close>: a program for the ESP32 with three tasks on FreeRTOS, \<open>ac_client\<close>
    (\<open>ac_gree.c\<close>), \<open>udp_client\<close> (\<open>udp_client.c\<close>) and \<open>wifi_connection\<close> (\<open>wifi.c\<close>), which talk through
    pipes (\<open>interconn_pipe.c\<close>): a client puts a request in the queue of a pipe, raises a bit, and
    waits for the bit of success or failure. \<open>main.c\<close> creates the pipes and starts the tasks.
  \<^item> \<open>pair_server\<close>: a key-value store (\<open>storage.c\<close>) and the start of a server (\<open>server.c\<close>), which
    does not use the store yet.
  \<^item> \<open>c_examples\<close>: a buffered line reader (\<open>read_line.c\<close>) and servers and clients on Unix sockets.
  \<^item> \<open>linux_dev/show/show.c\<close>: a file viewer on the curses library.

  \<^bold>\<open>How code is modelled.\<close>

  A pure function is a HOL function; C integers are words of their width, or numbers where the
  code cannot leave the range. A step that C leaves undefined is a \<open>fault\<close> (theory \<open>Prelude\<close>): a
  value, so that its absence is a theorem and its presence a finding. Code that calls a system
  is a program of the state monad over a \<open>machine\<close> (theory \<open>Machine\<close>): its variables, the history
  of its calls and its fault. The answer of a call is a function of the history, given by a
  record that is an argument of every definition (\<open>kernel\<close> for Windows, \<open>esp\<close> for the firmware,
  \<open>rtos\<close> for its start, \<open>console_io\<close> for the tool), so each theorem holds for every behaviour of
  the system, failures of any call included, unless it names what it assumes. Libraries that
  are not in the repository (mbedTLS, cJSON, curses, the safe-string routines) are fields of
  these records; what a theorem uses of them is what they document.

  Three calculi carry the proofs about programs: \<open>keeps\<close> (what is left unchanged), \<open>weighs\<close> (what
  is acquired and released, for any weight of events) and \<open>triple\<close> and \<open>safe\<close> (runs without a
  fault that keep an invariant). The locales over weights are proved once for every weight and
  interpreted for locks, handles, pool memory, items, mutexes, sockets and answers.

  \<^bold>\<open>The theories, by component.\<close>

  \<^item> The store, \<open>pair_server/storage.c\<close>. \<open>Storage\<close>: \<open>get_item\<close>, \<open>insert_item\<close>, \<open>delete_item\<close>, \<open>pop_item\<close>,
    \<open>get_size\<close> on table cells and heap cells with explicit links. \<open>StorageChain\<close>: the shape of the
    chains in memory. \<open>StorageSpec\<close>: the operations on abstract buckets. \<open>StorageRefine\<close>: the code
    implements them. \<open>StorageMap\<close>, \<open>StorageProps\<close>: the store as a map, as an instance of the locale
    \<open>keyed_store\<close> of \<open>Interfaces\<close>, and its runs from the empty table.
  \<^item> The line reader, \<open>read_line.c\<close>: \<open>ReadLine\<close>, with the specification by lines of the input.
  \<^item> The viewer, \<open>show.c\<close>: \<open>Show\<close>; drawing is compared with the page that the offsets describe.
  \<^item> The socket programs: \<open>Sockets\<close>, machines whose step takes the answer of a system call;
    \<open>SocketsProps\<close>, with the locale \<open>set_up\<close> for the start that all of them share.
  \<^item> The driver. \<open>Double\<close>: binary64 with rounding to nearest even. \<open>Layout\<close>, \<open>Calibration\<close>: the checks
    of calibration points and the arithmetic of the read path, from \<open>Fx\<close> to \<open>ResetInputData\<close>.
    \<open>DriverState\<close>: device objects and the kernel. \<open>Registry\<close>: the access to the registry.
    \<open>Dispatch\<close>: read, plug and play, power, create and close. \<open>Ioctl\<close>: device control.
    \<open>DriverInit\<close>: \<open>DriverEntry\<close>, \<open>AddDevice\<close>, \<open>DriverUnload\<close>. \<open>RegistryBalance\<close>, \<open>RequestBalance\<close>: what
    is acquired is given back, requests are answered once. \<open>DriverSafe\<close>, \<open>RequestSafe\<close>,
    \<open>ControlSafe\<close>: the invariant of the device objects and its preservation. \<open>DriverProps\<close>: runs
    of the driver. \<open>DriverFaults\<close>, \<open>DriverBytes\<close>: reports, behaviour outside the invariant, and the
    bytes of the registry.
  \<^item> The tool, \<open>DriverInterface.c\<close>: \<open>Console\<close>, \<open>ConsoleProps\<close>; its points are followed into the
    driver's reader of calibration points.
  \<^item> The firmware. \<open>EspState\<close>: data, memory and the system; \<open>EspDemo\<close>: a concrete system for the
    examples. \<open>AcList\<close>: the list of air conditioners. \<open>AcCrypto\<close>: \<open>ac_encrypt\<close>, \<open>ac_decrypt\<close>.
    \<open>AcJson\<close>: the messages. \<open>AcBalance\<close>: they give back what they allocate. \<open>Interconn\<close>: the pipes.
    \<open>AcClient\<close>, \<open>AcClientBalance\<close>, \<open>AcClientProps\<close>: the client. \<open>UdpClient\<close>: the UDP task. \<open>Wifi\<close>,
    \<open>WifiText\<close>, \<open>WifiInv\<close>, \<open>WifiProps\<close>, \<open>WifiAttempts\<close>: the Wi-Fi task and the handlers that run in
    between. \<open>Pipes\<close>, \<open>PipesProps\<close>: the creation of the pipes and the start of the program.
    \<open>AppMain\<close>: \<open>app_main\<close> and the Wi-Fi task together.

  \<^bold>\<open>What the lemmas show.\<close>

  Functional behaviour: each operation of the store in every reachable state; \<open>read_line\<close> for
  every way the input arrives in pieces; the page drawn by the viewer; the list of air
  conditioners; decryption after encryption; the texts of addresses; the requests of the tool;
  what the socket servers print. Equivalence with a reference: the floating-point checks of a
  layout decide the exact geometric condition. Bounds: calibrated coordinates stay in the range
  of the screen, with the degenerate places named. Safety and balance: no fault over any
  sequence of requests to the driver once a panel is selected, each request answered once,
  every lock, handle, block and mutex given back. Errors: what the code does on paths that
  break its own assumptions, as theorems that the findings refer to.

  \<^bold>\<open>Loops and bounds.\<close>

  A loop whose end depends on memory or on the system is a \<open>partial_function\<close>, and the theorems
  say that it returns. The endless loops of tasks are functions of the number of passes, for
  every number; the endless loops of the socket servers are runs over any list of answers. No
  other bound is chosen; nothing depends on fuel.

  \<^bold>\<open>What is not modelled, and why.\<close>

  \<^item> An interruption within an operation of the driver or within a handler of the firmware: the
    steps of the relation \<open>serves\<close> and the handlers of \<open>deliver\<close> run as a whole.
  \<^item> The code of a removal (\<open>IRP_MN_REMOVE_DEVICE\<close>) is modelled (\<open>RemoveDevice\<close>), but the relation
    \<open>serves\<close> is about the time in which the panels are present.
  \<^item> \<open>get_mac_from_json_scan\<close> of \<open>ac_gree.c\<close>, which has no body.
  \<^item> Log messages, pauses and the set-up of the curses screen, which have no state of the
    programs' own; the exercises \<open>cu1.c\<close>, \<open>cu2.c\<close>, \<open>cu3.c\<close> and \<open>lambda.c\<close>, which consist of such calls;
    the script \<open>capturer.py\<close>.
\<close>

end
